theory Spec2Isabelle
  imports Complex_Main
begin

section \<open>JavaScript values shared by the models\<close>

text \<open>
  A thrown JavaScript \<open>Error\<close> is a value carrying its message. Objects live in a heap and
  are known by reference: the heap is the list of all objects allocated so far and a
  reference is an index into it, so two references are the same object exactly when they
  are equal. A user-supplied callback may change the heap and may throw; what it did to
  the heap before throwing stays, so every operation returns its outcome together with
  the state it leaves behind. Callbacks are taken not to call back into the object that
  invokes them.
\<close>

datatype error = Error string

type_synonym ref = nat

type_synonym 'o heap = "'o list"

section \<open>ObjectPool (src/utils/ObjectPool.js)\<close>

text \<open>
  The configuration object. An absent property is \<open>None\<close>. Sizes are integers.
\<close>

record 'o PoolConfig =
  factory :: "('o heap \<Rightarrow> (error + ref) \<times> 'o heap) option"
  reset :: "(ref \<Rightarrow> 'o heap \<Rightarrow> error option \<times> 'o heap) option"
  initialSize :: "int option"
  maxSize :: "int option"
  autoExpand :: "bool option"

text \<open>
  The pool object: \<open>_pool\<close> is an array used as a stack (\<open>push\<close> appends at the end,
  \<open>pop\<close> takes from the end) and \<open>_activeObjects\<close> is a \<open>Set\<close> of references.
\<close>

record 'o ObjectPool =
  p_factory :: "'o heap \<Rightarrow> (error + ref) \<times> 'o heap"
  p_reset :: "ref \<Rightarrow> 'o heap \<Rightarrow> error option \<times> 'o heap"
  p_initialSize :: int
  p_maxSize :: int
  p_autoExpand :: bool
  p_pool :: "ref list"
  p_activeObjects :: "ref set"

text \<open>
  \<open>v || d\<close> on an optional number: \<open>undefined\<close> and \<open>0\<close> are falsy (\<open>NaN\<close> is not modelled).
\<close>

definition js_or :: "('a::zero) option \<Rightarrow> 'a \<Rightarrow> 'a" where
  "js_or v d = (case v of None \<Rightarrow> d | Some n \<Rightarrow> if n = 0 then d else n)"

definition availableSize :: "'o ObjectPool \<Rightarrow> nat" where
  "availableSize p = length (p_pool p)"

definition activeSize :: "'o ObjectPool \<Rightarrow> nat" where
  "activeSize p = card (p_activeObjects p)"

definition totalSize :: "'o ObjectPool \<Rightarrow> nat" where
  "totalSize p = availableSize p + activeSize p"

text \<open>
  The loop of \<open>_initializePool\<close>: \<open>n\<close> is the number of iterations still to run; it
  stops at the first throw of the factory.
\<close>

fun initializePool_loop ::
  "('o heap \<Rightarrow> (error + ref) \<times> 'o heap) \<Rightarrow> nat \<Rightarrow> ref list \<Rightarrow> 'o heap
    \<Rightarrow> (error + ref list) \<times> 'o heap" where
  "initializePool_loop f 0 pool h = (Inr pool, h)"
| "initializePool_loop f (Suc n) pool h =
     (case f h of
        (Inl e, h') \<Rightarrow> (Inl e, h')
      | (Inr x, h') \<Rightarrow> initializePool_loop f n (pool @ [x]) h')"

definition initializePool :: "'o ObjectPool \<Rightarrow> 'o heap \<Rightarrow> (error + 'o ObjectPool) \<times> 'o heap" where
  "initializePool this h =
     (case initializePool_loop (p_factory this) (nat (p_initialSize this)) (p_pool this) h of
        (Inl (Error m), h') \<Rightarrow> (Inl (Error (''Failed to initialize object pool: '' @ m)), h')
      | (Inr pool, h') \<Rightarrow> (Inr (this\<lparr>p_pool := pool\<rparr>), h'))"

definition ObjectPool_new :: "'o PoolConfig \<Rightarrow> 'o heap \<Rightarrow> (error + 'o ObjectPool) \<times> 'o heap" where
  "ObjectPool_new config h =
     (case factory config of
        None \<Rightarrow> (Inl (Error ''ObjectPool requires a valid factory function''), h)
      | Some f \<Rightarrow>
          (let r = (case reset config of None \<Rightarrow> (\<lambda>obj h. (None, h)) | Some r \<Rightarrow> r);
               isz = max 0 (js_or (initialSize config) 100);
               msz = max isz (js_or (maxSize config) 1000);
               ae = (autoExpand config \<noteq> Some False)
           in initializePool
                \<lparr>p_factory = f, p_reset = r, p_initialSize = isz, p_maxSize = msz,
                 p_autoExpand = ae, p_pool = [], p_activeObjects = {}\<rparr> h))"

definition acquire :: "'o ObjectPool \<Rightarrow> 'o heap \<Rightarrow> (error + ref) \<times> 'o ObjectPool \<times> 'o heap" where
  "acquire this h =
     (if length (p_pool this) = 0 then
        (if \<not> p_autoExpand this \<or> int (totalSize this) \<ge> p_maxSize this
         then (Inl (Error ''Object pool depleted and cannot expand''), this, h)
         else (case p_factory this h of
                 (Inl e, h') \<Rightarrow> (Inl e, this, h')
               | (Inr object, h') \<Rightarrow>
                   (Inr object,
                    this\<lparr>p_activeObjects := insert object (p_activeObjects this)\<rparr>, h')))
      else (let object = last (p_pool this)
            in (Inr object,
                this\<lparr>p_pool := butlast (p_pool this),
                     p_activeObjects := insert object (p_activeObjects this)\<rparr>, h)))"

definition release :: "ref \<Rightarrow> 'o ObjectPool \<Rightarrow> 'o heap \<Rightarrow> error option \<times> 'o ObjectPool \<times> 'o heap" where
  "release object this h =
     (if object \<notin> p_activeObjects this
      then (Some (Error ''Attempting to release an object not managed by this pool''), this, h)
      else (case p_reset this object h of
              (Some (Error m), h') \<Rightarrow>
                (Some (Error (''Failed to release object: '' @ m)), this, h')
            | (None, h') \<Rightarrow>
                (None,
                 this\<lparr>p_activeObjects := p_activeObjects this - {object},
                      p_pool := p_pool this @ [object]\<rparr>, h')))"

text \<open>A caller's sequence of calls, and the pool and heap after each of them.\<close>

datatype pool_call = Acquire | Release ref

fun pool_step :: "pool_call \<Rightarrow> 'o ObjectPool \<times> 'o heap \<Rightarrow> 'o ObjectPool \<times> 'o heap" where
  "pool_step Acquire (p, h) = snd (acquire p h)"
| "pool_step (Release x) (p, h) = snd (release x p h)"

fun pool_run :: "pool_call list \<Rightarrow> 'o ObjectPool \<times> 'o heap \<Rightarrow> ('o ObjectPool \<times> 'o heap) list" where
  "pool_run [] s = []"
| "pool_run (c # cs) s = pool_step c s # pool_run cs (pool_step c s)"

text \<open>
  \<open>n\<close> calls of \<open>acquire\<close> in a row: the outcomes in order, and the final state.
\<close>

fun acquires :: "nat \<Rightarrow> 'o ObjectPool \<Rightarrow> 'o heap \<Rightarrow> (error + ref) list \<times> 'o ObjectPool \<times> 'o heap" where
  "acquires 0 p h = ([], p, h)"
| "acquires (Suc n) p h =
     (case acquire p h of
        (r, p', h') \<Rightarrow> (case acquires n p' h' of (rs, p'', h'') \<Rightarrow> (r # rs, p'', h'')))"

text \<open>
  What the documentation asks of the callbacks: the factory "creates new objects", that
  is, it returns a reference allocated during the call; and no callback removes an
  object from the heap.
\<close>

definition creates_new :: "('o heap \<Rightarrow> (error + ref) \<times> 'o heap) \<Rightarrow> bool" where
  "creates_new f \<longleftrightarrow>
     (\<forall>h. length h \<le> length (snd (f h)) \<and>
          (\<forall>x. fst (f h) = Inr x \<longrightarrow> length h \<le> x \<and> x < length (snd (f h))))"

definition keeps_objects :: "(ref \<Rightarrow> 'o heap \<Rightarrow> error option \<times> 'o heap) \<Rightarrow> bool" where
  "keeps_objects r \<longleftrightarrow> (\<forall>x h. length h \<le> length (snd (r x h)))"

text \<open>Every managed instance is in exactly one of the free list and the active set.\<close>

definition exactly_one_place :: "'o ObjectPool \<Rightarrow> bool" where
  "exactly_one_place p \<longleftrightarrow>
     distinct (p_pool p) \<and> set (p_pool p) \<inter> p_activeObjects p = {} \<and>
     card (set (p_pool p) \<union> p_activeObjects p) = totalSize p"

text \<open>
  The invariant carried through a run: the free list has no duplicates and shares no
  reference with the active set, every managed reference points into the heap, and the
  callbacks are as documented.
\<close>

definition pool_ok :: "'o ObjectPool \<Rightarrow> 'o heap \<Rightarrow> bool" where
  "pool_ok p h \<longleftrightarrow>
     distinct (p_pool p) \<and> set (p_pool p) \<inter> p_activeObjects p = {} \<and>
     finite (p_activeObjects p) \<and>
     (\<forall>x \<in> set (p_pool p). x < length h) \<and>
     (\<forall>x \<in> p_activeObjects p. x < length h) \<and>
     creates_new (p_factory p) \<and> keeps_objects (p_reset p)"

text \<open>The callbacks of a configuration are as documented.\<close>

definition well_behaved :: "'o PoolConfig \<Rightarrow> bool" where
  "well_behaved config \<longleftrightarrow>
     (case factory config of None \<Rightarrow> True | Some f \<Rightarrow> creates_new f) \<and>
     (case reset config of None \<Rightarrow> True | Some r \<Rightarrow> keeps_objects r)"

text \<open>
  Test fixtures, after the repository's pool tests: objects are pairs \<open>(x, y)\<close>, the
  factory allocates \<open>{x: 0, y: 0}\<close>, and one reset function always throws.
\<close>

definition counter_factory :: "(int \<times> int) heap \<Rightarrow> (error + ref) \<times> (int \<times> int) heap" where
  "counter_factory h = (Inr (length h), h @ [(0, 0)])"

definition failing_reset :: "ref \<Rightarrow> (int \<times> int) heap \<Rightarrow> error option \<times> (int \<times> int) heap" where
  "failing_reset obj h = (Some (Error ''boom''), h)"

definition fixture_config :: "int \<Rightarrow> int \<Rightarrow> bool option \<Rightarrow> (int \<times> int) PoolConfig" where
  "fixture_config isz msz ae =
     \<lparr>factory = Some counter_factory, reset = None, initialSize = Some isz,
      maxSize = Some msz, autoExpand = ae\<rparr>"

definition fixture_pool :: "int \<Rightarrow> int \<Rightarrow> bool \<Rightarrow> ref list \<Rightarrow> ref set \<Rightarrow> (int \<times> int) ObjectPool" where
  "fixture_pool isz msz ae pool act =
     \<lparr>p_factory = counter_factory, p_reset = (\<lambda>obj h. (None, h)), p_initialSize = isz,
      p_maxSize = msz, p_autoExpand = ae, p_pool = pool, p_activeObjects = act\<rparr>"

section \<open>GameLoop (src/core/GameLoop.js)\<close>

text \<open>
  Times are JavaScript numbers in milliseconds, that is IEEE 754 binary64 floating-point
  numbers. A finite number is modelled by the real number it denotes, and an arithmetic
  operation by the exact operation followed by rounding to the nearest binary64 number,
  ties going to the even significand: \<open>expo\<close> is the binary exponent of a value, \<open>ulp\<close> the
  distance between neighbouring binary64 numbers at that exponent (at least 2 to the power -1074,
  the distance between subnormal numbers) and \<open>rd\<close> the rounding. Overflow to \<open>Infinity\<close>,
  \<open>NaN\<close> and the sign of zero are outside the model: the values that the statements
  below are about stay far below 2 to the power 1024.
\<close>

definition expo :: "real \<Rightarrow> int" where
  "expo x = \<lfloor>log 2 \<bar>x\<bar>\<rfloor>"

definition pow2 :: "int \<Rightarrow> real" where
  "pow2 n = (if 0 \<le> n then 2 ^ nat n else 1 / 2 ^ nat (- n))"

definition ulp :: "real \<Rightarrow> real" where
  "ulp x = pow2 (max (expo x) (- 1022) - 52)"

definition round_even :: "real \<Rightarrow> int" where
  "round_even y =
     (let f = \<lfloor>y\<rfloor>
      in if y - of_int f < 1 / 2 then f
         else if y - of_int f > 1 / 2 then f + 1
         else if even f then f else f + 1)"

definition rd :: "real \<Rightarrow> real" where
  "rd x = (if x = 0 then 0 else of_int (round_even (x / ulp x)) * ulp x)"

text \<open>The operations \<open>+\<close>, \<open>-\<close> and \<open>/\<close> of JavaScript on numbers.\<close>

definition fl_add :: "real \<Rightarrow> real \<Rightarrow> real" where
  "fl_add x y = rd (x + y)"

definition fl_sub :: "real \<Rightarrow> real \<Rightarrow> real" where
  "fl_sub x y = rd (x - y)"

definition fl_div :: "real \<Rightarrow> real \<Rightarrow> real" where
  "fl_div x y = rd (x / y)"

text \<open>
  The two module constants. \<open>FIXED_TIME_STEP\<close> is the number \<open>1000 / 60\<close> of JavaScript,
  16.666666666666668, not the fraction \<open>50/3\<close>.
\<close>

definition FIXED_TIME_STEP :: real where
  "FIXED_TIME_STEP = fl_div 1000 60"

definition MAX_FRAME_TIME :: real where
  "MAX_FRAME_TIME = 250"

text \<open>
  What a frame does to the outside world, in order: calls of the update callback (with
  the argument passed), the clearing of the canvas, the call of the render callback
  (with the interpolation factor), \<open>console.error\<close> (with its label and the error), and the
  request for the next animation frame.
\<close>

datatype event =
    UpdateCall real
  | ClearRect
  | RenderCall real
  | ConsoleError string error
  | RequestAnimationFrame

text \<open>
  The loop object. \<open>'w\<close> is the state the callbacks work on; a callback returns the error
  it throws, if any, and the state it leaves.
\<close>

record 'w GameLoop =
  update :: "real \<Rightarrow> 'w \<Rightarrow> error option \<times> 'w"
  render :: "real \<Rightarrow> 'w \<Rightarrow> error option \<times> 'w"
  targetFPS :: real
  frameTime :: real
  accumulator :: real
  lastTime :: real
  running :: bool
  fps :: nat
  frameCount :: nat
  lastFPSUpdate :: real

text \<open>
  The constructor, after \<open>_validateConfig\<close>. \<open>canvas\<close> says whether \<open>config.canvas\<close> is an
  \<open>HTMLCanvasElement\<close>; the drawing context and the visibility listener are outside the
  model.
\<close>

record 'w GameLoopConfig =
  canvas :: bool
  cfg_update :: "(real \<Rightarrow> 'w \<Rightarrow> error option \<times> 'w) option"
  cfg_render :: "(real \<Rightarrow> 'w \<Rightarrow> error option \<times> 'w) option"
  cfg_targetFPS :: "real option"

definition GameLoop_new :: "'w GameLoopConfig option \<Rightarrow> error + 'w GameLoop" where
  "GameLoop_new config =
     (case config of
        None \<Rightarrow> Inl (Error ''GameLoop configuration is required'')
      | Some c \<Rightarrow>
          if \<not> canvas c then Inl (Error ''Valid canvas element is required'')
          else (case cfg_update c of
                  None \<Rightarrow> Inl (Error ''Update function is required'')
                | Some u \<Rightarrow>
                    (case cfg_render c of
                       None \<Rightarrow> Inl (Error ''Render function is required'')
                     | Some r \<Rightarrow>
                         Inr \<lparr>update = u, render = r,
                              targetFPS = js_or (cfg_targetFPS c) 60,
                              frameTime = fl_div 1000 (js_or (cfg_targetFPS c) 60),
                              accumulator = 0, lastTime = 0, running = False, fps = 0,
                              frameCount = 0, lastFPSUpdate = 0\<rparr>)))"

text \<open>\<open>start()\<close> reads the clock (\<open>now\<close>) and requests the first frame; \<open>stop()\<close>.\<close>

definition start :: "real \<Rightarrow> 'w GameLoop \<Rightarrow> 'w GameLoop \<times> event list" where
  "start now this =
     (if running this then (this, [])
      else (this\<lparr>running := True, lastTime := now, lastFPSUpdate := now\<rparr>,
            [RequestAnimationFrame]))"

definition stop :: "'w GameLoop \<Rightarrow> 'w GameLoop" where
  "stop this = this\<lparr>running := False\<rparr>"

text \<open>
  The \<open>while (this.accumulator >= FIXED_TIME_STEP)\<close> loop of \<open>_loop\<close>, on the accumulator,
  the callbacks' state and the events so far. It returns the error that ended it, if
  any, the accumulator, the callbacks' state and the events. The accumulator is reduced
  only after the update call returned. The loop need not end (a large accumulator is not
  changed by the rounded subtraction): the result is then \<open>None\<close>.
\<close>

partial_function (option) update_loop ::
  "(real \<Rightarrow> 'w \<Rightarrow> error option \<times> 'w) \<Rightarrow> real \<Rightarrow> 'w \<Rightarrow> event list
     \<Rightarrow> (error option \<times> real \<times> 'w \<times> event list) option" where
  "update_loop upd acc w tr =
     (if acc \<ge> FIXED_TIME_STEP then
        (case upd (fl_div FIXED_TIME_STEP 1000) w of
           (Some e, w') \<Rightarrow>
             Some (Some e, acc, w',
                   tr @ [UpdateCall (fl_div FIXED_TIME_STEP 1000),
                         ConsoleError ''Error in update loop:'' e])
         | (None, w') \<Rightarrow>
             update_loop upd (fl_sub acc FIXED_TIME_STEP) w'
               (tr @ [UpdateCall (fl_div FIXED_TIME_STEP 1000)]))
      else Some (None, acc, w, tr))"

text \<open>
  \<open>_loop(currentTime)\<close>: one frame callback; \<open>None\<close> when it does not return. The outcome
  \<open>Some e\<close> is \<open>throw error\<close>: the error leaves \<open>_loop\<close>. As in the source, the local
  variable \<open>frameTime\<close> is not the property \<open>this.frameTime\<close>, which \<open>_loop\<close> never reads: the
  step is the module constant.
\<close>

definition loop ::
  "real \<Rightarrow> 'w GameLoop \<Rightarrow> 'w \<Rightarrow> (error option \<times> 'w GameLoop \<times> 'w \<times> event list) option" where
  "loop currentTime this w =
     (if \<not> running this then Some (None, this, w, [])
      else
        (let frameTime = min (fl_sub currentTime (lastTime this)) MAX_FRAME_TIME;
             this1 = this\<lparr>lastTime := currentTime, frameCount := frameCount this + 1\<rparr>;
             this2 = (if fl_sub currentTime (lastFPSUpdate this1) \<ge> 1000
                      then this1\<lparr>fps := frameCount this1, frameCount := 0,
                                 lastFPSUpdate := currentTime\<rparr>
                      else this1)
         in (case update_loop (update this2) (fl_add (accumulator this2) frameTime) w [] of
               None \<Rightarrow> None
             | Some (Some e, acc, w1, tr) \<Rightarrow>
                 Some (Some e, stop (this2\<lparr>accumulator := acc\<rparr>), w1, tr)
             | Some (None, acc, w1, tr) \<Rightarrow>
                 (let this3 = this2\<lparr>accumulator := acc\<rparr>;
                      alpha = fl_div (accumulator this3) FIXED_TIME_STEP
                  in (case render this3 alpha w1 of
                        (Some e, w2) \<Rightarrow>
                          Some (Some e, stop this3, w2,
                                tr @ [ClearRect, RenderCall alpha,
                                      ConsoleError ''Error in render loop:'' e])
                      | (None, w2) \<Rightarrow>
                          Some (None, this3, w2,
                                tr @ [ClearRect, RenderCall alpha, RequestAnimationFrame]))))))"

text \<open>
  The accumulator of a frame after \<open>this.accumulator += frameTime\<close>, where \<open>frameTime\<close> is
  \<open>Math.min(currentTime - this.lastTime, MAX_FRAME_TIME)\<close>.
\<close>

definition frame_accumulator :: "real \<Rightarrow> 'w GameLoop \<Rightarrow> real" where
  "frame_accumulator t this =
     fl_add (accumulator this) (min (fl_sub t (lastTime this)) MAX_FRAME_TIME)"

text \<open>
  The arguments of the update calls in a trace, in order.
\<close>

fun update_args :: "event list \<Rightarrow> real list" where
  "update_args [] = []"
| "update_args (UpdateCall a # tr) = a # update_args tr"
| "update_args (_ # tr) = update_args tr"

text \<open>
  The accumulator after \<open>k\<close> executions of \<open>this.accumulator -= FIXED_TIME_STEP\<close>, and the
  callbacks' state after \<open>k\<close> update calls.
\<close>

fun acc_after :: "nat \<Rightarrow> real \<Rightarrow> real" where
  "acc_after 0 a = a"
| "acc_after (Suc k) a = acc_after k (fl_sub a FIXED_TIME_STEP)"

fun world_after :: "(real \<Rightarrow> 'w \<Rightarrow> error option \<times> 'w) \<Rightarrow> nat \<Rightarrow> 'w \<Rightarrow> 'w" where
  "world_after upd 0 w = w"
| "world_after upd (Suc k) w = world_after upd k (snd (upd (fl_div FIXED_TIME_STEP 1000) w))"

text \<open>
  An assumption about callbacks used in the statements below.
\<close>

definition never_throws :: "(real \<Rightarrow> 'w \<Rightarrow> error option \<times> 'w) \<Rightarrow> bool" where
  "never_throws f \<longleftrightarrow> (\<forall>a w. fst (f a w) = None)"

text \<open>
  Test fixtures: callbacks on a counter of simulated ticks (one of them throws when the
  counter has reached \<open>k\<close>, that is on its call number \<open>k + 1\<close>), and a loop object.
\<close>

definition tick_update :: "real \<Rightarrow> nat \<Rightarrow> error option \<times> nat" where
  "tick_update dt w = (None, w + 1)"

definition draw_render :: "real \<Rightarrow> nat \<Rightarrow> error option \<times> nat" where
  "draw_render alpha w = (None, w)"

definition throwing_update :: "real \<Rightarrow> nat \<Rightarrow> error option \<times> nat" where
  "throwing_update dt w = (Some (Error ''boom''), w)"



definition fixture_loop :: "(real \<Rightarrow> nat \<Rightarrow> error option \<times> nat) \<Rightarrow> bool \<Rightarrow> real \<Rightarrow> real \<Rightarrow> nat GameLoop" where
  "fixture_loop upd r acc lt =
     \<lparr>update = upd, render = draw_render, targetFPS = 60, frameTime = fl_div 1000 60,
      accumulator = acc, lastTime = lt, running = r, fps = 0, frameCount = 0,
      lastFPSUpdate = 0\<rparr>"

text \<open>
  The parts of a frame's result.
\<close>

definition frame_error :: "error option \<times> 'w GameLoop \<times> 'w \<times> event list \<Rightarrow> error option" where
  "frame_error r = fst r"

definition frame_loop :: "error option \<times> 'w GameLoop \<times> 'w \<times> event list \<Rightarrow> 'w GameLoop" where
  "frame_loop r = fst (snd r)"

definition frame_world :: "error option \<times> 'w GameLoop \<times> 'w \<times> event list \<Rightarrow> 'w" where
  "frame_world r = fst (snd (snd r))"

definition frame_trace :: "error option \<times> 'w GameLoop \<times> 'w \<times> event list \<Rightarrow> event list" where
  "frame_trace r = snd (snd (snd r))"

section \<open>Particles (src/unnamed/part_000, src/effects/ExplosionEffect.js)\<close>

text \<open>
  The host environment: the results of successive \<open>Math.random()\<close> calls and of
  successive clock readings (\<open>performance.now()\<close>, \<open>Date.now()\<close>). Reading one takes the
  head of its stream.
\<close>

record env =
  randoms :: "nat \<Rightarrow> real"
  clocks :: "nat \<Rightarrow> real"

definition Math_random :: "env \<Rightarrow> real \<times> env" where
  "Math_random e = (randoms e 0, e\<lparr>randoms := (\<lambda>n. randoms e (Suc n))\<rparr>)"

definition performance_now :: "env \<Rightarrow> real \<times> env" where
  "performance_now e = (clocks e 0, e\<lparr>clocks := (\<lambda>n. clocks e (Suc n))\<rparr>)"

definition Date_now :: "env \<Rightarrow> real \<times> env" where
  "Date_now e = (clocks e 0, e\<lparr>clocks := (\<lambda>n. clocks e (Suc n))\<rparr>)"

text \<open>
  The particle of the particle system: \<open>new Particle(config)\<close> reads the clock for \<open>birth\<close>.
\<close>

record SysParticle =
  sp_x :: real
  sp_y :: real
  sp_velocity :: real
  sp_angle :: real
  sp_color :: string
  sp_size :: real
  sp_lifetime :: real
  sp_birth :: real
  sp_dead :: bool

record SystemConfig =
  MAX_PARTICLES :: int
  PARTICLE_LIFETIME :: real
  BATCH_SIZE :: int
  OPTIMIZATION_THRESHOLD :: real

text \<open>
  The system object. \<open>particles\<close> is a \<open>Set\<close> of particle objects, kept in insertion order;
  every particle added is a newly constructed object, so adding always appends.
\<close>

record ParticleSystem =
  ps_config :: SystemConfig
  particles :: "SysParticle list"
  lastUpdate :: real
  isRunning :: bool
  ps_frameCount :: nat

record ExplosionOptions =
  opt_count :: "int option"
  opt_color :: "string option"
  opt_size :: "real option"
  opt_velocity :: "real option"

definition or_default :: "'a option \<Rightarrow> 'a \<Rightarrow> 'a" where
  "or_default v d = (case v of None \<Rightarrow> d | Some a \<Rightarrow> a)"

text \<open>
  The \<open>for (let i = 0; i < count; i++)\<close> loop of \<open>createExplosion\<close>, with its \<open>break\<close> when
  the set has reached \<open>MAX_PARTICLES\<close>.
\<close>

function createExplosion_loop ::
  "int \<Rightarrow> int \<Rightarrow> real \<Rightarrow> real \<Rightarrow> string \<Rightarrow> real \<Rightarrow> real \<Rightarrow> ParticleSystem \<Rightarrow> env
     \<Rightarrow> ParticleSystem \<times> env" where
  "createExplosion_loop i count x y color psize velocity this e =
     (if i < count then
        (if int (length (particles this)) \<ge> MAX_PARTICLES (ps_config this) then (this, e)
         else
           (let angle = (pi * 2 * of_int i) / of_int count;
                (r1, e1) = Math_random e;
                randomVelocity = velocity * (0.5 + r1 * 0.5);
                (r2, e2) = Math_random e1;
                (now, e3) = performance_now e2;
                particle = \<lparr>sp_x = x, sp_y = y, sp_velocity = randomVelocity, sp_angle = angle,
                            sp_color = color, sp_size = psize,
                            sp_lifetime = PARTICLE_LIFETIME (ps_config this) * (0.8 + r2 * 0.4),
                            sp_birth = now, sp_dead = False\<rparr>
            in createExplosion_loop (i + 1) count x y color psize velocity
                 (this\<lparr>particles := particles this @ [particle]\<rparr>) e3))
      else (this, e))"
  by pat_completeness auto

termination
  by (relation "measure (\<lambda>(i, count, x, y, color, psize, velocity, this, e). nat (count - i))") auto

declare createExplosion_loop.simps [simp del]

text \<open>
  \<open>createExplosion(x, y, options)\<close>: the new system, the environment, and the
  \<open>console.warn\<close> messages written.
\<close>

definition createExplosion ::
  "real \<Rightarrow> real \<Rightarrow> ExplosionOptions \<Rightarrow> ParticleSystem \<Rightarrow> env \<Rightarrow> ParticleSystem \<times> env \<times> string list" where
  "createExplosion x y options this e =
     (let count = or_default (opt_count options) (BATCH_SIZE (ps_config this));
          color = or_default (opt_color options) ''#FF5733'';
          psize = or_default (opt_size options) 2;
          velocity = or_default (opt_velocity options) 200;
          warnings =
            (if int (length (particles this)) + count > MAX_PARTICLES (ps_config this)
             then [''Particle limit reached, some particles may be skipped''] else []);
          (this', e') = createExplosion_loop 0 count x y color psize velocity this e
      in (this', e', warnings))"

text \<open>Test fixtures: an environment, and a system with a given cap and number of particles.\<close>

definition fixture_env :: env where
  "fixture_env = \<lparr>randoms = (\<lambda>n. 0), clocks = (\<lambda>n. real n)\<rparr>"

definition fixture_particle :: SysParticle where
  "fixture_particle =
     \<lparr>sp_x = 0, sp_y = 0, sp_velocity = 100, sp_angle = 0, sp_color = ''#FF5733'', sp_size = 2,
      sp_lifetime = 2000, sp_birth = 0, sp_dead = False\<rparr>"

definition fixture_system :: "int \<Rightarrow> nat \<Rightarrow> ParticleSystem" where
  "fixture_system m k =
     \<lparr>ps_config = \<lparr>MAX_PARTICLES = m, PARTICLE_LIFETIME = 2000, BATCH_SIZE = 100,
                OPTIMIZATION_THRESHOLD = 60\<rparr>,
      particles = replicate k fixture_particle, lastUpdate = 0, isRunning = False,
      ps_frameCount = 0\<rparr>"

text \<open>
  The pooled particle (module effects/Particle). The class keeps its pool in private static
  state: \<open>#pool\<close>, an array of references to particles, bounded by \<open>#poolSize\<close>. A method
  is modelled on the fields of its receiver; \<open>this\<close> is the receiver's reference, which is
  what lands in the static pool.
\<close>

record Particle =
  pt_x :: real
  pt_y :: real
  pt_vx :: real
  pt_vy :: real
  pt_size :: real
  pt_color :: string
  pt_alpha :: real
  pt_gravity :: real
  pt_drag :: real
  pt_lifetime :: real
  pt_elapsed :: real
  pt_active :: bool

text \<open>
  The configuration of \<open>init\<close>. \<open>cfg_x\<close> and \<open>cfg_y\<close> are \<open>None\<close> when the property is not a
  number; the others are \<open>None\<close> when the property is absent, and then take their default.
\<close>

record ParticleConfig =
  cfg_x :: "real option"
  cfg_y :: "real option"
  cfg_size :: "real option"
  cfg_lifetime :: "real option"
  cfg_color :: "string option"
  cfg_speed :: "real option"
  cfg_angle :: "real option"
  cfg_gravity :: "real option"
  cfg_alpha :: "real option"

definition poolSize :: nat where
  "poolSize = 1000"

definition Particle_new :: Particle where
  "Particle_new =
     \<lparr>pt_x = 0, pt_y = 0, pt_vx = 0, pt_vy = 0, pt_size = 2, pt_color = ''#ffffff'',
      pt_alpha = 1, pt_gravity = 0, pt_drag = 0.98, pt_lifetime = 1000, pt_elapsed = 0,
      pt_active = False\<rparr>"

definition recycle :: "ref \<Rightarrow> ref list \<Rightarrow> ref list" where
  "recycle particle pool = (if length pool < poolSize then pool @ [particle] else pool)"

definition init :: "ParticleConfig option \<Rightarrow> Particle \<Rightarrow> error + Particle" where
  "init config this =
     (case config of
        None \<Rightarrow> Inl (Error ''Invalid particle configuration'')
      | Some c \<Rightarrow>
          (case (cfg_x c, cfg_y c) of
             (Some x, Some y) \<Rightarrow>
               (let speed = or_default (cfg_speed c) 1;
                    angle = or_default (cfg_angle c) 0
                in Inr (this\<lparr>pt_x := x, pt_y := y,
                              pt_vx := cos angle * speed, pt_vy := sin angle * speed,
                              pt_size := or_default (cfg_size c) 2,
                              pt_color := or_default (cfg_color c) ''#ffffff'',
                              pt_alpha := or_default (cfg_alpha c) 1,
                              pt_gravity := or_default (cfg_gravity c) 0,
                              pt_lifetime := or_default (cfg_lifetime c) 1000,
                              pt_elapsed := 0, pt_active := True\<rparr>))
           | _ \<Rightarrow> Inl (Error ''Particle position (x, y) must be numbers'')))"

text \<open>
  \<open>update(deltaTime)\<close>: whether the particle is still active, its fields, and the static
  pool. The division is only reached with \<open>elapsed < lifetime\<close>; a zero lifetime there
  (which needs a negative \<open>elapsed\<close>) gives an infinity in JavaScript and is outside what is
  stated below.
\<close>

definition Particle_update :: "ref \<Rightarrow> real \<Rightarrow> Particle \<Rightarrow> ref list \<Rightarrow> bool \<times> Particle \<times> ref list" where
  "Particle_update this deltaTime p pool =
     (if \<not> pt_active p then (False, p, pool)
      else
        (let p1 = p\<lparr>pt_elapsed := pt_elapsed p + deltaTime\<rparr>
         in if pt_elapsed p1 \<ge> pt_lifetime p1
            then (False, p1\<lparr>pt_active := False\<rparr>, recycle this pool)
            else
              (let p2 = p1\<lparr>pt_x := pt_x p1 + pt_vx p1, pt_y := pt_y p1 + pt_vy p1\<rparr>;
                   p3 = p2\<lparr>pt_vy := pt_vy p2 + pt_gravity p2\<rparr>;
                   p4 = p3\<lparr>pt_vx := pt_vx p3 * pt_drag p3, pt_vy := pt_vy p3 * pt_drag p3\<rparr>;
                   p5 = p4\<lparr>pt_alpha := 1 - pt_elapsed p4 / pt_lifetime p4\<rparr>
               in (True, p5, pool))))"

definition destroy :: "ref \<Rightarrow> Particle \<Rightarrow> ref list \<Rightarrow> Particle \<times> ref list" where
  "destroy this p pool = (p\<lparr>pt_active := False\<rparr>, recycle this pool)"

text \<open>
  The particle of the explosion effect (src/effects/ExplosionEffect.js). Its constructor
  draws three random numbers and reads the clock; \<open>colors[...]\<close> is \<open>undefined\<close> (\<open>None\<close>)
  for an empty list. \<open>update\<close> reads the clock again.
\<close>

record EParticle =
  ep_x :: real
  ep_y :: real
  ep_velocity_x :: real
  ep_velocity_y :: real
  ep_radius :: real
  ep_lifetime :: real
  ep_birth :: real
  ep_color :: "string option"
  ep_alpha :: real

record EParticleOptions =
  spreadFactor :: real
  eo_size :: "real option"
  eo_lifetime :: "real option"
  colors :: "string list"

definition GRAVITY :: real where
  "GRAVITY = 0.98"

definition PARTICLE_SIZE :: real where
  "PARTICLE_SIZE = 3"

definition DEFAULT_PARTICLE_LIFETIME :: real where
  "DEFAULT_PARTICLE_LIFETIME = 1000"

definition EParticle_new :: "real \<Rightarrow> real \<Rightarrow> EParticleOptions \<Rightarrow> env \<Rightarrow> EParticle \<times> env" where
  "EParticle_new x y options e =
     (let (r1, e1) = Math_random e;
          (r2, e2) = Math_random e1;
          (now, e3) = Date_now e2;
          (r3, e4) = Math_random e3;
          i = nat \<lfloor>r3 * real (length (colors options))\<rfloor>
      in (\<lparr>ep_x = x, ep_y = y,
           ep_velocity_x = (r1 - 0.5) * spreadFactor options,
           ep_velocity_y = (r2 - 0.5) * spreadFactor options,
           ep_radius = js_or (eo_size options) PARTICLE_SIZE,
           ep_lifetime = js_or (eo_lifetime options) DEFAULT_PARTICLE_LIFETIME,
           ep_birth = now,
           ep_color = (if i < length (colors options) then Some (colors options ! i) else None),
           ep_alpha = 1\<rparr>, e4))"

definition EParticle_update :: "real \<Rightarrow> EParticle \<Rightarrow> env \<Rightarrow> bool \<times> EParticle \<times> env" where
  "EParticle_update deltaTime p e =
     (let p1 = p\<lparr>ep_x := ep_x p + ep_velocity_x p * deltaTime\<rparr>;
          p2 = p1\<lparr>ep_y := ep_y p1 + ep_velocity_y p1 * deltaTime\<rparr>;
          p3 = p2\<lparr>ep_velocity_y := ep_velocity_y p2 + GRAVITY * deltaTime * 0.001\<rparr>;
          (now, e1) = Date_now e;
          age = now - ep_birth p3;
          p4 = p3\<lparr>ep_alpha := max 0 (1 - age / ep_lifetime p3)\<rparr>
      in (age < ep_lifetime p4, p4, e1))"

text \<open>Test fixture: a pooled particle initialised at the origin with every default.\<close>

definition fixture_pooled :: Particle where
  "fixture_pooled =
     \<lparr>pt_x = 0, pt_y = 0, pt_vx = 1, pt_vy = 0, pt_size = 2, pt_color = ''#ffffff'',
      pt_alpha = 1, pt_gravity = 0, pt_drag = 0.98, pt_lifetime = 1000, pt_elapsed = 0,
      pt_active = True\<rparr>"

definition fixture_explosion_particle :: EParticle where
  "fixture_explosion_particle =
     \<lparr>ep_x = 0, ep_y = 0, ep_velocity_x = 0, ep_velocity_y = 0, ep_radius = 3,
      ep_lifetime = 1000, ep_birth = 0, ep_color = Some ''#ff4400'', ep_alpha = 1\<rparr>"

definition clock_at :: "real \<Rightarrow> env" where
  "clock_at t = \<lparr>randoms = (\<lambda>n. 0), clocks = (\<lambda>n. t)\<rparr>"

section \<open>ParticleEmitter (src/effects/ParticleEmitter.js)\<close>

text \<open>
  The particle emitter (src/effects/ParticleEmitter.js). Its particles are plain objects
  in a \<open>Set\<close>, kept here in insertion order. It has no particle cap.
\<close>

record EmitterParticle =
  mp_x :: real
  mp_y :: real
  mp_vx :: real
  mp_vy :: real
  mp_life :: real
  mp_maxLife :: real
  mp_size :: real
  mp_color :: string
  mp_opacity :: real

record EmitterConfig =
  ec_x :: "real option"
  ec_y :: "real option"
  ec_lifetime :: "real option"
  ec_speed :: "real option"
  ec_size :: "real option"
  ec_color :: "string option"
  ec_spread :: "real option"
  ec_gravity :: "real option"
  ec_opacity :: "real option"

record ParticleEmitter =
  em_x :: real
  em_y :: real
  em_lifetime :: real
  em_speed :: real
  em_size :: real
  em_color :: string
  em_spread :: real
  em_gravity :: real
  em_opacity :: real
  em_particles :: "EmitterParticle list"
  isActive :: bool
  em_lastUpdate :: real

text \<open>
  The constructor: \<open>x\<close> and \<open>y\<close> must be numbers; every other property is replaced by its
  default when falsy (for the colour, when absent or empty).
\<close>

definition ParticleEmitter_new :: "EmitterConfig option \<Rightarrow> env \<Rightarrow> (error + ParticleEmitter) \<times> env" where
  "ParticleEmitter_new config e =
     (case config of
        None \<Rightarrow> (Inl (Error ''ParticleEmitter requires a configuration object''), e)
      | Some c \<Rightarrow>
          (case (ec_x c, ec_y c) of
             (Some x, Some y) \<Rightarrow>
               (let (now, e1) = performance_now e
                in (Inr \<lparr>em_x = x, em_y = y,
                         em_lifetime = js_or (ec_lifetime c) 2000,
                         em_speed = js_or (ec_speed c) 5,
                         em_size = js_or (ec_size c) 5,
                         em_color = (case ec_color c of None \<Rightarrow> ''#ffffff''
                                     | Some s \<Rightarrow> if s = [] then ''#ffffff'' else s),
                         em_spread = js_or (ec_spread c) 360,
                         em_gravity = js_or (ec_gravity c) 0.5,
                         em_opacity = js_or (ec_opacity c) 1,
                         em_particles = [], isActive = False, em_lastUpdate = now\<rparr>, e1))
           | _ \<Rightarrow> (Inl (Error ''Position (x, y) must be specified as numbers''), e)))"

definition createParticle :: "ParticleEmitter \<Rightarrow> env \<Rightarrow> ParticleEmitter \<times> env" where
  "createParticle this e =
     (let (r1, e1) = Math_random e;
          angle = (r1 * em_spread this * pi) / 180;
          (r2, e2) = Math_random e1;
          speed = em_speed this * (0.5 + r2);
          (r3, e3) = Math_random e2;
          particle = \<lparr>mp_x = em_x this, mp_y = em_y this,
                      mp_vx = cos angle * speed, mp_vy = sin angle * speed,
                      mp_life = em_lifetime this, mp_maxLife = em_lifetime this,
                      mp_size = em_size this * (0.8 + r3 * 0.4),
                      mp_color = em_color this, mp_opacity = em_opacity this\<rparr>
      in (this\<lparr>em_particles := em_particles this @ [particle]\<rparr>, e3))"

text \<open>\<open>update(deltaTime)\<close>: every particle is moved and aged, and removed once its life is used up.\<close>

definition emitter_step :: "ParticleEmitter \<Rightarrow> real \<Rightarrow> EmitterParticle \<Rightarrow> EmitterParticle" where
  "emitter_step this deltaTime p =
     (let p1 = p\<lparr>mp_x := mp_x p + mp_vx p * (deltaTime / 16)\<rparr>;
          p2 = p1\<lparr>mp_y := mp_y p1 + mp_vy p1 * (deltaTime / 16)\<rparr>;
          p3 = p2\<lparr>mp_vy := mp_vy p2 + em_gravity this * (deltaTime / 16)\<rparr>;
          p4 = p3\<lparr>mp_life := mp_life p3 - deltaTime\<rparr>
      in p4\<lparr>mp_opacity := (mp_life p4 / mp_maxLife p4) * em_opacity this\<rparr>)"

definition emitter_update :: "real \<Rightarrow> ParticleEmitter \<Rightarrow> ParticleEmitter" where
  "emitter_update deltaTime this =
     (let ps = filter (\<lambda>p. \<not> mp_life p \<le> 0) (map (emitter_step this deltaTime) (em_particles this));
          this1 = this\<lparr>em_particles := ps\<rparr>
      in if length ps = 0 then this1\<lparr>isActive := False\<rparr> else this1)"

text \<open>
  \<open>animate()\<close>, one round: the clock is read, the particles are updated, and the next round
  is requested (\<open>True\<close>) unless the emitter is not active.
\<close>

definition animate :: "ParticleEmitter \<Rightarrow> env \<Rightarrow> ParticleEmitter \<times> env \<times> bool" where
  "animate this e =
     (if \<not> isActive this then (this, e, False)
      else (let (now, e1) = performance_now e;
                deltaTime = now - em_lastUpdate this
            in (emitter_update deltaTime (this\<lparr>em_lastUpdate := now\<rparr>), e1, True)))"

fun createParticles :: "nat \<Rightarrow> ParticleEmitter \<Rightarrow> env \<Rightarrow> ParticleEmitter \<times> env" where
  "createParticles 0 this e = (this, e)"
| "createParticles (Suc n) this e =
     (case createParticle this e of (this', e') \<Rightarrow> createParticles n this' e')"

text \<open>
  \<open>emit(count)\<close> for an integer \<open>count\<close>: \<open>count\<close> particles are created, whatever the number
  already there; an emitter that was not active is activated and animated at once.
\<close>

definition emit :: "int \<Rightarrow> ParticleEmitter \<Rightarrow> env \<Rightarrow> ParticleEmitter \<times> env" where
  "emit count this e =
     (if count < 1 then (this, e)
      else (case createParticles (nat count) this e of
              (this1, e1) \<Rightarrow>
                if \<not> isActive this1
                then (case animate (this1\<lparr>isActive := True\<rparr>) e1 of (this2, e2, _) \<Rightarrow> (this2, e2))
                else (this1, e1)))"

section \<open>Theorems about ObjectPool\<close>

lemma creates_newD:
  "creates_new f \<Longrightarrow> f h = (r, h') \<Longrightarrow> length h \<le> length h' \<and> (\<forall>x. r = Inr x \<longrightarrow> length h \<le> x \<and> x < length h')"
  unfolding creates_new_def by (metis fst_conv snd_conv)

lemma keeps_objectsD:
  "keeps_objects r \<Longrightarrow> r x h = (e, h') \<Longrightarrow> length h \<le> length h'"
  unfolding keeps_objects_def by (metis snd_conv)

lemma pool_ok_acquire:
  assumes "pool_ok p h" and "acquire p h = (r, p', h')"
  shows "pool_ok p' h'"
proof (cases "p_pool p = []")
  case True
  show ?thesis
  proof (cases "\<not> p_autoExpand p \<or> int (totalSize p) \<ge> p_maxSize p")
    case True
    with \<open>p_pool p = []\<close> assms show ?thesis by (simp add: acquire_def)
  next
    case False
    obtain r0 h0 where f: "p_factory p h = (r0, h0)" by (cases "p_factory p h")
    have cn: "creates_new (p_factory p)" using assms(1) by (simp add: pool_ok_def)
    note d = creates_newD [OF cn f]
    show ?thesis
    proof (cases r0)
      case (Inl e)
      with False True f assms have "p' = p" "h' = h0" by (auto simp: acquire_def)
      with assms(1) d show ?thesis by (fastforce simp: pool_ok_def)
    next
      case (Inr x)
      with False \<open>p_pool p = []\<close> f assms
      have eq: "p' = p\<lparr>p_activeObjects := insert x (p_activeObjects p)\<rparr>" "h' = h0"
        by (auto simp: acquire_def)
      from d Inr have "length h \<le> x" "x < length h0" by auto
      with assms(1) eq \<open>p_pool p = []\<close> d show ?thesis
        by (fastforce simp: pool_ok_def)
    qed
  qed
next
  case False
  with assms have eq: "p' = p\<lparr>p_pool := butlast (p_pool p),
       p_activeObjects := insert (last (p_pool p)) (p_activeObjects p)\<rparr>" "h' = h"
    by (auto simp: acquire_def Let_def)
  from False obtain ys y where ys: "p_pool p = ys @ [y]" by (metis rev_exhaust)
  with assms(1) eq show ?thesis by (auto simp: pool_ok_def)
qed

lemma pool_ok_release:
  assumes "pool_ok p h" and "release x p h = (r, p', h')"
  shows "pool_ok p' h'"
proof (cases "x \<in> p_activeObjects p")
  case False
  with assms show ?thesis by (simp add: release_def)
next
  case True
  obtain e h0 where rs: "p_reset p x h = (e, h0)" by (cases "p_reset p x h")
  have "keeps_objects (p_reset p)" using assms(1) by (simp add: pool_ok_def)
  from keeps_objectsD [OF this rs] have le: "length h \<le> length h0" .
  show ?thesis
  proof (cases e)
    case None
    with True rs assms have eq: "p' = p\<lparr>p_activeObjects := p_activeObjects p - {x},
                      p_pool := p_pool p @ [x]\<rparr>" "h' = h0"
      by (auto simp: release_def)
    with assms(1) True le show ?thesis by (fastforce simp: pool_ok_def)
  next
    case (Some er)
    obtain m where "er = Error m" by (cases er)
    with Some True rs assms have "p' = p" "h' = h0" by (auto simp: release_def)
    with assms(1) le show ?thesis by (fastforce simp: pool_ok_def)
  qed
qed

lemma pool_ok_step: "pool_ok (fst s) (snd s) \<Longrightarrow> pool_ok (fst (pool_step c s)) (snd (pool_step c s))"
proof (cases s)
  case (Pair p h)
  assume ok: "pool_ok (fst s) (snd s)"
  show ?thesis
  proof (cases c)
    case Acquire
    obtain r p' h' where "acquire p h = (r, p', h')" by (cases "acquire p h") auto
    with pool_ok_acquire [OF _ this] ok Pair Acquire show ?thesis by simp
  next
    case (Release x)
    obtain r p' h' where "release x p h = (r, p', h')" by (cases "release x p h") auto
    with pool_ok_release [OF _ this] ok Pair Release show ?thesis by simp
  qed
qed

lemma pool_ok_run:
  "pool_ok (fst s) (snd s) \<Longrightarrow> t \<in> set (pool_run cs s) \<Longrightarrow> pool_ok (fst t) (snd t)"
proof (induction cs arbitrary: s)
  case Nil
  then show ?case by simp
next
  case (Cons c cs)
  then show ?case using pool_ok_step [of s c] by auto
qed

lemma init_loop_ok:
  assumes "creates_new f"
    and "initializePool_loop f n pool h = (Inr pool', h')"
    and "distinct pool" and "\<forall>x \<in> set pool. x < length h"
  shows "distinct pool' \<and> (\<forall>x \<in> set pool'. x < length h') \<and> length pool' = length pool + n"
  using assms(2-)
proof (induction n arbitrary: pool h)
  case 0
  then show ?case by simp
next
  case (Suc n)
  obtain r0 h0 where f: "f h = (r0, h0)" by (cases "f h")
  note d = creates_newD [OF assms(1) f]
  show ?case
  proof (cases r0)
    case (Inl e)
    with Suc.prems f show ?thesis by simp
  next
    case (Inr x)
    with Suc.prems f have rec: "initializePool_loop f n (pool @ [x]) h0 = (Inr pool', h')" by simp
    from d Inr have "length h \<le> x" "x < length h0" by auto
    with Suc.prems have "distinct (pool @ [x])" "\<forall>y \<in> set (pool @ [x]). y < length h0" by auto
    from Suc.IH [OF rec this] show ?thesis by simp
  qed
qed

lemma init_loop_length:
  "initializePool_loop f n pool h = (Inr pool', h') \<Longrightarrow> length pool' = length pool + n"
proof (induction n arbitrary: pool h)
  case 0
  then show ?case by simp
next
  case (Suc n)
  then show ?case by (auto split: prod.splits sum.splits)
qed

lemma ObjectPool_new_fields:
  assumes "ObjectPool_new config h0 = (Inr p0, h1)"
  shows "\<exists>f. factory config = Some f \<and> p_factory p0 = f \<and>
           p_reset p0 = (case reset config of None \<Rightarrow> (\<lambda>obj h. (None, h)) | Some r \<Rightarrow> r) \<and>
           p_initialSize p0 = max 0 (js_or (initialSize config) 100) \<and>
           p_maxSize p0 = max (p_initialSize p0) (js_or (maxSize config) 1000) \<and>
           p_autoExpand p0 = (autoExpand config \<noteq> Some False) \<and>
           p_activeObjects p0 = {} \<and>
           initializePool_loop f (nat (p_initialSize p0)) [] h0 = (Inr (p_pool p0), h1)"
  using assms
  by (auto simp: ObjectPool_new_def initializePool_def Let_def
           split: option.splits prod.splits sum.splits error.splits)


lemma pool_ok_exactly_one: "pool_ok p h \<Longrightarrow> exactly_one_place p"
  by (auto simp: pool_ok_def exactly_one_place_def totalSize_def availableSize_def activeSize_def
      card_Un_disjoint distinct_card)

lemma pool_ok_new:
  assumes "ObjectPool_new config h0 = (Inr p0, h1)" and "well_behaved config"
  shows "pool_ok p0 h1"
proof -
  from ObjectPool_new_fields [OF assms(1)] obtain f where
    f: "factory config = Some f" "p_factory p0 = f"
    and r: "p_reset p0 = (case reset config of None \<Rightarrow> (\<lambda>obj h. (None, h)) | Some r \<Rightarrow> r)"
    and a: "p_activeObjects p0 = {}"
    and l: "initializePool_loop f (nat (p_initialSize p0)) [] h0 = (Inr (p_pool p0), h1)"
    by blast
  from assms(2) f have cn: "creates_new f" by (simp add: well_behaved_def)
  from assms(2) r have ko: "keeps_objects (p_reset p0)"
    by (auto simp: well_behaved_def keeps_objects_def split: option.splits)
  from init_loop_ok [OF cn l] have "distinct (p_pool p0)" "\<forall>x \<in> set (p_pool p0). x < length h1"
    by auto
  with cn ko f a show ?thesis by (simp add: pool_ok_def)
qed

text \<open>
  Claim C1 (pool conservation). Start from any pool the constructor returns and let the
  caller make any sequence of \<open>acquire\<close> and \<open>release\<close> calls, whether they succeed or
  throw (the sequences that never release an un-acquired instance are among them). In
  the state after construction and after every call, \<open>activeSize + availableSize\<close>
  equals \<open>totalSize\<close>; and when the factory creates new objects, as its documentation
  says, every managed instance is in exactly one of the free list and the active set:
  the free list has no duplicate, shares nothing with the active set, and the number of
  managed instances is \<open>totalSize\<close>.
\<close>

theorem pool_conservation:
  assumes "ObjectPool_new config h0 = (Inr p0, h1)"
    and "s \<in> set ((p0, h1) # pool_run calls (p0, h1))"
  shows "activeSize (fst s) + availableSize (fst s) = totalSize (fst s) \<and>
         (well_behaved config \<longrightarrow> exactly_one_place (fst s))"
proof
  show "activeSize (fst s) + availableSize (fst s) = totalSize (fst s)"
    by (simp add: totalSize_def)
  show "well_behaved config \<longrightarrow> exactly_one_place (fst s)"
  proof
    assume "well_behaved config"
    from pool_ok_new [OF assms(1) this] have ok: "pool_ok (fst (p0, h1)) (snd (p0, h1))" by simp
    have "pool_ok (fst s) (snd s)"
    proof (cases "s = (p0, h1)")
      case True
      with ok show ?thesis by simp
    next
      case False
      with assms(2) have "s \<in> set (pool_run calls (p0, h1))" by simp
      from pool_ok_run [OF ok this] show ?thesis .
    qed
    then show "exactly_one_place (fst s)" by (rule pool_ok_exactly_one)
  qed
qed

theorem pool_conservation_witness:
  "ObjectPool_new (fixture_config 2 3 None) [] =
     (Inr (fixture_pool 2 3 True [0, 1] {}), [(0, 0), (0, 0)]) \<and>
   pool_run [Acquire, Release 1, Release 1] (fixture_pool 2 3 True [0, 1] {}, [(0, 0), (0, 0)]) =
     [(fixture_pool 2 3 True [0] {1}, [(0, 0), (0, 0)]),
      (fixture_pool 2 3 True [0, 1] {}, [(0, 0), (0, 0)]),
      (fixture_pool 2 3 True [0, 1] {}, [(0, 0), (0, 0)])] \<and>
   well_behaved (fixture_config 2 3 None) \<and>
   activeSize (fixture_pool 2 3 True [0] {1}) + availableSize (fixture_pool 2 3 True [0] {1}) =
     totalSize (fixture_pool 2 3 True [0] {1}) \<and>
   exactly_one_place (fixture_pool 2 3 True [0] {1})"
proof -
  let ?cfg = "fixture_config 2 3 None"
  let ?p0 = "fixture_pool 2 3 True [0, 1] {}"
  let ?p1 = "fixture_pool 2 3 True [0] {1}"
  let ?h = "[(0, 0), (0, 0)] :: (int \<times> int) heap"
  have new: "ObjectPool_new ?cfg [] = (Inr ?p0, ?h)"
    by (simp add: ObjectPool_new_def initializePool_def js_or_def counter_factory_def
        fixture_config_def fixture_pool_def eval_nat_numeral)
  have run: "pool_run [Acquire, Release 1, Release 1] (?p0, ?h) = [(?p1, ?h), (?p0, ?h), (?p0, ?h)]"
    by (simp add: acquire_def release_def fixture_pool_def)
  have wb: "well_behaved ?cfg"
    by (simp add: well_behaved_def creates_new_def counter_factory_def fixture_config_def)
  have mem: "(?p1, ?h) \<in> set ((?p0, ?h) # pool_run [Acquire, Release 1, Release 1] (?p0, ?h))"
    unfolding run by simp
  from pool_conservation [OF new mem] wb
  have c: "activeSize ?p1 + availableSize ?p1 = totalSize ?p1 \<and> exactly_one_place ?p1"
    by (simp only: fst_conv simp_thms)
  from new run wb c show ?thesis by blast
qed

lemma acquire_nonempty:
  "p_pool p \<noteq> [] \<Longrightarrow>
   acquire p h = (Inr (last (p_pool p)),
       p\<lparr>p_pool := butlast (p_pool p),
         p_activeObjects := insert (last (p_pool p)) (p_activeObjects p)\<rparr>, h)"
  by (simp add: acquire_def Let_def)

lemma acquire_expand:
  "p_pool p = [] \<Longrightarrow> p_autoExpand p \<Longrightarrow> int (totalSize p) < p_maxSize p \<Longrightarrow>
   acquire p h = (case p_factory p h of
        (Inl e, h') \<Rightarrow> (Inl e, p, h')
      | (Inr x, h') \<Rightarrow> (Inr x, p\<lparr>p_activeObjects := insert x (p_activeObjects p)\<rparr>, h'))"
  by (simp add: acquire_def)

lemma acquire_exhausted:
  "p_pool p = [] \<Longrightarrow> \<not> (p_autoExpand p \<and> int (totalSize p) < p_maxSize p) \<Longrightarrow>
   acquire p h = (Inl (Error ''Object pool depleted and cannot expand''), p, h)"
  by (auto simp: acquire_def)

lemma acquires_pop:
  "length (p_pool p) = n \<Longrightarrow>
   acquires n p h = (map Inr (rev (p_pool p)),
       p\<lparr>p_pool := [], p_activeObjects := p_activeObjects p \<union> set (p_pool p)\<rparr>, h)"
proof (induction n arbitrary: p)
  case 0
  then show ?case by simp
next
  case (Suc n)
  then obtain ys y where ys: "p_pool p = ys @ [y]" "length ys = n"
    by (metis length_Suc_conv_rev)
  let ?p' = "p\<lparr>p_pool := ys, p_activeObjects := insert y (p_activeObjects p)\<rparr>"
  have a: "acquire p h = (Inr y, ?p', h)" using ys by (simp add: acquire_nonempty)
  have "length (p_pool ?p') = n" using ys by simp
  from Suc.IH [OF this] a ys show ?case by simp
qed

lemma acquires_Suc_end:
  "acquires (Suc n) p h =
     (case acquires n p h of (rs, p', h') \<Rightarrow>
        (case acquire p' h' of (r, p'', h'') \<Rightarrow> (rs @ [r], p'', h'')))"
proof (induction n arbitrary: p h)
  case 0
  then show ?case by (simp split: prod.splits)
next
  case (Suc n)
  obtain r p1 h1 where a: "acquire p h = (r, p1, h1)" by (cases "acquire p h") auto
  obtain rs p2 h2 where b: "acquires n p1 h1 = (rs, p2, h2)"
    by (cases "acquires n p1 h1") auto
  obtain r' p3 h3 where c: "acquire p2 h2 = (r', p3, h3)" by (cases "acquire p2 h2") auto
  have d: "acquires (Suc n) p1 h1 = (rs @ [r'], p3, h3)"
    by (simp only: Suc.IH b c prod.case)
  have e: "acquires (Suc (Suc n)) p h = (r # rs @ [r'], p3, h3)"
    by (subst acquires.simps(2)) (simp only: a d prod.case)
  have f: "acquires (Suc n) p h = (r # rs, p2, h2)"
    by (subst acquires.simps(2)) (simp only: a b prod.case)
  show ?case by (simp only: e f c prod.case append_Cons)
qed

lemma fixed_pool_eleventh:
  assumes "initialSize config = Some 10" and "maxSize config = Some 10"
    and "autoExpand config = Some False"
    and "ObjectPool_new config h0 = (Inr p0, h1)"
  shows "length (p_pool p0) = 10 \<and>
         fst (acquires 11 p0 h1) =
           map Inr (rev (p_pool p0)) @ [Inl (Error ''Object pool depleted and cannot expand'')]"
proof -
  from ObjectPool_new_fields [OF assms(4)] obtain f where
    i: "p_initialSize p0 = max 0 (js_or (initialSize config) 100)"
    and ae: "p_autoExpand p0 = (autoExpand config \<noteq> Some False)"
    and l: "initializePool_loop f (nat (p_initialSize p0)) [] h0 = (Inr (p_pool p0), h1)"
    by blast
  from i assms(1) have "p_initialSize p0 = 10" by (simp add: js_or_def)
  with init_loop_length [OF l] have len: "length (p_pool p0) = 10" by simp
  from ae assms(3) have nae: "\<not> p_autoExpand p0" by simp
  let ?p = "p0\<lparr>p_pool := [], p_activeObjects := p_activeObjects p0 \<union> set (p_pool p0)\<rparr>"
  have ten: "acquires 10 p0 h1 = (map Inr (rev (p_pool p0)), ?p, h1)"
    using acquires_pop [OF len] .
  have last: "acquire ?p h1 = (Inl (Error ''Object pool depleted and cannot expand''), ?p, h1)"
    using nae by (simp add: acquire_exhausted)
  have "(11::nat) = Suc 10" by simp
  then have "acquires 11 p0 h1 =
      (map Inr (rev (p_pool p0)) @ [Inl (Error ''Object pool depleted and cannot expand'')], ?p, h1)"
    using ten last by (simp only: acquires_Suc_end prod.case)
  with len show ?thesis by simp
qed

text \<open>
  Claim C2 (acquire and exhaustion). \<open>acquire\<close> hands out the top of the free list when
  there is one; with an empty free list it calls the factory only when \<open>autoExpand\<close> is
  on and \<open>totalSize < maxSize\<close>, and otherwise throws "Object pool depleted and cannot
  expand" (the spec's PoolExhausted) and leaves the pool as it was. For a pool built with
  \<open>initialSize = 10\<close>, \<open>maxSize = 10\<close>, \<open>autoExpand = false\<close>, ten acquires return the ten
  pooled instances and the eleventh throws.
\<close>

theorem acquire_policy:
  "(p_pool p \<noteq> [] \<longrightarrow>
      acquire p h = (Inr (last (p_pool p)),
        p\<lparr>p_pool := butlast (p_pool p),
          p_activeObjects := insert (last (p_pool p)) (p_activeObjects p)\<rparr>, h)) \<and>
   (p_pool p = [] \<and> p_autoExpand p \<and> int (totalSize p) < p_maxSize p \<longrightarrow>
      acquire p h = (case p_factory p h of
          (Inl e, h') \<Rightarrow> (Inl e, p, h')
        | (Inr x, h') \<Rightarrow> (Inr x, p\<lparr>p_activeObjects := insert x (p_activeObjects p)\<rparr>, h'))) \<and>
   (p_pool p = [] \<and> \<not> (p_autoExpand p \<and> int (totalSize p) < p_maxSize p) \<longrightarrow>
      acquire p h = (Inl (Error ''Object pool depleted and cannot expand''), p, h)) \<and>
   (initialSize config = Some 10 \<and> maxSize config = Some 10 \<and> autoExpand config = Some False \<and>
    ObjectPool_new config h0 = (Inr p0, h1) \<longrightarrow>
      length (p_pool p0) = 10 \<and>
      fst (acquires 11 p0 h1) =
        map Inr (rev (p_pool p0)) @ [Inl (Error ''Object pool depleted and cannot expand'')])"
  using acquire_nonempty [of p h] acquire_expand [of p h] acquire_exhausted [of p h]
    fixed_pool_eleventh [of config h0 p0 h1]
  by blast


theorem acquire_policy_witness:
  "p_pool (fixture_pool 2 3 True [0, 1] {}) \<noteq> [] \<and>
   acquire (fixture_pool 2 3 True [0, 1] {}) [(0, 0), (0, 0)] =
     (Inr 1, fixture_pool 2 3 True [0] {1}, [(0, 0), (0, 0)]) \<and>
   p_pool (fixture_pool 2 3 True [] {0, 1}) = [] \<and>
   p_autoExpand (fixture_pool 2 3 True [] {0, 1}) \<and>
   int (totalSize (fixture_pool 2 3 True [] {0, 1})) < p_maxSize (fixture_pool 2 3 True [] {0, 1}) \<and>
   acquire (fixture_pool 2 3 True [] {0, 1}) [(0, 0), (0, 0)] =
     (Inr 2, fixture_pool 2 3 True [] {2, 0, 1}, [(0, 0), (0, 0), (0, 0)]) \<and>
   p_pool (fixture_pool 2 2 True [] {0, 1}) = [] \<and>
   \<not> (p_autoExpand (fixture_pool 2 2 True [] {0, 1}) \<and>
      int (totalSize (fixture_pool 2 2 True [] {0, 1})) < p_maxSize (fixture_pool 2 2 True [] {0, 1})) \<and>
   acquire (fixture_pool 2 2 True [] {0, 1}) [(0, 0), (0, 0)] =
     (Inl (Error ''Object pool depleted and cannot expand''), fixture_pool 2 2 True [] {0, 1},
      [(0, 0), (0, 0)]) \<and>
   initialSize (fixture_config 10 10 (Some False)) = Some 10 \<and>
   maxSize (fixture_config 10 10 (Some False)) = Some 10 \<and>
   autoExpand (fixture_config 10 10 (Some False)) = Some False \<and>
   ObjectPool_new (fixture_config 10 10 (Some False)) [] =
     (Inr (fixture_pool 10 10 False [0, 1, 2, 3, 4, 5, 6, 7, 8, 9] {}), replicate 10 (0, 0)) \<and>
   fst (acquires 11 (fixture_pool 10 10 False [0, 1, 2, 3, 4, 5, 6, 7, 8, 9] {})
          (replicate 10 (0, 0))) =
     [Inr 9, Inr 8, Inr 7, Inr 6, Inr 5, Inr 4, Inr 3, Inr 2, Inr 1, Inr 0,
      Inl (Error ''Object pool depleted and cannot expand'')]"
proof -
  let ?h = "[(0, 0), (0, 0)] :: (int \<times> int) heap"
  let ?a = "fixture_pool 2 3 True [0, 1] {}"
  let ?b = "fixture_pool 2 3 True [] {0, 1}"
  let ?c = "fixture_pool 2 2 True [] {0, 1}"
  let ?cfg = "fixture_config 10 10 (Some False)"
  let ?p10 = "fixture_pool 10 10 False [0, 1, 2, 3, 4, 5, 6, 7, 8, 9] {}"
  have a1: "p_pool ?a \<noteq> []" by (simp add: fixture_pool_def)
  have a2: "acquire ?a ?h = (Inr 1, fixture_pool 2 3 True [0] {1}, ?h)"
    using acquire_policy [of ?a ?h ?cfg "[]" ?p10 "replicate 10 (0, 0)", THEN conjunct1] a1
    by (simp add: fixture_pool_def)
  have b1: "p_pool ?b = []" "p_autoExpand ?b" "int (totalSize ?b) < p_maxSize ?b"
    by (simp_all add: fixture_pool_def totalSize_def availableSize_def activeSize_def)
  have b2: "acquire ?b ?h = (Inr 2, fixture_pool 2 3 True [] {2, 0, 1}, ?h @ [(0, 0)])"
    using acquire_policy [of ?b ?h ?cfg "[]" ?p10 "replicate 10 (0, 0)",
        THEN conjunct2, THEN conjunct1] b1
    by (simp add: fixture_pool_def counter_factory_def numeral_2_eq_2)
  have c1: "p_pool ?c = []" "\<not> (p_autoExpand ?c \<and> int (totalSize ?c) < p_maxSize ?c)"
    by (simp_all add: fixture_pool_def totalSize_def availableSize_def activeSize_def)
  have c2: "acquire ?c ?h = (Inl (Error ''Object pool depleted and cannot expand''), ?c, ?h)"
    using acquire_policy [of ?c ?h ?cfg "[]" ?p10 "replicate 10 (0, 0)",
        THEN conjunct2, THEN conjunct2, THEN conjunct1] c1 by blast
  have d1: "initialSize ?cfg = Some 10" "maxSize ?cfg = Some 10" "autoExpand ?cfg = Some False"
    by (simp_all add: fixture_config_def)
  have d2: "ObjectPool_new ?cfg [] = (Inr ?p10, replicate 10 (0, 0))"
    by (simp add: ObjectPool_new_def initializePool_def js_or_def counter_factory_def
        fixture_config_def fixture_pool_def eval_nat_numeral)
  have d3: "fst (acquires 11 ?p10 (replicate 10 (0, 0))) =
     [Inr 9, Inr 8, Inr 7, Inr 6, Inr 5, Inr 4, Inr 3, Inr 2, Inr 1, Inr 0,
      Inl (Error ''Object pool depleted and cannot expand'')]"
    using acquire_policy [of ?a ?h ?cfg "[]" ?p10 "replicate 10 (0, 0)",
        THEN conjunct2, THEN conjunct2, THEN conjunct2] d1 d2
    by (simp add: fixture_pool_def)
  from a1 a2 b1 b2 c1 c2 d1 d2 d3 show ?thesis by simp
qed

text \<open>
  Claim C10 (release is atomic when reset throws). If the instance is active and the
  configured reset function throws, \<open>release\<close> throws "Failed to release object: " followed
  by the message, and the pool object is unchanged: the instance is still active, the
  free list is the same, and the three sizes are the same.
\<close>

theorem release_atomic_on_reset_error:
  assumes "object \<in> p_activeObjects this"
    and "fst (p_reset this object h) = Some (Error m)"
  shows "fst (release object this h) = Some (Error (''Failed to release object: '' @ m)) \<and>
         fst (snd (release object this h)) = this \<and>
         object \<in> p_activeObjects (fst (snd (release object this h))) \<and>
         p_pool (fst (snd (release object this h))) = p_pool this \<and>
         availableSize (fst (snd (release object this h))) = availableSize this \<and>
         activeSize (fst (snd (release object this h))) = activeSize this \<and>
         totalSize (fst (snd (release object this h))) = totalSize this"
proof -
  obtain h' where "p_reset this object h = (Some (Error m), h')"
    using assms(2) by (cases "p_reset this object h") auto
  with assms(1) have "release object this h =
      (Some (Error (''Failed to release object: '' @ m)), this, h')"
    by (simp add: release_def)
  with assms(1) show ?thesis by simp
qed

theorem release_atomic_on_reset_error_witness:
  "(1::nat) \<in> p_activeObjects ((fixture_pool 2 2 True [0] {1})\<lparr>p_reset := failing_reset\<rparr>) \<and>
   fst (p_reset ((fixture_pool 2 2 True [0] {1})\<lparr>p_reset := failing_reset\<rparr>) 1 [(5, 6), (7, 8)]) =
     Some (Error ''boom'') \<and>
   release 1 ((fixture_pool 2 2 True [0] {1})\<lparr>p_reset := failing_reset\<rparr>) [(5, 6), (7, 8)] =
     (Some (Error ''Failed to release object: boom''),
      (fixture_pool 2 2 True [0] {1})\<lparr>p_reset := failing_reset\<rparr>, [(5, 6), (7, 8)]) \<and>
   activeSize (fst (snd (release 1 ((fixture_pool 2 2 True [0] {1})\<lparr>p_reset := failing_reset\<rparr>)
       [(5, 6), (7, 8)]))) = 1 \<and>
   availableSize (fst (snd (release 1 ((fixture_pool 2 2 True [0] {1})\<lparr>p_reset := failing_reset\<rparr>)
       [(5, 6), (7, 8)]))) = 1"
proof -
  let ?p = "(fixture_pool 2 2 True [0] {1})\<lparr>p_reset := failing_reset\<rparr>"
  let ?h = "[(5, 6), (7, 8)] :: (int \<times> int) heap"
  have m: "(1::nat) \<in> p_activeObjects ?p" by (simp add: fixture_pool_def)
  have t: "fst (p_reset ?p 1 ?h) = Some (Error ''boom'')"
    by (simp add: fixture_pool_def failing_reset_def)
  have r: "release 1 ?p ?h = (Some (Error ''Failed to release object: boom''), ?p, ?h)"
    by (simp add: release_def fixture_pool_def failing_reset_def)
  have s: "activeSize ?p = 1" "availableSize ?p = 1"
    by (simp_all add: fixture_pool_def activeSize_def availableSize_def)
  from release_atomic_on_reset_error [OF m t] m t r s show ?thesis by simp
qed

text \<open>
  Claim C3 (no stale state), refuted as stated: a pool configured without a reset function
  uses the identity as its reset. The instance is acquired, its fields are set to
  \<open>(100, 200)\<close>, it is released and acquired again: the same instance comes back and its
  fields are still \<open>(100, 200)\<close>, not the \<open>(0, 0)\<close> the factory gave it.
\<close>

theorem stale_state_counterexample:
  "ObjectPool_new (fixture_config 1 1 None) [] = (Inr (fixture_pool 1 1 True [0] {}), [(0, 0)]) \<and>
   acquire (fixture_pool 1 1 True [0] {}) [(0, 0)] =
     (Inr 0, fixture_pool 1 1 True [] {0}, [(0, 0)]) \<and>
   [(0, 0)] [0 := (100, 200)] = [(100, 200)] \<and>
   release 0 (fixture_pool 1 1 True [] {0}) [(100, 200)] =
     (None, fixture_pool 1 1 True [0] {}, [(100, 200)]) \<and>
   acquire (fixture_pool 1 1 True [0] {}) [(100, 200)] =
     (Inr 0, fixture_pool 1 1 True [] {0}, [(100, 200)]) \<and>
   [(100, 200)] ! 0 = (100, 200) \<and>
   [(100, 200)] ! 0 \<noteq> [(0, 0) :: int \<times> int] ! 0"
  by (simp add: ObjectPool_new_def initializePool_def js_or_def counter_factory_def
      fixture_config_def fixture_pool_def acquire_def release_def)

text \<open>
  Claim C3 as amended. After a successful \<open>release(x)\<close> the next \<open>acquire()\<close> returns \<open>x\<close>
  again, and the heap it returns is exactly the one the configured reset function left:
  the pool itself restores no field. With the default reset (the one the constructor
  installs when the configuration has none) the heap, and so every field of \<open>x\<close>, is what
  it was before the release.
\<close>

theorem reacquired_state_is_reset_result:
  assumes "release x p h = (None, p', h')"
  shows "fst (acquire p' h') = Inr x \<and>
         snd (snd (acquire p' h')) = snd (p_reset p x h) \<and>
         (p_reset p = (\<lambda>obj h. (None, h)) \<longrightarrow> snd (snd (acquire p' h')) = h) \<and>
         (\<forall>config h0 p0 h1. reset config = None \<and> ObjectPool_new config h0 = (Inr p0, h1) \<longrightarrow>
             p_reset p0 = (\<lambda>obj h. (None, h)))"
proof -
  have act: "x \<in> p_activeObjects p"
    using assms by (auto simp: release_def split: if_splits)
  obtain e h0 where rs: "p_reset p x h = (e, h0)" by (cases "p_reset p x h")
  with assms act have eq: "e = None" "h' = h0"
      "p' = p\<lparr>p_activeObjects := p_activeObjects p - {x}, p_pool := p_pool p @ [x]\<rparr>"
    by (auto simp: release_def split: option.splits error.splits)
  have acq: "acquire p' h' = (Inr x, p'\<lparr>p_pool := p_pool p,
      p_activeObjects := insert x (p_activeObjects p')\<rparr>, h')"
    using eq(3) by (simp add: acquire_def)
  have dflt: "\<forall>config h0 p0 h1. reset config = None \<and> ObjectPool_new config h0 = (Inr p0, h1) \<longrightarrow>
             p_reset p0 = (\<lambda>obj h. (None, h))"
    using ObjectPool_new_fields by fastforce
  from acq rs eq dflt show ?thesis by auto
qed

theorem reacquired_state_is_reset_result_witness:
  "release 0 (fixture_pool 1 1 True [] {0}) [(100, 200)] =
     (None, fixture_pool 1 1 True [0] {}, [(100, 200)]) \<and>
   fst (acquire (fixture_pool 1 1 True [0] {}) [(100, 200)]) = Inr 0 \<and>
   p_reset (fixture_pool 1 1 True [] {0}) = (\<lambda>obj h. (None, h)) \<and>
   snd (snd (acquire (fixture_pool 1 1 True [0] {}) [(100, 200)])) = [(100, 200)] \<and>
   reset (fixture_config 1 1 None) = None \<and>
   ObjectPool_new (fixture_config 1 1 None) [] = (Inr (fixture_pool 1 1 True [0] {}), [(0, 0)]) \<and>
   p_reset (fixture_pool 1 1 True [0] {}) = (\<lambda>obj h. (None, h))"
proof -
  have r: "release 0 (fixture_pool 1 1 True [] {0}) [(100, 200)] =
     (None, fixture_pool 1 1 True [0] {}, [(100, 200)])"
    by (simp add: release_def fixture_pool_def)
  have d: "p_reset (fixture_pool 1 1 True [] {0}) = (\<lambda>obj h. (None, h))"
    by (simp add: fixture_pool_def)
  have c: "reset (fixture_config 1 1 None) = None" by (simp add: fixture_config_def)
  have n: "ObjectPool_new (fixture_config 1 1 None) [] =
      (Inr (fixture_pool 1 1 True [0] {}), [(0, 0)])"
    by (simp add: ObjectPool_new_def initializePool_def js_or_def counter_factory_def
      fixture_config_def fixture_pool_def)
  from reacquired_state_is_reset_result [OF r] d c n
  have "fst (acquire (fixture_pool 1 1 True [0] {}) [(100, 200)]) = Inr 0"
    "snd (snd (acquire (fixture_pool 1 1 True [0] {}) [(100, 200)])) = [(100, 200)]"
    "p_reset (fixture_pool 1 1 True [0] {}) = (\<lambda>obj h. (None, h))"
    by blast+
  with r d c n show ?thesis by blast
qed


section \<open>Theorems about GameLoop\<close>

subsection \<open>Rounding\<close>

lemma round_even_error: "\<bar>of_int (round_even y) - y\<bar> \<le> 1 / 2"
  unfolding round_even_def Let_def by (auto simp: abs_if) linarith+

lemma round_even_near: "\<bar>y - of_int m\<bar> < 1 / 2 \<Longrightarrow> round_even y = m"
proof -
  assume a: "\<bar>y - of_int m\<bar> < 1 / 2"
  have "\<bar>of_int (round_even y) - y\<bar> \<le> 1 / 2" by (rule round_even_error)
  with a have "\<bar>(of_int (round_even y) :: real) - of_int m\<bar> < 1" by linarith
  then have "\<bar>round_even y - m\<bar> < 1" by (metis of_int_diff of_int_abs of_int_less_1_iff)
  then show ?thesis by linarith
qed

lemma round_even_tie: "y = of_int f + 1 / 2 \<Longrightarrow> round_even y = (if even f then f else f + 1)"
proof -
  assume y: "y = of_int f + 1 / 2"
  then have "\<lfloor>y\<rfloor> = f" by linarith
  with y show ?thesis by (simp add: round_even_def)
qed

lemma pow2_powr: "pow2 n = 2 powr of_int n"
proof (cases "0 \<le> n")
  case True
  then show ?thesis by (simp add: pow2_def powr_realpow [symmetric])
next
  case False
  have "(2::real) powr of_int n = 2 powr (- of_int (- n))" by simp
  also have "\<dots> = 1 / 2 powr of_int (- n)" by (rule powr_minus_divide)
  also have "(2::real) powr of_int (- n) = 2 ^ nat (- n)"
    using False by (simp add: powr_realpow [symmetric])
  finally show ?thesis using False by (simp add: pow2_def)
qed

lemma pow2_pos: "0 < pow2 n"
  by (simp add: pow2_powr)

lemma pow2_mono: "m \<le> n \<Longrightarrow> pow2 m \<le> pow2 n"
  by (simp add: pow2_powr)

lemma expo_eq:
  assumes "pow2 n \<le> \<bar>x\<bar>" and "\<bar>x\<bar> < pow2 (n + 1)"
  shows "expo x = n"
proof -
  have pos: "0 < \<bar>x\<bar>" using assms(1) pow2_pos [of n] by linarith
  have "of_int n \<le> log 2 \<bar>x\<bar>" using assms(1) pos by (simp add: le_log_iff pow2_powr)
  moreover have "log 2 \<bar>x\<bar> < of_int n + 1" using assms(2) pos by (simp add: log_less_iff pow2_powr)
  ultimately show ?thesis unfolding expo_def by linarith
qed

lemma rd_eval_near:
  assumes "- 1022 \<le> n" and "pow2 n \<le> \<bar>x\<bar>" and "\<bar>x\<bar> < pow2 (n + 1)"
    and "\<bar>x / pow2 (n - 52) - of_int m\<bar> < 1 / 2"
  shows "rd x = of_int m * pow2 (n - 52)"
proof -
  have e: "expo x = n" using assms(2,3) by (rule expo_eq)
  have nz: "x \<noteq> 0" using assms(2) pow2_pos [of n] by auto
  have u: "ulp x = pow2 (n - 52)" using e assms(1) by (simp add: ulp_def max_def)
  show ?thesis using nz u round_even_near [OF assms(4)] by (simp add: rd_def)
qed

lemma rd_eval_tie:
  assumes "- 1022 \<le> n" and "pow2 n \<le> \<bar>x\<bar>" and "\<bar>x\<bar> < pow2 (n + 1)"
    and "x / pow2 (n - 52) = of_int f + 1 / 2"
  shows "rd x = of_int (if even f then f else f + 1) * pow2 (n - 52)"
proof -
  have e: "expo x = n" using assms(2,3) by (rule expo_eq)
  have nz: "x \<noteq> 0" using assms(2) pow2_pos [of n] by auto
  have u: "ulp x = pow2 (n - 52)" using e assms(1) by (simp add: ulp_def max_def)
  show ?thesis using nz u round_even_tie [OF assms(4)] by (simp add: rd_def)
qed

lemma rd_error:
  assumes "\<bar>x\<bar> < 1024"
  shows "\<bar>rd x - x\<bar> \<le> pow2 (- 44)"
proof (cases "x = 0")
  case True
  then show ?thesis using pow2_pos [of "- 44"] by (simp add: rd_def)
next
  case False
  then have pos: "0 < \<bar>x\<bar>" by simp
  have "\<bar>x\<bar> < 2 powr 10" using assms by simp
  then have "log 2 \<bar>x\<bar> < 10" using pos by (simp add: log_less_iff)
  then have "expo x \<le> 9" unfolding expo_def by linarith
  then have "max (expo x) (- 1022) - 52 \<le> - 43" by simp
  then have u: "ulp x \<le> pow2 (- 43)" unfolding ulp_def by (rule pow2_mono)
  have up: "0 < ulp x" unfolding ulp_def by (rule pow2_pos)
  have "rd x - x = (of_int (round_even (x / ulp x)) - x / ulp x) * ulp x"
    using False up by (simp add: rd_def algebra_simps)
  then have "\<bar>rd x - x\<bar> = \<bar>of_int (round_even (x / ulp x)) - x / ulp x\<bar> * ulp x"
    using up by (simp add: abs_mult)
  also have "\<dots> \<le> (1 / 2) * ulp x"
    using round_even_error [of "x / ulp x"] up by (intro mult_right_mono) simp_all
  also have "\<dots> \<le> (1 / 2) * pow2 (- 43)" using u by simp
  also have "\<dots> = pow2 (- 44)" by (simp add: pow2_def)
  finally show ?thesis .
qed

lemma round_even_nonneg: "0 \<le> y \<Longrightarrow> 0 \<le> round_even y"
  unfolding round_even_def Let_def by (auto simp: zero_le_floor) 

lemma round_even_nonpos: "y \<le> 0 \<Longrightarrow> round_even y \<le> 0"
proof -
  assume y: "y \<le> 0"
  then have f: "\<lfloor>y\<rfloor> \<le> 0" by (simp add: floor_le_zero)
  show ?thesis
  proof (cases "y - of_int \<lfloor>y\<rfloor> < 1 / 2")
    case True
    with f show ?thesis by (simp add: round_even_def)
  next
    case False
    then have "of_int \<lfloor>y\<rfloor> < y" by linarith
    with y have "(of_int \<lfloor>y\<rfloor> :: real) < 0" by linarith
    then have "\<lfloor>y\<rfloor> + 1 \<le> 0" by linarith
    with f show ?thesis unfolding round_even_def Let_def by simp
  qed
qed

lemma rd_nonneg: "0 \<le> x \<Longrightarrow> 0 \<le> rd x"
  using round_even_nonneg [of "x / ulp x"] pow2_pos [of "max (expo x) (- 1022) - 52"]
  by (simp add: rd_def ulp_def)

lemma rd_nonpos: "x \<le> 0 \<Longrightarrow> rd x \<le> 0"
  using round_even_nonpos [of "x / ulp x"] pow2_pos [of "max (expo x) (- 1022) - 52"]
  by (simp add: rd_def ulp_def divide_le_0_iff mult_le_0_iff)

subsection \<open>The update loop and the frame\<close>

lemma FIXED_TIME_STEP_val: "FIXED_TIME_STEP = 4691249611844267 / 281474976710656"
  unfolding FIXED_TIME_STEP_def fl_div_def
  using rd_eval_near [of 4 "1000 / 60" 4691249611844267] by (simp add: pow2_def)

lemma update_arg_val: "fl_div FIXED_TIME_STEP 1000 = 4803839602528529 / 288230376151711744"
  unfolding FIXED_TIME_STEP_val fl_div_def
  using rd_eval_near [of "- 6" "4691249611844267 / 281474976710656 / 1000" 4803839602528529]
  by (simp add: pow2_def)

lemma update_args_append [simp]: "update_args (xs @ ys) = update_args xs @ update_args ys"
  by (induction xs rule: update_args.induct) simp_all

lemma update_args_replicate [simp]:
  "update_args (replicate n (UpdateCall a)) = replicate n a"
  by (induction n) simp_all

lemma update_loop_stop:
  "\<not> FIXED_TIME_STEP \<le> acc \<Longrightarrow> update_loop upd acc w tr = Some (None, acc, w, tr)"
  by (subst update_loop.simps) simp

lemma update_loop_step:
  "FIXED_TIME_STEP \<le> acc \<Longrightarrow> upd (fl_div FIXED_TIME_STEP 1000) w = (None, w') \<Longrightarrow>
   update_loop upd acc w tr =
     update_loop upd (fl_sub acc FIXED_TIME_STEP) w' (tr @ [UpdateCall (fl_div FIXED_TIME_STEP 1000)])"
  by (subst update_loop.simps) simp

lemma update_loop_throw:
  "FIXED_TIME_STEP \<le> acc \<Longrightarrow> upd (fl_div FIXED_TIME_STEP 1000) w = (Some e, w') \<Longrightarrow>
   update_loop upd acc w tr =
     Some (Some e, acc, w',
           tr @ [UpdateCall (fl_div FIXED_TIME_STEP 1000), ConsoleError ''Error in update loop:'' e])"
  by (subst update_loop.simps) simp

text \<open>What holds of every update loop that ends.\<close>

lemma update_loop_result:
  assumes "update_loop upd acc w tr = Some y"
  shows "\<exists>tr'. snd (snd (snd y)) = tr @ tr' \<and>
           (\<forall>a \<in> set (update_args tr'). a = fl_div FIXED_TIME_STEP 1000) \<and>
           RequestAnimationFrame \<notin> set tr' \<and>
           (\<forall>j<length (update_args tr'). FIXED_TIME_STEP \<le> acc_after j acc) \<and>
           (0 \<le> acc \<longrightarrow> 0 \<le> fst (snd y)) \<and>
           (fst y = None \<longrightarrow>
              tr' = replicate (length (update_args tr')) (UpdateCall (fl_div FIXED_TIME_STEP 1000)) \<and>
              fst (snd y) = acc_after (length (update_args tr')) acc \<and>
              fst (snd (snd y)) = world_after upd (length (update_args tr')) w \<and>
              \<not> FIXED_TIME_STEP \<le> fst (snd y)) \<and>
           (\<forall>e. fst y = Some e \<longrightarrow> ConsoleError ''Error in update loop:'' e \<in> set tr') \<and>
           (\<forall>e. fst y = Some e \<longrightarrow> (\<exists>w0. fst (upd (fl_div FIXED_TIME_STEP 1000) w0) = Some e))"
  using assms
proof (induction upd acc w tr y rule: update_loop.raw_induct)
  case (1 f upd acc w tr y)
  note IH = "1"(1) and body = "1"(2) and res = "1"(3)
  show ?case
  proof (cases "FIXED_TIME_STEP \<le> acc")
    case False
    with body have "y = (None, acc, w, tr)" by simp
    with False show ?thesis by simp
  next
    case True
    obtain x w1 where u: "upd (fl_div FIXED_TIME_STEP 1000) w = (x, w1)"
      by (cases "upd (fl_div FIXED_TIME_STEP 1000) w")
    show ?thesis
    proof (cases x)
      case (Some e)
      with True u body
      have y: "y = (Some e, acc, w1, tr @ [UpdateCall (fl_div FIXED_TIME_STEP 1000),
          ConsoleError ''Error in update loop:'' e])"
        by simp
      from u Some have "fst (upd (fl_div FIXED_TIME_STEP 1000) w) = Some e" by simp
      then have "\<exists>w0. fst (upd (fl_div FIXED_TIME_STEP 1000) w0) = Some e" ..
      with y True show ?thesis by auto
    next
      case None
      with True u body have rec: "f upd (fl_sub acc FIXED_TIME_STEP) w1
          (tr @ [UpdateCall (fl_div FIXED_TIME_STEP 1000)]) = Some y"
        by simp
      from None True u res have rec': "update_loop upd (fl_sub acc FIXED_TIME_STEP) w1
          (tr @ [UpdateCall (fl_div FIXED_TIME_STEP 1000)]) = Some y"
        by (simp add: update_loop_step)
      from IH [OF rec rec'] obtain tr' where ih:
        "snd (snd (snd y)) = (tr @ [UpdateCall (fl_div FIXED_TIME_STEP 1000)]) @ tr'"
        "\<forall>a \<in> set (update_args tr'). a = fl_div FIXED_TIME_STEP 1000"
        "RequestAnimationFrame \<notin> set tr'"
        "\<forall>j<length (update_args tr'). FIXED_TIME_STEP \<le> acc_after j (fl_sub acc FIXED_TIME_STEP)"
        "0 \<le> fl_sub acc FIXED_TIME_STEP \<longrightarrow> 0 \<le> fst (snd y)"
        "fst y = None \<longrightarrow>
              tr' = replicate (length (update_args tr')) (UpdateCall (fl_div FIXED_TIME_STEP 1000)) \<and>
              fst (snd y) = acc_after (length (update_args tr')) (fl_sub acc FIXED_TIME_STEP) \<and>
              fst (snd (snd y)) = world_after upd (length (update_args tr')) w1 \<and>
              \<not> FIXED_TIME_STEP \<le> fst (snd y)"
        "\<forall>e. fst y = Some e \<longrightarrow> ConsoleError ''Error in update loop:'' e \<in> set tr'"
        "\<forall>e. fst y = Some e \<longrightarrow> (\<exists>w0. fst (upd (fl_div FIXED_TIME_STEP 1000) w0) = Some e)"
        by (elim exE conjE) (rule that)
      let ?tr = "UpdateCall (fl_div FIXED_TIME_STEP 1000) # tr'"
      have a1: "snd (snd (snd y)) = tr @ ?tr" using ih(1) by simp
      have a2: "\<forall>a \<in> set (update_args ?tr). a = fl_div FIXED_TIME_STEP 1000"
        using ih(2) by simp
      have a3: "RequestAnimationFrame \<notin> set ?tr" using ih(3) by simp
      have b1: "\<forall>j<length (update_args ?tr). FIXED_TIME_STEP \<le> acc_after j acc"
      proof (intro allI impI)
        fix j assume "j < length (update_args ?tr)"
        then show "FIXED_TIME_STEP \<le> acc_after j acc"
          using ih(4) True by (cases j) simp_all
      qed
      have "0 \<le> fl_sub acc FIXED_TIME_STEP"
        using True by (simp add: fl_sub_def rd_nonneg)
      with ih(5) have b2: "0 \<le> acc \<longrightarrow> 0 \<le> fst (snd y)" by simp
      have a4: "fst y = None \<longrightarrow>
              ?tr = replicate (length (update_args ?tr)) (UpdateCall (fl_div FIXED_TIME_STEP 1000)) \<and>
              fst (snd y) = acc_after (length (update_args ?tr)) acc \<and>
              fst (snd (snd y)) = world_after upd (length (update_args ?tr)) w \<and>
              \<not> FIXED_TIME_STEP \<le> fst (snd y)"
        using ih(6) u by auto
      have a5: "\<forall>e. fst y = Some e \<longrightarrow> ConsoleError ''Error in update loop:'' e \<in> set ?tr"
        using ih(7) by simp
      show ?thesis by (rule exI [of _ ?tr]) (intro conjI a1 a2 a3 b1 b2 a4 a5 ih(8))
    qed
  qed
qed (rule assms)



text \<open>The update loop when its course is known.\<close>

lemma update_loop_run:
  assumes "\<forall>j<k. FIXED_TIME_STEP \<le> acc_after j a"
    and "\<not> FIXED_TIME_STEP \<le> acc_after k a"
    and "\<forall>j<k. fst (upd (fl_div FIXED_TIME_STEP 1000) (world_after upd j w)) = None"
  shows "update_loop upd a w tr =
           Some (None, acc_after k a, world_after upd k w,
                 tr @ replicate k (UpdateCall (fl_div FIXED_TIME_STEP 1000)))"
  using assms
proof (induction k arbitrary: a w tr)
  case 0
  then show ?case by (simp add: update_loop_stop)
next
  case (Suc k)
  from Suc.prems(1) have ge: "FIXED_TIME_STEP \<le> a" by auto
  from Suc.prems(3) have "fst (upd (fl_div FIXED_TIME_STEP 1000) w) = None" by auto
  then have u: "upd (fl_div FIXED_TIME_STEP 1000) w =
      (None, snd (upd (fl_div FIXED_TIME_STEP 1000) w))"
    by (metis prod.collapse)
  have p1: "\<forall>j<k. FIXED_TIME_STEP \<le> acc_after j (fl_sub a FIXED_TIME_STEP)"
    using Suc.prems(1) by auto
  have p2: "\<not> FIXED_TIME_STEP \<le> acc_after k (fl_sub a FIXED_TIME_STEP)"
    using Suc.prems(2) by simp
  have p3: "\<forall>j<k. fst (upd (fl_div FIXED_TIME_STEP 1000)
      (world_after upd j (snd (upd (fl_div FIXED_TIME_STEP 1000) w)))) = None"
    using Suc.prems(3) by auto
  show ?case
    unfolding update_loop_step [where upd = upd and w = w, OF ge u] Suc.IH [OF p1 p2 p3]
    by (simp add: replicate_app_Cons_same)
qed

lemma update_loop_throw_at:
  assumes "\<forall>j\<le>k. FIXED_TIME_STEP \<le> acc_after j a"
    and "\<forall>j<k. fst (upd (fl_div FIXED_TIME_STEP 1000) (world_after upd j w)) = None"
    and "fst (upd (fl_div FIXED_TIME_STEP 1000) (world_after upd k w)) = Some e"
  shows "update_loop upd a w tr =
           Some (Some e, acc_after k a,
                 snd (upd (fl_div FIXED_TIME_STEP 1000) (world_after upd k w)),
                 tr @ replicate (Suc k) (UpdateCall (fl_div FIXED_TIME_STEP 1000)) @
                   [ConsoleError ''Error in update loop:'' e])"
  using assms
proof (induction k arbitrary: a w tr)
  case 0
  from "0.prems"(1) have ge: "FIXED_TIME_STEP \<le> a" by simp
  from "0.prems"(3) have u: "upd (fl_div FIXED_TIME_STEP 1000) w =
      (Some e, snd (upd (fl_div FIXED_TIME_STEP 1000) w))"
    by (metis prod.collapse world_after.simps(1))
  show ?case unfolding update_loop_throw [where upd = upd and w = w, OF ge u] by simp
next
  case (Suc k)
  from Suc.prems(1) have ge: "FIXED_TIME_STEP \<le> a" by (metis acc_after.simps(1) le0)
  from Suc.prems(2) have "fst (upd (fl_div FIXED_TIME_STEP 1000) w) = None" by auto
  then have u: "upd (fl_div FIXED_TIME_STEP 1000) w =
      (None, snd (upd (fl_div FIXED_TIME_STEP 1000) w))"
    by (metis prod.collapse)
  have p1: "\<forall>j\<le>k. FIXED_TIME_STEP \<le> acc_after j (fl_sub a FIXED_TIME_STEP)"
  proof (intro allI impI)
    fix j assume "j \<le> k"
    then have "Suc j \<le> Suc k" by simp
    with Suc.prems(1) have "FIXED_TIME_STEP \<le> acc_after (Suc j) a" by blast
    then show "FIXED_TIME_STEP \<le> acc_after j (fl_sub a FIXED_TIME_STEP)" by simp
  qed
  have p2: "\<forall>j<k. fst (upd (fl_div FIXED_TIME_STEP 1000)
      (world_after upd j (snd (upd (fl_div FIXED_TIME_STEP 1000) w)))) = None"
    using Suc.prems(2) by auto
  have p3: "fst (upd (fl_div FIXED_TIME_STEP 1000)
      (world_after upd k (snd (upd (fl_div FIXED_TIME_STEP 1000) w)))) = Some e"
    using Suc.prems(3) by simp
  show ?case
    unfolding update_loop_step [where upd = upd and w = w, OF ge u] Suc.IH [OF p1 p2 p3]
    by (simp add: replicate_app_Cons_same)
qed

text \<open>
  Rounding moves a value below 1024 by at most \<open>pow2 (- 44)\<close>, so the accumulator loses
  between \<open>FIXED_TIME_STEP - pow2 (- 44)\<close> and \<open>FIXED_TIME_STEP + pow2 (- 44)\<close> with every
  update call.
\<close>

lemma fl_sub_step:
  assumes "FIXED_TIME_STEP \<le> acc" and "acc < 1024"
  shows "fl_sub acc FIXED_TIME_STEP \<le> acc - FIXED_TIME_STEP + pow2 (- 44)"
    and "acc - FIXED_TIME_STEP - pow2 (- 44) \<le> fl_sub acc FIXED_TIME_STEP"
    and "0 \<le> fl_sub acc FIXED_TIME_STEP"
    and "fl_sub acc FIXED_TIME_STEP < 1024"
proof -
  have f: "16 < FIXED_TIME_STEP" by (simp add: FIXED_TIME_STEP_val)
  have e: "pow2 (- 44) < 1" by (simp add: pow2_def)
  from assms f have r: "\<bar>acc - FIXED_TIME_STEP\<bar> < 1024" by simp
  from rd_error [OF r] have d: "\<bar>fl_sub acc FIXED_TIME_STEP - (acc - FIXED_TIME_STEP)\<bar> \<le> pow2 (- 44)"
    by (simp add: fl_sub_def)
  from d show "fl_sub acc FIXED_TIME_STEP \<le> acc - FIXED_TIME_STEP + pow2 (- 44)" by linarith
  from d show "acc - FIXED_TIME_STEP - pow2 (- 44) \<le> fl_sub acc FIXED_TIME_STEP" by linarith
  from assms(1) show "0 \<le> fl_sub acc FIXED_TIME_STEP" by (simp add: fl_sub_def rd_nonneg)
  from d assms(2) f e show "fl_sub acc FIXED_TIME_STEP < 1024" by linarith
qed

text \<open>The update loop ends, after at most \<open>n\<close> update calls.\<close>

lemma update_loop_ends:
  assumes "acc < real (Suc n) * (FIXED_TIME_STEP - pow2 (- 44))" and "acc < 1024"
  shows "\<exists>y tr'. update_loop upd acc w tr = Some y \<and> snd (snd (snd y)) = tr @ tr' \<and>
           length (update_args tr') \<le> n"
  using assms
proof (induction n arbitrary: acc w tr)
  case 0
  have "0 < pow2 (- 44)" by (rule pow2_pos)
  with "0.prems"(1) have "\<not> FIXED_TIME_STEP \<le> acc" by simp
  then show ?case by (simp add: update_loop_stop)
next
  case (Suc n)
  show ?case
  proof (cases "FIXED_TIME_STEP \<le> acc")
    case False
    then show ?thesis by (simp add: update_loop_stop)
  next
    case True
    obtain x w1 where u: "upd (fl_div FIXED_TIME_STEP 1000) w = (x, w1)"
      by (cases "upd (fl_div FIXED_TIME_STEP 1000) w")
    show ?thesis
    proof (cases x)
      case (Some e)
      with u have u': "upd (fl_div FIXED_TIME_STEP 1000) w = (Some e, w1)" by simp
      show ?thesis unfolding update_loop_throw [where upd = upd and w = w, OF True u'] by simp
    next
      case None
      with u have u': "upd (fl_div FIXED_TIME_STEP 1000) w = (None, w1)" by simp
      note s = fl_sub_step [OF True Suc.prems(2)]
      have "real (Suc (Suc n)) * (FIXED_TIME_STEP - pow2 (- 44)) =
          real (Suc n) * (FIXED_TIME_STEP - pow2 (- 44)) + (FIXED_TIME_STEP - pow2 (- 44))"
        by (simp add: algebra_simps)
      with Suc.prems(1) s(1)
      have b: "fl_sub acc FIXED_TIME_STEP < real (Suc n) * (FIXED_TIME_STEP - pow2 (- 44))"
        by linarith
      from Suc.IH [OF b s(4), of w1 "tr @ [UpdateCall (fl_div FIXED_TIME_STEP 1000)]"]
      obtain y tr' where y:
        "update_loop upd (fl_sub acc FIXED_TIME_STEP) w1
           (tr @ [UpdateCall (fl_div FIXED_TIME_STEP 1000)]) = Some y"
        "snd (snd (snd y)) = (tr @ [UpdateCall (fl_div FIXED_TIME_STEP 1000)]) @ tr'"
        "length (update_args tr') \<le> n"
        by (elim exE conjE) (rule that)
      have "update_loop upd acc w tr = Some y"
        unfolding update_loop_step [where upd = upd and w = w, OF True u'] by (rule y(1))
      moreover have "snd (snd (snd y)) = tr @ (UpdateCall (fl_div FIXED_TIME_STEP 1000) # tr')"
        using y(2) by simp
      moreover have "length (update_args (UpdateCall (fl_div FIXED_TIME_STEP 1000) # tr')) \<le> Suc n"
        using y(3) by simp
      ultimately show ?thesis by blast
    qed
  qed
qed

text \<open>As long as \<open>n - k\<close> steps with their rounding fit in, the loop goes on.\<close>

lemma acc_after_lower:
  assumes "real n * (FIXED_TIME_STEP + pow2 (- 44)) \<le> acc" and "acc < 1024" and "k \<le> n"
  shows "real (n - k) * (FIXED_TIME_STEP + pow2 (- 44)) \<le> acc_after k acc"
  using assms
proof (induction k arbitrary: n acc)
  case 0
  then show ?case by simp
next
  case (Suc k)
  from Suc.prems(3) obtain m where n: "n = Suc m" by (cases n) simp_all
  have p: "0 < pow2 (- 44)" by (rule pow2_pos)
  have f: "0 < FIXED_TIME_STEP" by (simp add: FIXED_TIME_STEP_val)
  have "0 \<le> real m * (FIXED_TIME_STEP + pow2 (- 44))" using p f by simp
  moreover have "real n * (FIXED_TIME_STEP + pow2 (- 44)) =
      real m * (FIXED_TIME_STEP + pow2 (- 44)) + (FIXED_TIME_STEP + pow2 (- 44))"
    unfolding n by (simp add: algebra_simps)
  ultimately have ge: "FIXED_TIME_STEP \<le> acc"
    and low: "real m * (FIXED_TIME_STEP + pow2 (- 44)) \<le> acc - FIXED_TIME_STEP - pow2 (- 44)"
    using Suc.prems(1) p by linarith+
  note s = fl_sub_step [OF ge Suc.prems(2)]
  from low s(2) have a: "real m * (FIXED_TIME_STEP + pow2 (- 44)) \<le> fl_sub acc FIXED_TIME_STEP"
    by linarith
  from Suc.prems(3) n have k: "k \<le> m" by simp
  from Suc.IH [OF a s(4) k] show ?case unfolding n by simp
qed


text \<open>The two bounds in terms of \<open>floor(accumulator / FIXED_TIME_STEP)\<close>.\<close>

lemma floor_step_bounds:
  assumes "0 \<le> a" and "a < 1024"
  shows "a < real (Suc (nat \<lfloor>a / FIXED_TIME_STEP\<rfloor> + 1)) * (FIXED_TIME_STEP - pow2 (- 44))"
    and "real (nat \<lfloor>a / FIXED_TIME_STEP\<rfloor> - 1) * (FIXED_TIME_STEP + pow2 (- 44)) \<le> a"
proof -
  let ?m = "nat \<lfloor>a / FIXED_TIME_STEP\<rfloor>"
  have f: "16 < FIXED_TIME_STEP" "FIXED_TIME_STEP < 17" by (simp_all add: FIXED_TIME_STEP_val)
  have e: "0 < pow2 (- 44)" "pow2 (- 44) < 1 / 1024" by (simp_all add: pow2_def)
  from assms(1) f have q: "0 \<le> a / FIXED_TIME_STEP" by simp
  then have m: "real ?m = of_int \<lfloor>a / FIXED_TIME_STEP\<rfloor>" by simp
  have "real ?m \<le> a / FIXED_TIME_STEP" unfolding m by (rule of_int_floor_le)
  then have lo: "real ?m * FIXED_TIME_STEP \<le> a" using f by (simp add: pos_le_divide_eq)
  have "a / FIXED_TIME_STEP < real ?m + 1" unfolding m by linarith
  then have hi: "a < (real ?m + 1) * FIXED_TIME_STEP" using f by (simp add: pos_divide_less_eq)
  have "real ?m * 16 \<le> real ?m * FIXED_TIME_STEP" using f by (intro mult_left_mono) simp_all
  with lo assms(2) have m64: "real ?m \<le> 64" by linarith
  have me: "real ?m * pow2 (- 44) \<le> 64 * pow2 (- 44)"
    using m64 e by (intro mult_right_mono) simp_all
  have "real (Suc (?m + 1)) * (FIXED_TIME_STEP - pow2 (- 44)) =
      (real ?m + 1) * FIXED_TIME_STEP + FIXED_TIME_STEP - real ?m * pow2 (- 44) - 2 * pow2 (- 44)"
    by (simp add: algebra_simps)
  with hi me f e show "a < real (Suc (?m + 1)) * (FIXED_TIME_STEP - pow2 (- 44))" by linarith
  show "real (?m - 1) * (FIXED_TIME_STEP + pow2 (- 44)) \<le> a"
  proof (cases "?m = 0")
    case True
    with assms(1) show ?thesis by simp
  next
    case False
    then obtain k where k: "?m = Suc k" by (metis not0_implies_Suc)
    have "real (?m - 1) = real ?m - 1" unfolding k by simp
    then have "real (?m - 1) * (FIXED_TIME_STEP + pow2 (- 44)) =
        real ?m * FIXED_TIME_STEP - FIXED_TIME_STEP + real ?m * pow2 (- 44) - pow2 (- 44)"
      by (simp add: algebra_simps)
    with lo me f e show ?thesis by linarith
  qed
qed

text \<open>What one frame of a running loop does, in terms of its update loop.\<close>

lemma loop_running:
  assumes "running this"
    and "update_loop (update this) (frame_accumulator t this) w [] = Some (r, acc, w1, tr)"
  shows "\<exists>res. loop t this w = Some res \<and>
           frame_error res =
             (case r of Some e \<Rightarrow> Some e
              | None \<Rightarrow> fst (render this (fl_div acc FIXED_TIME_STEP) w1)) \<and>
           lastTime (frame_loop res) = t \<and>
           accumulator (frame_loop res) = acc \<and>
           (running (frame_loop res) \<longleftrightarrow> frame_error res = None) \<and>
           update_args (frame_trace res) = update_args tr \<and>
           frame_trace res =
             (case r of Some e \<Rightarrow> tr
              | None \<Rightarrow> tr @ [ClearRect, RenderCall (fl_div acc FIXED_TIME_STEP),
                  (case fst (render this (fl_div acc FIXED_TIME_STEP) w1) of
                     Some e \<Rightarrow> ConsoleError ''Error in render loop:'' e
                   | None \<Rightarrow> RequestAnimationFrame)]) \<and>
           frame_world res =
             (case r of Some e \<Rightarrow> w1
              | None \<Rightarrow> snd (render this (fl_div acc FIXED_TIME_STEP) w1)) \<and>
           update (frame_loop res) = update this \<and>
           render (frame_loop res) = render this"
  using assms
  by (auto simp: loop_def Let_def frame_accumulator_def frame_error_def frame_loop_def
      frame_trace_def frame_world_def stop_def split: option.splits prod.splits)



lemma update_loop_never_throws:
  assumes "never_throws upd" and "update_loop upd acc w tr = Some y"
  shows "fst y = None"
proof (cases "fst y")
  case None
  then show ?thesis .
next
  case (Some e)
  with update_loop_result [OF assms(2)]
  obtain w0 where "fst (upd (fl_div FIXED_TIME_STEP 1000) w0) = Some e" by blast
  with assms(1) show ?thesis by (simp add: never_throws_def)
qed

lemma loop_None:
  assumes "running this"
    and "update_loop (update this) (frame_accumulator t this) w [] = None"
  shows "loop t this w = None"
  using assms by (simp add: loop_def Let_def frame_accumulator_def)

text \<open>A frame that returns, seen from its result.\<close>

lemma loop_returned:
  assumes "running this" and "loop t this w = Some res"
  shows "\<exists>r acc w1 tr.
           update_loop (update this) (frame_accumulator t this) w [] = Some (r, acc, w1, tr) \<and>
           frame_error res =
             (case r of Some e \<Rightarrow> Some e
              | None \<Rightarrow> fst (render this (fl_div acc FIXED_TIME_STEP) w1)) \<and>
           lastTime (frame_loop res) = t \<and>
           accumulator (frame_loop res) = acc \<and>
           (running (frame_loop res) \<longleftrightarrow> frame_error res = None) \<and>
           update_args (frame_trace res) = update_args tr \<and>
           frame_trace res =
             (case r of Some e \<Rightarrow> tr
              | None \<Rightarrow> tr @ [ClearRect, RenderCall (fl_div acc FIXED_TIME_STEP),
                  (case fst (render this (fl_div acc FIXED_TIME_STEP) w1) of
                     Some e \<Rightarrow> ConsoleError ''Error in render loop:'' e
                   | None \<Rightarrow> RequestAnimationFrame)])"
proof (cases "update_loop (update this) (frame_accumulator t this) w []")
  case None
  from loop_None [OF assms(1) None] assms(2) show ?thesis by simp
next
  case (Some y)
  obtain r acc w1 tr where y: "y = (r, acc, w1, tr)" by (cases y)
  from Some y have u: "update_loop (update this) (frame_accumulator t this) w [] =
      Some (r, acc, w1, tr)" by simp
  from loop_running [OF assms(1) u] assms(2) u show ?thesis by auto
qed

lemma loop_returns:
  assumes "running this"
    and "update_loop (update this) (frame_accumulator t this) w [] = Some y"
  shows "\<exists>res. loop t this w = Some res"
proof -
  obtain r acc w1 tr where y: "y = (r, acc, w1, tr)" by (cases y)
  from loop_running [OF assms(1) assms(2) [unfolded y]] show ?thesis by blast
qed

lemma step_bounds: "16 < FIXED_TIME_STEP" "FIXED_TIME_STEP < 17"
  by (simp_all add: FIXED_TIME_STEP_val)

lemma eta_bounds: "0 < pow2 (- 44)" "pow2 (- 44) < 1 / 1024"
  by (simp_all add: pow2_def)

lemma max_frame_steps: "\<lfloor>MAX_FRAME_TIME / FIXED_TIME_STEP\<rfloor> = 14"
proof -
  have "14 \<le> MAX_FRAME_TIME / FIXED_TIME_STEP" "MAX_FRAME_TIME / FIXED_TIME_STEP < 15"
    by (simp_all add: MAX_FRAME_TIME_def FIXED_TIME_STEP_val)
  then show ?thesis by linarith
qed

text \<open>The accumulator of a frame that starts below one step.\<close>

lemma frame_accumulator_bound:
  assumes "accumulator this < FIXED_TIME_STEP"
  shows "frame_accumulator t this < real (Suc 16) * (FIXED_TIME_STEP - pow2 (- 44))"
    and "frame_accumulator t this < 1024"
proof -
  let ?x = "accumulator this + min (fl_sub t (lastTime this)) MAX_FRAME_TIME"
  have x: "?x < 267" using assms step_bounds by (simp add: MAX_FRAME_TIME_def min_def)
  have a: "frame_accumulator t this < 268"
  proof (cases "0 \<le> ?x")
    case True
    with x have "\<bar>?x\<bar> < 1024" by simp
    from rd_error [OF this] x eta_bounds show ?thesis
      by (simp add: frame_accumulator_def fl_add_def)
  next
    case False
    then have "rd ?x \<le> 0" by (intro rd_nonpos) simp
    then show ?thesis by (simp add: frame_accumulator_def fl_add_def)
  qed
  have "real (Suc 16) * (FIXED_TIME_STEP - pow2 (- 44)) = 17 * FIXED_TIME_STEP - 17 * pow2 (- 44)"
    by (simp add: algebra_simps)
  with a step_bounds eta_bounds
  show "frame_accumulator t this < real (Suc 16) * (FIXED_TIME_STEP - pow2 (- 44))" by linarith
  from a show "frame_accumulator t this < 1024" by simp
qed

lemma frame_accumulator_nonneg:
  assumes "0 \<le> accumulator this" and "lastTime this \<le> t"
  shows "0 \<le> frame_accumulator t this"
proof -
  from assms(2) have "0 \<le> fl_sub t (lastTime this)" by (simp add: fl_sub_def rd_nonneg)
  then have "0 \<le> min (fl_sub t (lastTime this)) MAX_FRAME_TIME"
    by (simp add: MAX_FRAME_TIME_def)
  with assms(1) show ?thesis by (simp add: frame_accumulator_def fl_add_def rd_nonneg)
qed


text \<open>The frame in which update call number \<open>k + 1\<close> throws.\<close>

lemma frame_update_throws:
  assumes "running this"
    and h1: "\<forall>j\<le>k. FIXED_TIME_STEP \<le> acc_after j (frame_accumulator t this)"
    and h2: "\<forall>j<k. fst (update this (fl_div FIXED_TIME_STEP 1000)
                         (world_after (update this) j w)) = None"
    and h3: "fst (update this (fl_div FIXED_TIME_STEP 1000)
                    (world_after (update this) k w)) = Some e"
  shows "\<exists>r. loop t this w = Some r \<and> frame_error r = Some e \<and>
              length (update_args (frame_trace r)) = Suc k \<and>
              \<not> running (frame_loop r) \<and>
              ConsoleError ''Error in update loop:'' e \<in> set (frame_trace r) \<and>
              ClearRect \<notin> set (frame_trace r) \<and>
              RequestAnimationFrame \<notin> set (frame_trace r)"
proof -
  let ?c = "fl_div FIXED_TIME_STEP 1000"
  note u = update_loop_throw_at [OF h1 h2 h3, of "[]"]
  from loop_running [OF assms(1) u] obtain r where
    lr: "loop t this w = Some r"
    and fe: "frame_error r = Some e"
    and run: "running (frame_loop r) \<longleftrightarrow> frame_error r = None"
    and ft: "frame_trace r = [] @ replicate (Suc k) (UpdateCall ?c) @
        [ConsoleError ''Error in update loop:'' e]"
    by (elim exE conjE) (simp (no_asm_use) only: option.case, rule that)
  show ?thesis
  proof (intro exI [of _ r] conjI)
    show "loop t this w = Some r" by (rule lr)
    show "frame_error r = Some e" by (rule fe)
    show "length (update_args (frame_trace r)) = Suc k" unfolding ft by simp
    show "\<not> running (frame_loop r)" using run fe by simp
    show "ConsoleError ''Error in update loop:'' e \<in> set (frame_trace r)" unfolding ft by simp
    show "ClearRect \<notin> set (frame_trace r)" unfolding ft by simp
    show "RequestAnimationFrame \<notin> set (frame_trace r)" unfolding ft by simp
  qed
qed

text \<open>The frame whose update loop ends after \<open>k\<close> calls that return.\<close>

lemma frame_run:
  assumes "running this"
    and h1: "\<forall>j<k. FIXED_TIME_STEP \<le> acc_after j (frame_accumulator t this)"
    and h2: "\<not> FIXED_TIME_STEP \<le> acc_after k (frame_accumulator t this)"
    and h3: "\<forall>j<k. fst (update this (fl_div FIXED_TIME_STEP 1000)
                         (world_after (update this) j w)) = None"
  shows "\<exists>r. loop t this w = Some r \<and>
              frame_error r =
                fst (render this (fl_div (acc_after k (frame_accumulator t this)) FIXED_TIME_STEP)
                       (world_after (update this) k w)) \<and>
              update_args (frame_trace r) = replicate k (fl_div FIXED_TIME_STEP 1000) \<and>
              frame_trace r =
                replicate k (UpdateCall (fl_div FIXED_TIME_STEP 1000)) @
                [ClearRect,
                 RenderCall (fl_div (acc_after k (frame_accumulator t this)) FIXED_TIME_STEP),
                 (case fst (render this
                              (fl_div (acc_after k (frame_accumulator t this)) FIXED_TIME_STEP)
                              (world_after (update this) k w)) of
                    Some e \<Rightarrow> ConsoleError ''Error in render loop:'' e
                  | None \<Rightarrow> RequestAnimationFrame)] \<and>
              (running (frame_loop r) \<longleftrightarrow> frame_error r = None) \<and>
              accumulator (frame_loop r) = acc_after k (frame_accumulator t this) \<and>
              lastTime (frame_loop r) = t \<and>
              update (frame_loop r) = update this \<and>
              render (frame_loop r) = render this \<and>
              frame_world r =
                snd (render this (fl_div (acc_after k (frame_accumulator t this)) FIXED_TIME_STEP)
                       (world_after (update this) k w))"
proof -
  let ?al = "fl_div (acc_after k (frame_accumulator t this)) FIXED_TIME_STEP"
  let ?wk = "world_after (update this) k w"
  note u = update_loop_run [OF h1 h2 h3, of "[]"]
  from loop_running [OF assms(1) u] obtain r where
    f: "loop t this w = Some r"
      "frame_error r = fst (render this ?al ?wk)"
      "lastTime (frame_loop r) = t"
      "accumulator (frame_loop r) = acc_after k (frame_accumulator t this)"
      "running (frame_loop r) \<longleftrightarrow> frame_error r = None"
      "update_args (frame_trace r) = replicate k (fl_div FIXED_TIME_STEP 1000)"
      "frame_trace r =
         replicate k (UpdateCall (fl_div FIXED_TIME_STEP 1000)) @
         [ClearRect, RenderCall ?al,
          (case fst (render this ?al ?wk) of
             Some e \<Rightarrow> ConsoleError ''Error in render loop:'' e
           | None \<Rightarrow> RequestAnimationFrame)]"
      "frame_world r = snd (render this ?al ?wk)"
      "update (frame_loop r) = update this"
      "render (frame_loop r) = render this"
    by (elim exE conjE)
       (simp (no_asm_use) only: option.case append_Nil update_args_replicate, rule that)
  show ?thesis by (rule exI [of _ r]) (intro conjI f)
qed


subsection \<open>Three update loops, step by step\<close>

text \<open>
  The accumulator values 50, 250 and 266.6666666666667, reduced by the step until they are
  below it: every rounded difference, and its comparison with the step.
\<close>

lemma sub_50_0: "fl_sub (50) FIXED_TIME_STEP = 2345624805922133 / 70368744177664"
proof -
  have x: "50 - 4691249611844267 / 281474976710656 = (9382499223688533 / 281474976710656 :: real)" by simp
  have "rd (9382499223688533 / 281474976710656) = 2345624805922133 / 70368744177664"
    using rd_eval_tie [of 5 "9382499223688533 / 281474976710656" 4691249611844266] by (simp add: pow2_def)
  then show ?thesis unfolding fl_sub_def FIXED_TIME_STEP_val x .
qed

lemma ge_50_0: "FIXED_TIME_STEP \<le> 50"
  by (simp add: FIXED_TIME_STEP_val)

lemma sub_50_1: "fl_sub (2345624805922133 / 70368744177664) FIXED_TIME_STEP = 4691249611844265 / 281474976710656"
proof -
  have x: "2345624805922133 / 70368744177664 - 4691249611844267 / 281474976710656 = (4691249611844265 / 281474976710656 :: real)" by simp
  have "rd (4691249611844265 / 281474976710656) = 4691249611844265 / 281474976710656"
    using rd_eval_near [of 4 "4691249611844265 / 281474976710656" 4691249611844265] by (simp add: pow2_def)
  then show ?thesis unfolding fl_sub_def FIXED_TIME_STEP_val x .
qed

lemma ge_50_1: "FIXED_TIME_STEP \<le> 2345624805922133 / 70368744177664"
  by (simp add: FIXED_TIME_STEP_val)

lemma lt_50: "\<not> FIXED_TIME_STEP \<le> 4691249611844265 / 281474976710656"
  by (simp add: FIXED_TIME_STEP_val)

lemma course_50:
  "\<forall>j<2. FIXED_TIME_STEP \<le> acc_after j (50)"
  "\<not> FIXED_TIME_STEP \<le> acc_after 2 (50)"
  "acc_after 2 (50) = 4691249611844265 / 281474976710656"
  by (simp_all only: eval_nat_numeral BitM.simps All_less_Suc not_less_zero acc_after.simps simp_thms
      sub_50_0 sub_50_1 ge_50_0 ge_50_1 lt_50)

lemma sub_250_0: "fl_sub (250) FIXED_TIME_STEP = 8209686820727467 / 35184372088832"
proof -
  have x: "250 - 4691249611844267 / 281474976710656 = (65677494565819733 / 281474976710656 :: real)" by simp
  have "rd (65677494565819733 / 281474976710656) = 8209686820727467 / 35184372088832"
    using rd_eval_near [of 7 "65677494565819733 / 281474976710656" 8209686820727467] by (simp add: pow2_def)
  then show ?thesis unfolding fl_sub_def FIXED_TIME_STEP_val x .
qed

lemma ge_250_0: "FIXED_TIME_STEP \<le> 250"
  by (simp add: FIXED_TIME_STEP_val)

lemma sub_250_1: "fl_sub (8209686820727467 / 35184372088832) FIXED_TIME_STEP = 3811640309623467 / 17592186044416"
proof -
  have x: "8209686820727467 / 35184372088832 - 4691249611844267 / 281474976710656 = (60986244953975469 / 281474976710656 :: real)" by simp
  have "rd (60986244953975469 / 281474976710656) = 3811640309623467 / 17592186044416"
    using rd_eval_near [of 7 "60986244953975469 / 281474976710656" 7623280619246934] by (simp add: pow2_def)
  then show ?thesis unfolding fl_sub_def FIXED_TIME_STEP_val x .
qed

lemma ge_250_1: "FIXED_TIME_STEP \<le> 8209686820727467 / 35184372088832"
  by (simp add: FIXED_TIME_STEP_val)

lemma sub_250_2: "fl_sub (3811640309623467 / 17592186044416) FIXED_TIME_STEP = 7036874417766401 / 35184372088832"
proof -
  have x: "3811640309623467 / 17592186044416 - 4691249611844267 / 281474976710656 = (56294995342131205 / 281474976710656 :: real)" by simp
  have "rd (56294995342131205 / 281474976710656) = 7036874417766401 / 35184372088832"
    using rd_eval_near [of 7 "56294995342131205 / 281474976710656" 7036874417766401] by (simp add: pow2_def)
  then show ?thesis unfolding fl_sub_def FIXED_TIME_STEP_val x .
qed

lemma ge_250_2: "FIXED_TIME_STEP \<le> 3811640309623467 / 17592186044416"
  by (simp add: FIXED_TIME_STEP_val)

lemma sub_250_3: "fl_sub (7036874417766401 / 35184372088832) FIXED_TIME_STEP = 1612617054071467 / 8796093022208"
proof -
  have x: "7036874417766401 / 35184372088832 - 4691249611844267 / 281474976710656 = (51603745730286941 / 281474976710656 :: real)" by simp
  have "rd (51603745730286941 / 281474976710656) = 1612617054071467 / 8796093022208"
    using rd_eval_near [of 7 "51603745730286941 / 281474976710656" 6450468216285868] by (simp add: pow2_def)
  then show ?thesis unfolding fl_sub_def FIXED_TIME_STEP_val x .
qed

lemma ge_250_3: "FIXED_TIME_STEP \<le> 7036874417766401 / 35184372088832"
  by (simp add: FIXED_TIME_STEP_val)

lemma sub_250_4: "fl_sub (1612617054071467 / 8796093022208) FIXED_TIME_STEP = 5864062014805335 / 35184372088832"
proof -
  have x: "1612617054071467 / 8796093022208 - 4691249611844267 / 281474976710656 = (46912496118442677 / 281474976710656 :: real)" by simp
  have "rd (46912496118442677 / 281474976710656) = 5864062014805335 / 35184372088832"
    using rd_eval_near [of 7 "46912496118442677 / 281474976710656" 5864062014805335] by (simp add: pow2_def)
  then show ?thesis unfolding fl_sub_def FIXED_TIME_STEP_val x .
qed

lemma ge_250_4: "FIXED_TIME_STEP \<le> 1612617054071467 / 8796093022208"
  by (simp add: FIXED_TIME_STEP_val)

lemma sub_250_5: "fl_sub (5864062014805335 / 35184372088832) FIXED_TIME_STEP = 2638827906662401 / 17592186044416"
proof -
  have x: "5864062014805335 / 35184372088832 - 4691249611844267 / 281474976710656 = (42221246506598413 / 281474976710656 :: real)" by simp
  have "rd (42221246506598413 / 281474976710656) = 2638827906662401 / 17592186044416"
    using rd_eval_near [of 7 "42221246506598413 / 281474976710656" 5277655813324802] by (simp add: pow2_def)
  then show ?thesis unfolding fl_sub_def FIXED_TIME_STEP_val x .
qed

lemma ge_250_5: "FIXED_TIME_STEP \<le> 5864062014805335 / 35184372088832"
  by (simp add: FIXED_TIME_STEP_val)

lemma sub_250_6: "fl_sub (2638827906662401 / 17592186044416) FIXED_TIME_STEP = 4691249611844269 / 35184372088832"
proof -
  have x: "2638827906662401 / 17592186044416 - 4691249611844267 / 281474976710656 = (37529996894754149 / 281474976710656 :: real)" by simp
  have "rd (37529996894754149 / 281474976710656) = 4691249611844269 / 35184372088832"
    using rd_eval_near [of 7 "37529996894754149 / 281474976710656" 4691249611844269] by (simp add: pow2_def)
  then show ?thesis unfolding fl_sub_def FIXED_TIME_STEP_val x .
qed

lemma ge_250_6: "FIXED_TIME_STEP \<le> 2638827906662401 / 17592186044416"
  by (simp add: FIXED_TIME_STEP_val)

lemma sub_250_7: "fl_sub (4691249611844269 / 35184372088832) FIXED_TIME_STEP = 8209686820727471 / 70368744177664"
proof -
  have x: "4691249611844269 / 35184372088832 - 4691249611844267 / 281474976710656 = (32838747282909885 / 281474976710656 :: real)" by simp
  have "rd (32838747282909885 / 281474976710656) = 8209686820727471 / 70368744177664"
    using rd_eval_near [of 6 "32838747282909885 / 281474976710656" 8209686820727471] by (simp add: pow2_def)
  then show ?thesis unfolding fl_sub_def FIXED_TIME_STEP_val x .
qed

lemma ge_250_7: "FIXED_TIME_STEP \<le> 4691249611844269 / 35184372088832"
  by (simp add: FIXED_TIME_STEP_val)

lemma sub_250_8: "fl_sub (8209686820727471 / 70368744177664) FIXED_TIME_STEP = 1759218604441601 / 17592186044416"
proof -
  have x: "8209686820727471 / 70368744177664 - 4691249611844267 / 281474976710656 = (28147497671065617 / 281474976710656 :: real)" by simp
  have "rd (28147497671065617 / 281474976710656) = 1759218604441601 / 17592186044416"
    using rd_eval_near [of 6 "28147497671065617 / 281474976710656" 7036874417766404] by (simp add: pow2_def)
  then show ?thesis unfolding fl_sub_def FIXED_TIME_STEP_val x .
qed

lemma ge_250_8: "FIXED_TIME_STEP \<le> 8209686820727471 / 70368744177664"
  by (simp add: FIXED_TIME_STEP_val)

lemma sub_250_9: "fl_sub (1759218604441601 / 17592186044416) FIXED_TIME_STEP = 5864062014805337 / 70368744177664"
proof -
  have x: "1759218604441601 / 17592186044416 - 4691249611844267 / 281474976710656 = (23456248059221349 / 281474976710656 :: real)" by simp
  have "rd (23456248059221349 / 281474976710656) = 5864062014805337 / 70368744177664"
    using rd_eval_near [of 6 "23456248059221349 / 281474976710656" 5864062014805337] by (simp add: pow2_def)
  then show ?thesis unfolding fl_sub_def FIXED_TIME_STEP_val x .
qed

lemma ge_250_9: "FIXED_TIME_STEP \<le> 1759218604441601 / 17592186044416"
  by (simp add: FIXED_TIME_STEP_val)

lemma sub_250_10: "fl_sub (5864062014805337 / 70368744177664) FIXED_TIME_STEP = 2345624805922135 / 35184372088832"
proof -
  have x: "5864062014805337 / 70368744177664 - 4691249611844267 / 281474976710656 = (18764998447377081 / 281474976710656 :: real)" by simp
  have "rd (18764998447377081 / 281474976710656) = 2345624805922135 / 35184372088832"
    using rd_eval_near [of 6 "18764998447377081 / 281474976710656" 4691249611844270] by (simp add: pow2_def)
  then show ?thesis unfolding fl_sub_def FIXED_TIME_STEP_val x .
qed

lemma ge_250_10: "FIXED_TIME_STEP \<le> 5864062014805337 / 70368744177664"
  by (simp add: FIXED_TIME_STEP_val)

lemma sub_250_11: "fl_sub (2345624805922135 / 35184372088832) FIXED_TIME_STEP = 3518437208883203 / 70368744177664"
proof -
  have x: "2345624805922135 / 35184372088832 - 4691249611844267 / 281474976710656 = (14073748835532813 / 281474976710656 :: real)" by simp
  have "rd (14073748835532813 / 281474976710656) = 3518437208883203 / 70368744177664"
    using rd_eval_tie [of 5 "14073748835532813 / 281474976710656" 7036874417766406] by (simp add: pow2_def)
  then show ?thesis unfolding fl_sub_def FIXED_TIME_STEP_val x .
qed

lemma ge_250_11: "FIXED_TIME_STEP \<le> 2345624805922135 / 35184372088832"
  by (simp add: FIXED_TIME_STEP_val)

lemma sub_250_12: "fl_sub (3518437208883203 / 70368744177664) FIXED_TIME_STEP = 293203100740267 / 8796093022208"
proof -
  have x: "3518437208883203 / 70368744177664 - 4691249611844267 / 281474976710656 = (9382499223688545 / 281474976710656 :: real)" by simp
  have "rd (9382499223688545 / 281474976710656) = 293203100740267 / 8796093022208"
    using rd_eval_tie [of 5 "9382499223688545 / 281474976710656" 4691249611844272] by (simp add: pow2_def)
  then show ?thesis unfolding fl_sub_def FIXED_TIME_STEP_val x .
qed

lemma ge_250_12: "FIXED_TIME_STEP \<le> 3518437208883203 / 70368744177664"
  by (simp add: FIXED_TIME_STEP_val)

lemma sub_250_13: "fl_sub (293203100740267 / 8796093022208) FIXED_TIME_STEP = 4691249611844277 / 281474976710656"
proof -
  have x: "293203100740267 / 8796093022208 - 4691249611844267 / 281474976710656 = (4691249611844277 / 281474976710656 :: real)" by simp
  have "rd (4691249611844277 / 281474976710656) = 4691249611844277 / 281474976710656"
    using rd_eval_near [of 4 "4691249611844277 / 281474976710656" 4691249611844277] by (simp add: pow2_def)
  then show ?thesis unfolding fl_sub_def FIXED_TIME_STEP_val x .
qed

lemma ge_250_13: "FIXED_TIME_STEP \<le> 293203100740267 / 8796093022208"
  by (simp add: FIXED_TIME_STEP_val)

lemma sub_250_14: "fl_sub (4691249611844277 / 281474976710656) FIXED_TIME_STEP = 5 / 140737488355328"
proof -
  have x: "4691249611844277 / 281474976710656 - 4691249611844267 / 281474976710656 = (5 / 140737488355328 :: real)" by simp
  have "rd (5 / 140737488355328) = 5 / 140737488355328"
    using rd_eval_near [of "- 45" "5 / 140737488355328" 5629499534213120] by (simp add: pow2_def)
  then show ?thesis unfolding fl_sub_def FIXED_TIME_STEP_val x .
qed

lemma ge_250_14: "FIXED_TIME_STEP \<le> 4691249611844277 / 281474976710656"
  by (simp add: FIXED_TIME_STEP_val)

lemma lt_250: "\<not> FIXED_TIME_STEP \<le> 5 / 140737488355328"
  by (simp add: FIXED_TIME_STEP_val)

lemma course_250:
  "\<forall>j<15. FIXED_TIME_STEP \<le> acc_after j (250)"
  "\<not> FIXED_TIME_STEP \<le> acc_after 15 (250)"
  "acc_after 15 (250) = 5 / 140737488355328"
  by (simp_all only: eval_nat_numeral BitM.simps All_less_Suc not_less_zero acc_after.simps simp_thms
      sub_250_0 sub_250_1 sub_250_2 sub_250_3 sub_250_4 sub_250_5 sub_250_6 sub_250_7 sub_250_8 sub_250_9 sub_250_10 sub_250_11 sub_250_12 sub_250_13 sub_250_14 ge_250_0 ge_250_1 ge_250_2 ge_250_3 ge_250_4 ge_250_5 ge_250_6 ge_250_7 ge_250_8 ge_250_9 ge_250_10 ge_250_11 ge_250_12 ge_250_13 ge_250_14 lt_250)

lemma sub_267_0: "fl_sub (4691249611844267 / 17592186044416) FIXED_TIME_STEP = 8796093022208001 / 35184372088832"
proof -
  have x: "4691249611844267 / 17592186044416 - 4691249611844267 / 281474976710656 = (70368744177664005 / 281474976710656 :: real)" by simp
  have "rd (70368744177664005 / 281474976710656) = 8796093022208001 / 35184372088832"
    using rd_eval_near [of 7 "70368744177664005 / 281474976710656" 8796093022208001] by (simp add: pow2_def)
  then show ?thesis unfolding fl_sub_def FIXED_TIME_STEP_val x .
qed

lemma ge_267_0: "FIXED_TIME_STEP \<le> 4691249611844267 / 17592186044416"
  by (simp add: FIXED_TIME_STEP_val)

lemma sub_267_1: "fl_sub (8796093022208001 / 35184372088832) FIXED_TIME_STEP = 2052421705181867 / 8796093022208"
proof -
  have x: "8796093022208001 / 35184372088832 - 4691249611844267 / 281474976710656 = (65677494565819741 / 281474976710656 :: real)" by simp
  have "rd (65677494565819741 / 281474976710656) = 2052421705181867 / 8796093022208"
    using rd_eval_near [of 7 "65677494565819741 / 281474976710656" 8209686820727468] by (simp add: pow2_def)
  then show ?thesis unfolding fl_sub_def FIXED_TIME_STEP_val x .
qed

lemma ge_267_1: "FIXED_TIME_STEP \<le> 8796093022208001 / 35184372088832"
  by (simp add: FIXED_TIME_STEP_val)

lemma sub_267_2: "fl_sub (2052421705181867 / 8796093022208) FIXED_TIME_STEP = 7623280619246935 / 35184372088832"
proof -
  have x: "2052421705181867 / 8796093022208 - 4691249611844267 / 281474976710656 = (60986244953975477 / 281474976710656 :: real)" by simp
  have "rd (60986244953975477 / 281474976710656) = 7623280619246935 / 35184372088832"
    using rd_eval_near [of 7 "60986244953975477 / 281474976710656" 7623280619246935] by (simp add: pow2_def)
  then show ?thesis unfolding fl_sub_def FIXED_TIME_STEP_val x .
qed

lemma ge_267_2: "FIXED_TIME_STEP \<le> 2052421705181867 / 8796093022208"
  by (simp add: FIXED_TIME_STEP_val)

lemma sub_267_3: "fl_sub (7623280619246935 / 35184372088832) FIXED_TIME_STEP = 3518437208883201 / 17592186044416"
proof -
  have x: "7623280619246935 / 35184372088832 - 4691249611844267 / 281474976710656 = (56294995342131213 / 281474976710656 :: real)" by simp
  have "rd (56294995342131213 / 281474976710656) = 3518437208883201 / 17592186044416"
    using rd_eval_near [of 7 "56294995342131213 / 281474976710656" 7036874417766402] by (simp add: pow2_def)
  then show ?thesis unfolding fl_sub_def FIXED_TIME_STEP_val x .
qed

lemma ge_267_3: "FIXED_TIME_STEP \<le> 7623280619246935 / 35184372088832"
  by (simp add: FIXED_TIME_STEP_val)

lemma sub_267_4: "fl_sub (3518437208883201 / 17592186044416) FIXED_TIME_STEP = 6450468216285869 / 35184372088832"
proof -
  have x: "3518437208883201 / 17592186044416 - 4691249611844267 / 281474976710656 = (51603745730286949 / 281474976710656 :: real)" by simp
  have "rd (51603745730286949 / 281474976710656) = 6450468216285869 / 35184372088832"
    using rd_eval_near [of 7 "51603745730286949 / 281474976710656" 6450468216285869] by (simp add: pow2_def)
  then show ?thesis unfolding fl_sub_def FIXED_TIME_STEP_val x .
qed

lemma ge_267_4: "FIXED_TIME_STEP \<le> 3518437208883201 / 17592186044416"
  by (simp add: FIXED_TIME_STEP_val)

lemma sub_267_5: "fl_sub (6450468216285869 / 35184372088832) FIXED_TIME_STEP = 733007751850667 / 4398046511104"
proof -
  have x: "6450468216285869 / 35184372088832 - 4691249611844267 / 281474976710656 = (46912496118442685 / 281474976710656 :: real)" by simp
  have "rd (46912496118442685 / 281474976710656) = 733007751850667 / 4398046511104"
    using rd_eval_near [of 7 "46912496118442685 / 281474976710656" 5864062014805336] by (simp add: pow2_def)
  then show ?thesis unfolding fl_sub_def FIXED_TIME_STEP_val x .
qed

lemma ge_267_5: "FIXED_TIME_STEP \<le> 6450468216285869 / 35184372088832"
  by (simp add: FIXED_TIME_STEP_val)

lemma sub_267_6: "fl_sub (733007751850667 / 4398046511104) FIXED_TIME_STEP = 5277655813324803 / 35184372088832"
proof -
  have x: "733007751850667 / 4398046511104 - 4691249611844267 / 281474976710656 = (42221246506598421 / 281474976710656 :: real)" by simp
  have "rd (42221246506598421 / 281474976710656) = 5277655813324803 / 35184372088832"
    using rd_eval_near [of 7 "42221246506598421 / 281474976710656" 5277655813324803] by (simp add: pow2_def)
  then show ?thesis unfolding fl_sub_def FIXED_TIME_STEP_val x .
qed

lemma ge_267_6: "FIXED_TIME_STEP \<le> 733007751850667 / 4398046511104"
  by (simp add: FIXED_TIME_STEP_val)

lemma sub_267_7: "fl_sub (5277655813324803 / 35184372088832) FIXED_TIME_STEP = 2345624805922135 / 17592186044416"
proof -
  have x: "5277655813324803 / 35184372088832 - 4691249611844267 / 281474976710656 = (37529996894754157 / 281474976710656 :: real)" by simp
  have "rd (37529996894754157 / 281474976710656) = 2345624805922135 / 17592186044416"
    using rd_eval_near [of 7 "37529996894754157 / 281474976710656" 4691249611844270] by (simp add: pow2_def)
  then show ?thesis unfolding fl_sub_def FIXED_TIME_STEP_val x .
qed

lemma ge_267_7: "FIXED_TIME_STEP \<le> 5277655813324803 / 35184372088832"
  by (simp add: FIXED_TIME_STEP_val)

lemma sub_267_8: "fl_sub (2345624805922135 / 17592186044416) FIXED_TIME_STEP = 8209686820727473 / 70368744177664"
proof -
  have x: "2345624805922135 / 17592186044416 - 4691249611844267 / 281474976710656 = (32838747282909893 / 281474976710656 :: real)" by simp
  have "rd (32838747282909893 / 281474976710656) = 8209686820727473 / 70368744177664"
    using rd_eval_near [of 6 "32838747282909893 / 281474976710656" 8209686820727473] by (simp add: pow2_def)
  then show ?thesis unfolding fl_sub_def FIXED_TIME_STEP_val x .
qed

lemma ge_267_8: "FIXED_TIME_STEP \<le> 2345624805922135 / 17592186044416"
  by (simp add: FIXED_TIME_STEP_val)

lemma sub_267_9: "fl_sub (8209686820727473 / 70368744177664) FIXED_TIME_STEP = 3518437208883203 / 35184372088832"
proof -
  have x: "8209686820727473 / 70368744177664 - 4691249611844267 / 281474976710656 = (28147497671065625 / 281474976710656 :: real)" by simp
  have "rd (28147497671065625 / 281474976710656) = 3518437208883203 / 35184372088832"
    using rd_eval_near [of 6 "28147497671065625 / 281474976710656" 7036874417766406] by (simp add: pow2_def)
  then show ?thesis unfolding fl_sub_def FIXED_TIME_STEP_val x .
qed

lemma ge_267_9: "FIXED_TIME_STEP \<le> 8209686820727473 / 70368744177664"
  by (simp add: FIXED_TIME_STEP_val)

lemma sub_267_10: "fl_sub (3518437208883203 / 35184372088832) FIXED_TIME_STEP = 5864062014805339 / 70368744177664"
proof -
  have x: "3518437208883203 / 35184372088832 - 4691249611844267 / 281474976710656 = (23456248059221357 / 281474976710656 :: real)" by simp
  have "rd (23456248059221357 / 281474976710656) = 5864062014805339 / 70368744177664"
    using rd_eval_near [of 6 "23456248059221357 / 281474976710656" 5864062014805339] by (simp add: pow2_def)
  then show ?thesis unfolding fl_sub_def FIXED_TIME_STEP_val x .
qed

lemma ge_267_10: "FIXED_TIME_STEP \<le> 3518437208883203 / 35184372088832"
  by (simp add: FIXED_TIME_STEP_val)

lemma sub_267_11: "fl_sub (5864062014805339 / 70368744177664) FIXED_TIME_STEP = 293203100740267 / 4398046511104"
proof -
  have x: "5864062014805339 / 70368744177664 - 4691249611844267 / 281474976710656 = (18764998447377089 / 281474976710656 :: real)" by simp
  have "rd (18764998447377089 / 281474976710656) = 293203100740267 / 4398046511104"
    using rd_eval_near [of 6 "18764998447377089 / 281474976710656" 4691249611844272] by (simp add: pow2_def)
  then show ?thesis unfolding fl_sub_def FIXED_TIME_STEP_val x .
qed

lemma ge_267_11: "FIXED_TIME_STEP \<le> 5864062014805339 / 70368744177664"
  by (simp add: FIXED_TIME_STEP_val)

lemma sub_267_12: "fl_sub (293203100740267 / 4398046511104) FIXED_TIME_STEP = 3518437208883205 / 70368744177664"
proof -
  have x: "293203100740267 / 4398046511104 - 4691249611844267 / 281474976710656 = (14073748835532821 / 281474976710656 :: real)" by simp
  have "rd (14073748835532821 / 281474976710656) = 3518437208883205 / 70368744177664"
    using rd_eval_tie [of 5 "14073748835532821 / 281474976710656" 7036874417766410] by (simp add: pow2_def)
  then show ?thesis unfolding fl_sub_def FIXED_TIME_STEP_val x .
qed

lemma ge_267_12: "FIXED_TIME_STEP \<le> 293203100740267 / 4398046511104"
  by (simp add: FIXED_TIME_STEP_val)

lemma sub_267_13: "fl_sub (3518437208883205 / 70368744177664) FIXED_TIME_STEP = 1172812402961069 / 35184372088832"
proof -
  have x: "3518437208883205 / 70368744177664 - 4691249611844267 / 281474976710656 = (9382499223688553 / 281474976710656 :: real)" by simp
  have "rd (9382499223688553 / 281474976710656) = 1172812402961069 / 35184372088832"
    using rd_eval_tie [of 5 "9382499223688553 / 281474976710656" 4691249611844276] by (simp add: pow2_def)
  then show ?thesis unfolding fl_sub_def FIXED_TIME_STEP_val x .
qed

lemma ge_267_13: "FIXED_TIME_STEP \<le> 3518437208883205 / 70368744177664"
  by (simp add: FIXED_TIME_STEP_val)

lemma sub_267_14: "fl_sub (1172812402961069 / 35184372088832) FIXED_TIME_STEP = 4691249611844285 / 281474976710656"
proof -
  have x: "1172812402961069 / 35184372088832 - 4691249611844267 / 281474976710656 = (4691249611844285 / 281474976710656 :: real)" by simp
  have "rd (4691249611844285 / 281474976710656) = 4691249611844285 / 281474976710656"
    using rd_eval_near [of 4 "4691249611844285 / 281474976710656" 4691249611844285] by (simp add: pow2_def)
  then show ?thesis unfolding fl_sub_def FIXED_TIME_STEP_val x .
qed

lemma ge_267_14: "FIXED_TIME_STEP \<le> 1172812402961069 / 35184372088832"
  by (simp add: FIXED_TIME_STEP_val)

lemma sub_267_15: "fl_sub (4691249611844285 / 281474976710656) FIXED_TIME_STEP = 9 / 140737488355328"
proof -
  have x: "4691249611844285 / 281474976710656 - 4691249611844267 / 281474976710656 = (9 / 140737488355328 :: real)" by simp
  have "rd (9 / 140737488355328) = 9 / 140737488355328"
    using rd_eval_near [of "- 44" "9 / 140737488355328" 5066549580791808] by (simp add: pow2_def)
  then show ?thesis unfolding fl_sub_def FIXED_TIME_STEP_val x .
qed

lemma ge_267_15: "FIXED_TIME_STEP \<le> 4691249611844285 / 281474976710656"
  by (simp add: FIXED_TIME_STEP_val)

lemma lt_267: "\<not> FIXED_TIME_STEP \<le> 9 / 140737488355328"
  by (simp add: FIXED_TIME_STEP_val)

lemma course_267:
  "\<forall>j<16. FIXED_TIME_STEP \<le> acc_after j (4691249611844267 / 17592186044416)"
  "\<not> FIXED_TIME_STEP \<le> acc_after 16 (4691249611844267 / 17592186044416)"
  "acc_after 16 (4691249611844267 / 17592186044416) = 9 / 140737488355328"
  by (simp_all only: eval_nat_numeral BitM.simps All_less_Suc not_less_zero acc_after.simps simp_thms
      sub_267_0 sub_267_1 sub_267_2 sub_267_3 sub_267_4 sub_267_5 sub_267_6 sub_267_7 sub_267_8 sub_267_9 sub_267_10 sub_267_11 sub_267_12 sub_267_13 sub_267_14 sub_267_15 ge_267_0 ge_267_1 ge_267_2 ge_267_3 ge_267_4 ge_267_5 ge_267_6 ge_267_7 ge_267_8 ge_267_9 ge_267_10 ge_267_11 ge_267_12 ge_267_13 ge_267_14 ge_267_15 lt_267)

lemma rd_50: "rd 50 = 50"
proof -
  have "rd (50) = 50"
    using rd_eval_near [of 5 "50" 7036874417766400] by (simp add: pow2_def)
  then show ?thesis by (simp add: fl_sub_def)
qed

lemma rd_250: "rd 250 = 250"
proof -
  have "rd (250) = 250"
    using rd_eval_near [of 7 "250" 8796093022208000] by (simp add: pow2_def)
  then show ?thesis by (simp add: fl_sub_def)
qed

lemma rd_500: "rd 500 = 500"
proof -
  have "rd (500) = 500"
    using rd_eval_near [of 8 "500" 8796093022208000] by (simp add: pow2_def)
  then show ?thesis by (simp add: fl_sub_def)
qed

lemma add_267: "fl_add (4691249611844265 / 281474976710656) 250 = 4691249611844267 / 17592186044416"
proof -
  have x: "4691249611844265 / 281474976710656 + 250 = (75059993789508265 / 281474976710656 :: real)" by simp
  have "rd (75059993789508265 / 281474976710656) = 4691249611844267 / 17592186044416"
    using rd_eval_near [of 8 "75059993789508265 / 281474976710656" 4691249611844267] by (simp add: pow2_def)
  then show ?thesis unfolding fl_add_def x .
qed

lemma rd_values: "rd 50 = 50" "rd 250 = 250" "rd 500 = 500"
  by (rule rd_50, rule rd_250, rule rd_500)

lemma frame_accumulator_50: "frame_accumulator 50 (fixture_loop upd True 0 0) = 50"
  by (simp add: frame_accumulator_def fixture_loop_def fl_sub_def fl_add_def rd_values
      MAX_FRAME_TIME_def)

lemma frame_accumulator_500: "frame_accumulator 500 (fixture_loop upd True 0 0) = 250"
  by (simp add: frame_accumulator_def fixture_loop_def fl_sub_def fl_add_def rd_values
      MAX_FRAME_TIME_def)

lemma frame_accumulator_550:
  assumes "accumulator this = 4691249611844265 / 281474976710656" and "lastTime this = 50"
  shows "frame_accumulator 550 this = 4691249611844267 / 17592186044416"
  by (simp add: frame_accumulator_def assms fl_sub_def rd_values MAX_FRAME_TIME_def add_267)

lemma tick_update_never_throws: "never_throws tick_update"
  by (simp add: never_throws_def tick_update_def)

text \<open>
  The frames used below: a loop that was constructed and started at time 0, and its
  frames at 50 ms and at 500 ms.
\<close>

lemma fixture_loop_is_started:
  "GameLoop_new (Some \<lparr>canvas = True, cfg_update = Some upd, cfg_render = Some draw_render,
       cfg_targetFPS = None\<rparr>) = Inr (fixture_loop upd False 0 0) \<and>
   start 0 (fixture_loop upd False 0 0) = (fixture_loop upd True 0 0, [RequestAnimationFrame])"
  by (simp add: GameLoop_new_def start_def fixture_loop_def js_or_def)

lemma frame_50:
  "\<exists>r. loop 50 (fixture_loop tick_update True 0 0) w = Some r \<and>
       frame_error r = None \<and>
       update_args (frame_trace r) = replicate 2 (fl_div FIXED_TIME_STEP 1000) \<and>
       running (frame_loop r) \<and>
       accumulator (frame_loop r) = 4691249611844265 / 281474976710656 \<and>
       lastTime (frame_loop r) = 50 \<and>
       update (frame_loop r) = tick_update"
proof -
  let ?g = "fixture_loop tick_update True 0 0"
  have r: "running ?g" by (simp add: fixture_loop_def)
  have h1: "\<forall>j<2. FIXED_TIME_STEP \<le> acc_after j (frame_accumulator 50 ?g)"
    unfolding frame_accumulator_50 by (rule course_50(1))
  have h2: "\<not> FIXED_TIME_STEP \<le> acc_after 2 (frame_accumulator 50 ?g)"
    unfolding frame_accumulator_50 by (rule course_50(2))
  have h3: "\<forall>j<2. fst (update ?g (fl_div FIXED_TIME_STEP 1000) (world_after (update ?g) j w)) = None"
    by (simp add: fixture_loop_def tick_update_def)
  from frame_run [OF r h1 h2 h3] obtain res where
    f: "loop 50 ?g w = Some res"
      "frame_error res =
         fst (render ?g (fl_div (acc_after 2 (frame_accumulator 50 ?g)) FIXED_TIME_STEP)
                (world_after (update ?g) 2 w))"
      "update_args (frame_trace res) = replicate 2 (fl_div FIXED_TIME_STEP 1000)"
      "running (frame_loop res) \<longleftrightarrow> frame_error res = None"
      "accumulator (frame_loop res) = acc_after 2 (frame_accumulator 50 ?g)"
      "lastTime (frame_loop res) = 50"
      "update (frame_loop res) = update ?g"
    by (elim exE conjE) (rule that)
  from f(2) have e: "frame_error res = None" by (simp add: fixture_loop_def draw_render_def)
  from f(4) e have ru: "running (frame_loop res)" by simp
  from f(5) have ac: "accumulator (frame_loop res) = 4691249611844265 / 281474976710656"
    unfolding frame_accumulator_50 course_50(3) .
  from f(7) have up: "update (frame_loop res) = tick_update" by (simp add: fixture_loop_def)
  show ?thesis by (rule exI [of _ res]) (intro conjI f(1) e f(3) ru ac f(6) up)
qed

lemma frame_500:
  "\<exists>r. loop 500 (fixture_loop tick_update True 0 0) w = Some r \<and>
       frame_error r = None \<and>
       update_args (frame_trace r) = replicate 15 (fl_div FIXED_TIME_STEP 1000) \<and>
       accumulator (frame_loop r) = 5 / 140737488355328"
proof -
  let ?g = "fixture_loop tick_update True 0 0"
  have r: "running ?g" by (simp add: fixture_loop_def)
  have h1: "\<forall>j<15. FIXED_TIME_STEP \<le> acc_after j (frame_accumulator 500 ?g)"
    unfolding frame_accumulator_500 by (rule course_250(1))
  have h2: "\<not> FIXED_TIME_STEP \<le> acc_after 15 (frame_accumulator 500 ?g)"
    unfolding frame_accumulator_500 by (rule course_250(2))
  have h3: "\<forall>j<15. fst (update ?g (fl_div FIXED_TIME_STEP 1000) (world_after (update ?g) j w)) = None"
    by (simp add: fixture_loop_def tick_update_def)
  from frame_run [OF r h1 h2 h3] obtain res where
    f: "loop 500 ?g w = Some res"
      "frame_error res =
         fst (render ?g (fl_div (acc_after 15 (frame_accumulator 500 ?g)) FIXED_TIME_STEP)
                (world_after (update ?g) 15 w))"
      "update_args (frame_trace res) = replicate 15 (fl_div FIXED_TIME_STEP 1000)"
      "accumulator (frame_loop res) = acc_after 15 (frame_accumulator 500 ?g)"
    by (elim exE conjE) (rule that)
  from f(2) have e: "frame_error res = None" by (simp add: fixture_loop_def draw_render_def)
  from f(4) have ac: "accumulator (frame_loop res) = 5 / 140737488355328"
    unfolding frame_accumulator_500 course_250(3) .
  show ?thesis by (rule exI [of _ res]) (intro conjI f(1) e f(3) ac)
qed

text \<open>The frame at 550 ms of a loop whose last frame was at 50 ms and left 16.66666666666666.\<close>

lemma frame_550:
  assumes "running this" and "update this = tick_update"
    and "accumulator this = 4691249611844265 / 281474976710656" and "lastTime this = 50"
  shows "\<exists>r. loop 550 this w = Some r \<and>
       update_args (frame_trace r) = replicate 16 (fl_div FIXED_TIME_STEP 1000) \<and>
       frame_error r = fst (render this (fl_div (9 / 140737488355328) FIXED_TIME_STEP)
                              (world_after tick_update 16 w)) \<and>
       accumulator (frame_loop r) = 9 / 140737488355328 \<and>
       lastTime (frame_loop r) = 550"
proof -
  note a = frame_accumulator_550 [OF assms(3,4)]
  have h1: "\<forall>j<16. FIXED_TIME_STEP \<le> acc_after j (frame_accumulator 550 this)"
    unfolding a by (rule course_267(1))
  have h2: "\<not> FIXED_TIME_STEP \<le> acc_after 16 (frame_accumulator 550 this)"
    unfolding a by (rule course_267(2))
  have h3: "\<forall>j<16. fst (update this (fl_div FIXED_TIME_STEP 1000) (world_after (update this) j w)) = None"
    by (simp add: assms(2) tick_update_def)
  from frame_run [OF assms(1) h1 h2 h3] obtain res where
    f: "loop 550 this w = Some res"
      "frame_error res =
         fst (render this (fl_div (acc_after 16 (frame_accumulator 550 this)) FIXED_TIME_STEP)
                (world_after (update this) 16 w))"
      "update_args (frame_trace res) = replicate 16 (fl_div FIXED_TIME_STEP 1000)"
      "accumulator (frame_loop res) = acc_after 16 (frame_accumulator 550 this)"
      "lastTime (frame_loop res) = 550"
    by (elim exE conjE) (rule that)
  from f(2) have e: "frame_error res =
      fst (render this (fl_div (9 / 140737488355328) FIXED_TIME_STEP) (world_after tick_update 16 w))"
    unfolding a course_267(3) assms(2) .
  from f(4) have ac: "accumulator (frame_loop res) = 9 / 140737488355328"
    unfolding a course_267(3) .
  show ?thesis by (rule exI [of _ res]) (intro conjI f(1) f(3) e ac f(5))
qed

lemma all_less_2: "(\<forall>j<2. P j) \<longleftrightarrow> P 0 \<and> P (1::nat)"
  by (auto simp: numeral_2_eq_2 less_Suc_eq)

lemma floor_50: "\<lfloor>50 / FIXED_TIME_STEP\<rfloor> = 2"
  by (rule floor_unique) (simp_all add: FIXED_TIME_STEP_val)

lemma floor_250: "\<lfloor>250 / FIXED_TIME_STEP\<rfloor> = 14"
  by (rule floor_unique) (simp_all add: FIXED_TIME_STEP_val)

subsection \<open>The claims\<close>

text \<open>
  Claim C4 as amended. In every frame of a running loop that returns, every invocation of
  the update callback receives the same constant, the number
  \<open>FIXED_TIME_STEP / 1000\<close>, never the frame's delta. A frame whose accumulator, after the
  clamped delta has been added, is below 1024 returns. When moreover the update callback
  does not throw and that accumulator is not negative, the number of update calls is the
  first \<open>k\<close> at which the accumulator, reduced \<open>k\<close> times by the step with the rounding of
  each subtraction, is below the step; it differs from
  \<open>floor(accumulator / FIXED_TIME_STEP)\<close> by at most one. An accumulator below the step
  gives no update call.
\<close>

theorem fixed_step_updates:
  assumes "running this"
  shows "(\<forall>r. loop t this w = Some r \<longrightarrow>
            (\<forall>x \<in> set (update_args (frame_trace r)). x = fl_div FIXED_TIME_STEP 1000)) \<and>
         (frame_accumulator t this < 1024 \<longrightarrow> (\<exists>r. loop t this w = Some r)) \<and>
         (never_throws (update this) \<and> 0 \<le> frame_accumulator t this \<and>
          frame_accumulator t this < 1024 \<longrightarrow>
            (\<exists>r. loop t this w = Some r \<and>
                 \<bar>int (length (update_args (frame_trace r))) -
                    \<lfloor>frame_accumulator t this / FIXED_TIME_STEP\<rfloor>\<bar> \<le> 1 \<and>
                 (\<forall>j<length (update_args (frame_trace r)).
                    FIXED_TIME_STEP \<le> acc_after j (frame_accumulator t this)) \<and>
                 \<not> FIXED_TIME_STEP \<le>
                    acc_after (length (update_args (frame_trace r))) (frame_accumulator t this))) \<and>
         (frame_accumulator t this < FIXED_TIME_STEP \<longrightarrow>
            (\<exists>r. loop t this w = Some r \<and> update_args (frame_trace r) = []))"
proof -
  let ?a = "frame_accumulator t this"
  let ?c = "fl_div FIXED_TIME_STEP 1000"
  have one: "\<forall>x \<in> set (update_args (frame_trace r)). x = ?c" if lr: "loop t this w = Some r" for r
  proof -
    from loop_returned [OF assms lr] obtain x acc w1 tr where
      u: "update_loop (update this) ?a w [] = Some (x, acc, w1, tr)"
      and args: "update_args (frame_trace r) = update_args tr"
      by (elim exE conjE) (rule that)
    from update_loop_result [OF u] have "\<forall>a \<in> set (update_args tr). a = ?c" by auto
    with args show ?thesis by simp
  qed
  have ends: "\<exists>y tr'. update_loop (update this) ?a w [] = Some y \<and>
      snd (snd (snd y)) = [] @ tr' \<and> length (update_args tr') \<le> 64" if "?a < 1024"
  proof (rule update_loop_ends)
    have "real (Suc 64) * (FIXED_TIME_STEP - pow2 (- 44)) = 65 * FIXED_TIME_STEP - 65 * pow2 (- 44)"
      by (simp add: algebra_simps)
    with that step_bounds eta_bounds
    show "?a < real (Suc 64) * (FIXED_TIME_STEP - pow2 (- 44))" by linarith
    from that show "?a < 1024" .
  qed
  have two: "\<exists>r. loop t this w = Some r" if "?a < 1024"
  proof -
    from ends [OF that] obtain y where "update_loop (update this) ?a w [] = Some y" by blast
    then show ?thesis by (rule loop_returns [OF assms])
  qed
  have three: "\<exists>r. loop t this w = Some r \<and>
      \<bar>int (length (update_args (frame_trace r))) - \<lfloor>?a / FIXED_TIME_STEP\<rfloor>\<bar> \<le> 1 \<and>
      (\<forall>j<length (update_args (frame_trace r)). FIXED_TIME_STEP \<le> acc_after j ?a) \<and>
      \<not> FIXED_TIME_STEP \<le> acc_after (length (update_args (frame_trace r))) ?a"
    if nt: "never_throws (update this)" and pos: "0 \<le> ?a" and small: "?a < 1024"
  proof -
    let ?m = "nat \<lfloor>?a / FIXED_TIME_STEP\<rfloor>"
    note fb = floor_step_bounds [OF pos small]
    from update_loop_ends [OF fb(1) small, of "update this" w "[]"]
    obtain y tr' where y: "update_loop (update this) ?a w [] = Some y"
      and tr': "snd (snd (snd y)) = [] @ tr'" and up: "length (update_args tr') \<le> ?m + 1"
      by (elim exE conjE) (rule that)
    obtain x acc w1 tr where yy: "y = (x, acc, w1, tr)" by (cases y)
    from update_loop_never_throws [OF nt y] yy have x: "x = None" by simp
    from tr' yy have tr: "tr' = tr" by simp
    from update_loop_result [OF y] yy x
    have res: "\<forall>j<length (update_args tr). FIXED_TIME_STEP \<le> acc_after j ?a"
      "acc = acc_after (length (update_args tr)) ?a" "\<not> FIXED_TIME_STEP \<le> acc"
      by auto
    have low: "?m - 1 \<le> length (update_args tr)"
    proof (rule ccontr)
      assume "\<not> ?m - 1 \<le> length (update_args tr)"
      then have k: "length (update_args tr) \<le> ?m - 1" and d: "1 \<le> ?m - 1 - length (update_args tr)"
        by simp_all
      from acc_after_lower [OF fb(2) small k] res(2)
      have h: "real (?m - 1 - length (update_args tr)) * (FIXED_TIME_STEP + pow2 (- 44)) \<le> acc"
        by simp
      from d have "1 * (FIXED_TIME_STEP + pow2 (- 44)) \<le>
          real (?m - 1 - length (update_args tr)) * (FIXED_TIME_STEP + pow2 (- 44))"
        using step_bounds eta_bounds by (intro mult_right_mono) simp_all
      then have "FIXED_TIME_STEP + pow2 (- 44) \<le>
          real (?m - 1 - length (update_args tr)) * (FIXED_TIME_STEP + pow2 (- 44))"
        by simp
      then have "FIXED_TIME_STEP + pow2 (- 44) \<le> acc" using h by (rule order_trans)
      with eta_bounds(1) have "FIXED_TIME_STEP \<le> acc" by simp
      with res(3) show False ..
    qed
    from pos step_bounds have "0 \<le> ?a / FIXED_TIME_STEP" by simp
    then have m: "int ?m = \<lfloor>?a / FIXED_TIME_STEP\<rfloor>" by simp
    from up tr have up': "length (update_args tr) \<le> ?m + 1" by simp
    have "\<bar>int k - int M\<bar> \<le> 1" if "k \<le> M + 1" and "M - 1 \<le> k" for k M :: nat
      using that by linarith
    from this [OF up' low]
    have cnt: "\<bar>int (length (update_args tr)) - \<lfloor>?a / FIXED_TIME_STEP\<rfloor>\<bar> \<le> 1"
      unfolding m .
    from loop_running [OF assms y [unfolded yy]] obtain r where
      lr: "loop t this w = Some r" and args: "update_args (frame_trace r) = update_args tr"
      by (elim exE conjE) (rule that)
    from res(2,3) have nlt: "\<not> FIXED_TIME_STEP \<le> acc_after (length (update_args tr)) ?a"
      by simp
    show ?thesis
    proof (intro exI [of _ r] conjI)
      show "loop t this w = Some r" by (rule lr)
      show "\<bar>int (length (update_args (frame_trace r))) - \<lfloor>?a / FIXED_TIME_STEP\<rfloor>\<bar> \<le> 1"
        unfolding args by (rule cnt)
      show "\<forall>j<length (update_args (frame_trace r)). FIXED_TIME_STEP \<le> acc_after j ?a"
        unfolding args by (rule res(1))
      show "\<not> FIXED_TIME_STEP \<le> acc_after (length (update_args (frame_trace r))) ?a"
        unfolding args by (rule nlt)
    qed
  qed
  have four: "\<exists>r. loop t this w = Some r \<and> update_args (frame_trace r) = []"
    if "?a < FIXED_TIME_STEP"
  proof -
    from that have "\<not> FIXED_TIME_STEP \<le> ?a" by simp
    then have u: "update_loop (update this) ?a w [] = Some (None, ?a, w, [])"
      by (rule update_loop_stop)
    from loop_running [OF assms u] show ?thesis by auto
  qed
  from one two three four show ?thesis by blast
qed

theorem fixed_step_updates_witness:
  "running (fixture_loop tick_update True 0 0) \<and>
   never_throws (update (fixture_loop tick_update True 0 0)) \<and>
   0 \<le> frame_accumulator 50 (fixture_loop tick_update True 0 0) \<and>
   frame_accumulator 50 (fixture_loop tick_update True 0 0) < 1024 \<and>
   \<lfloor>frame_accumulator 50 (fixture_loop tick_update True 0 0) / FIXED_TIME_STEP\<rfloor> = 2 \<and>
   (\<exists>r. loop 50 (fixture_loop tick_update True 0 0) 0 = Some r \<and>
        update_args (frame_trace r) = replicate 2 (fl_div FIXED_TIME_STEP 1000) \<and>
        \<bar>int (length (update_args (frame_trace r))) -
           \<lfloor>frame_accumulator 50 (fixture_loop tick_update True 0 0) / FIXED_TIME_STEP\<rfloor>\<bar> \<le> 1 \<and>
        FIXED_TIME_STEP \<le> acc_after 0 (frame_accumulator 50 (fixture_loop tick_update True 0 0)) \<and>
        FIXED_TIME_STEP \<le> acc_after 1 (frame_accumulator 50 (fixture_loop tick_update True 0 0)) \<and>
        \<not> FIXED_TIME_STEP \<le> acc_after 2 (frame_accumulator 50 (fixture_loop tick_update True 0 0)))"
proof -
  let ?g = "fixture_loop tick_update True 0 0"
  let ?c = "fl_div FIXED_TIME_STEP 1000"
  have r: "running ?g" by (simp add: fixture_loop_def)
  have n: "never_throws (update ?g)" by (simp add: fixture_loop_def tick_update_never_throws)
  have p: "0 \<le> frame_accumulator 50 ?g" by (simp add: frame_accumulator_50)
  have s: "frame_accumulator 50 ?g < 1024" by (simp add: frame_accumulator_50)
  have f: "\<lfloor>frame_accumulator 50 ?g / FIXED_TIME_STEP\<rfloor> = 2"
    unfolding frame_accumulator_50 by (rule floor_50)
  from fixed_step_updates [OF r, of 50 0] n p s
  obtain res where lr: "loop 50 ?g 0 = Some res"
    and cnt: "\<bar>int (length (update_args (frame_trace res))) -
        \<lfloor>frame_accumulator 50 ?g / FIXED_TIME_STEP\<rfloor>\<bar> \<le> 1"
    and ge: "\<forall>j<length (update_args (frame_trace res)).
        FIXED_TIME_STEP \<le> acc_after j (frame_accumulator 50 ?g)"
    and lt: "\<not> FIXED_TIME_STEP \<le>
        acc_after (length (update_args (frame_trace res))) (frame_accumulator 50 ?g)"
    by blast
  from frame_50 [of 0] lr have args: "update_args (frame_trace res) = replicate 2 ?c" by auto
  from ge [unfolded args length_replicate all_less_2]
  have g0: "FIXED_TIME_STEP \<le> acc_after 0 (frame_accumulator 50 ?g)"
    and g1: "FIXED_TIME_STEP \<le> acc_after 1 (frame_accumulator 50 ?g)"
    by blast+
  from lt [unfolded args length_replicate]
  have l2: "\<not> FIXED_TIME_STEP \<le> acc_after 2 (frame_accumulator 50 ?g)" .
  have "\<exists>r. loop 50 ?g 0 = Some r \<and>
        update_args (frame_trace r) = replicate 2 ?c \<and>
        \<bar>int (length (update_args (frame_trace r))) -
           \<lfloor>frame_accumulator 50 ?g / FIXED_TIME_STEP\<rfloor>\<bar> \<le> 1 \<and>
        FIXED_TIME_STEP \<le> acc_after 0 (frame_accumulator 50 ?g) \<and>
        FIXED_TIME_STEP \<le> acc_after 1 (frame_accumulator 50 ?g) \<and>
        \<not> FIXED_TIME_STEP \<le> acc_after 2 (frame_accumulator 50 ?g)"
    by (rule exI [of _ res]) (intro conjI lr args cnt g0 g1 l2)
  with r n p s f show ?thesis by (intro conjI)
qed

text \<open>
  Claim C4 (fixed-step determinism), refuted as stated. In a frame that starts with an
  empty accumulator and delivers 50 ms, the update callback is invoked twice and each
  time receives \<open>FIXED_TIME_STEP / 1000\<close>, the number 0.016666666666666666, not the step
  \<open>FIXED_TIME_STEP\<close>, the number 16.666666666666668, that the accumulator is compared
  with and reduced by; with the exact step \<open>1000 / 60\<close> the floor of \<open>50 / (1000 / 60)\<close>
  is 3. A frame that delivers 500 ms adds the clamped 250 ms and invokes the callback 15
  times, while the floor of \<open>250 / FIXED_TIME_STEP\<close> is 14. And in the 50 ms frame with an
  update callback that throws, the callback is invoked once, while the floor is 2.
\<close>

theorem fixed_step_value_counterexample:
  "running (fixture_loop tick_update True 0 0) \<and>
   (\<exists>r. loop 50 (fixture_loop tick_update True 0 0) 0 = Some r \<and>
        update_args (frame_trace r) =
          [fl_div FIXED_TIME_STEP 1000, fl_div FIXED_TIME_STEP 1000]) \<and>
   fl_div FIXED_TIME_STEP 1000 = 4803839602528529 / 288230376151711744 \<and>
   FIXED_TIME_STEP = 4691249611844267 / 281474976710656 \<and>
   fl_div FIXED_TIME_STEP 1000 \<noteq> FIXED_TIME_STEP \<and>
   \<lfloor>(50 :: real) / (1000 / 60)\<rfloor> = 3 \<and>
   frame_accumulator 500 (fixture_loop tick_update True 0 0) = 250 \<and>
   \<lfloor>frame_accumulator 500 (fixture_loop tick_update True 0 0) / FIXED_TIME_STEP\<rfloor> = 14 \<and>
   (\<exists>r. loop 500 (fixture_loop tick_update True 0 0) 0 = Some r \<and>
        length (update_args (frame_trace r)) = 15) \<and>
   running (fixture_loop throwing_update True 0 0) \<and>
   \<lfloor>frame_accumulator 50 (fixture_loop throwing_update True 0 0) / FIXED_TIME_STEP\<rfloor> = 2 \<and>
   (\<exists>r. loop 50 (fixture_loop throwing_update True 0 0) 0 = Some r \<and>
        length (update_args (frame_trace r)) = 1)"
proof -
  let ?g = "fixture_loop tick_update True 0 0"
  let ?h = "fixture_loop throwing_update True 0 0"
  let ?c = "fl_div FIXED_TIME_STEP 1000"
  have r: "running ?g" by (simp add: fixture_loop_def)
  from frame_50 [of 0] obtain r1 where "loop 50 ?g 0 = Some r1"
    and "update_args (frame_trace r1) = replicate 2 ?c"
    by (elim exE conjE) (rule that)
  then have a: "\<exists>r. loop 50 ?g 0 = Some r \<and> update_args (frame_trace r) = [?c, ?c]"
    by (auto simp: numeral_2_eq_2)
  have ne: "?c \<noteq> FIXED_TIME_STEP" unfolding update_arg_val unfolding FIXED_TIME_STEP_val by simp
  have f3: "\<lfloor>(50 :: real) / (1000 / 60)\<rfloor> = 3" by simp
  have f14: "\<lfloor>frame_accumulator 500 ?g / FIXED_TIME_STEP\<rfloor> = 14"
    unfolding frame_accumulator_500 by (rule floor_250)
  from frame_500 [of 0] obtain r2 where "loop 500 ?g 0 = Some r2"
    and "update_args (frame_trace r2) = replicate 15 ?c"
    by (elim exE conjE) (rule that)
  then have b: "\<exists>r. loop 500 ?g 0 = Some r \<and> length (update_args (frame_trace r)) = 15"
    by auto
  have rh: "running ?h" by (simp add: fixture_loop_def)
  have f2: "\<lfloor>frame_accumulator 50 ?h / FIXED_TIME_STEP\<rfloor> = 2"
    unfolding frame_accumulator_50 by (rule floor_50)
  have h1: "\<forall>j\<le>0. FIXED_TIME_STEP \<le> acc_after j (frame_accumulator 50 ?h)"
    by (simp add: frame_accumulator_50 ge_50_0)
  have h2: "\<forall>j<0. fst (update ?h ?c (world_after (update ?h) j 0)) = None" by simp
  have h3: "fst (update ?h ?c (world_after (update ?h) 0 0)) = Some (Error ''boom'')"
    by (simp add: fixture_loop_def throwing_update_def)
  from frame_update_throws [OF rh h1 h2 h3]
  have c: "\<exists>r. loop 50 ?h 0 = Some r \<and> length (update_args (frame_trace r)) = 1" by auto
  show ?thesis
    by (intro conjI r a update_arg_val FIXED_TIME_STEP_val ne f3 frame_accumulator_500 f14 b rh f2 c)
qed

text \<open>
  Claim C5 as amended. In every frame of a running loop the time added to the accumulator
  is \<open>min(currentTime - lastTime, MAX_FRAME_TIME)\<close> and \<open>lastTime\<close> becomes \<open>currentTime\<close>,
  so real time beyond \<open>MAX_FRAME_TIME\<close> is not added later either. When the accumulator
  holds less than one step before the frame, as it does after every frame that ends
  without an error, the frame returns after at most
  \<open>floor(MAX_FRAME_TIME / FIXED_TIME_STEP) + 2 = 16\<close> update calls; and when nothing throws,
  the accumulator ends as the clamped sum reduced by one step per update call, each sum
  and difference rounded, again below one step, and not negative when it was not negative
  before and time did not run backwards.
\<close>

theorem frame_time_clamped:
  assumes "running this" and "accumulator this < FIXED_TIME_STEP"
  shows "\<exists>r. loop t this w = Some r \<and>
           lastTime (frame_loop r) = t \<and>
           int (length (update_args (frame_trace r))) \<le> \<lfloor>MAX_FRAME_TIME / FIXED_TIME_STEP\<rfloor> + 2 \<and>
           (frame_error r = None \<longrightarrow>
              accumulator (frame_loop r) =
                acc_after (length (update_args (frame_trace r)))
                  (fl_add (accumulator this) (min (fl_sub t (lastTime this)) MAX_FRAME_TIME)) \<and>
              accumulator (frame_loop r) < FIXED_TIME_STEP \<and>
              (0 \<le> accumulator this \<and> lastTime this \<le> t \<longrightarrow> 0 \<le> accumulator (frame_loop r)))"
proof -
  let ?a = "frame_accumulator t this"
  have a: "?a = fl_add (accumulator this) (min (fl_sub t (lastTime this)) MAX_FRAME_TIME)"
    by (simp add: frame_accumulator_def)
  note b = frame_accumulator_bound [OF assms(2), of t]
  from update_loop_ends [OF b, of "update this" w "[]"]
  obtain y tr' where y: "update_loop (update this) ?a w [] = Some y"
    and tr': "snd (snd (snd y)) = [] @ tr'" and up: "length (update_args tr') \<le> 16"
    by (elim exE conjE) (rule that)
  obtain x acc w1 tr where yy: "y = (x, acc, w1, tr)" by (cases y)
  from tr' yy have tr: "tr' = tr" by simp
  from loop_running [OF assms(1) y [unfolded yy]] obtain r where
    lr: "loop t this w = Some r"
    and err: "frame_error r =
      (case x of Some e \<Rightarrow> Some e | None \<Rightarrow> fst (render this (fl_div acc FIXED_TIME_STEP) w1))"
    and lt: "lastTime (frame_loop r) = t"
    and ac: "accumulator (frame_loop r) = acc"
    and args: "update_args (frame_trace r) = update_args tr"
    by (elim exE conjE) (rule that)
  have cnt: "int (length (update_args (frame_trace r))) \<le> \<lfloor>MAX_FRAME_TIME / FIXED_TIME_STEP\<rfloor> + 2"
    unfolding args max_frame_steps using up tr by simp
  have rest: "accumulator (frame_loop r) =
        acc_after (length (update_args (frame_trace r)))
          (fl_add (accumulator this) (min (fl_sub t (lastTime this)) MAX_FRAME_TIME)) \<and>
      accumulator (frame_loop r) < FIXED_TIME_STEP \<and>
      (0 \<le> accumulator this \<and> lastTime this \<le> t \<longrightarrow> 0 \<le> accumulator (frame_loop r))"
    if ok: "frame_error r = None"
  proof -
    from ok err have x: "x = None" by (cases x) simp_all
    from update_loop_result [OF y] yy x
    have res: "acc = acc_after (length (update_args tr)) ?a" "\<not> FIXED_TIME_STEP \<le> acc"
      "0 \<le> ?a \<longrightarrow> 0 \<le> acc"
      by auto
    have one: "accumulator (frame_loop r) =
        acc_after (length (update_args (frame_trace r)))
          (fl_add (accumulator this) (min (fl_sub t (lastTime this)) MAX_FRAME_TIME))"
      unfolding ac args a [symmetric] by (rule res(1))
    have two: "accumulator (frame_loop r) < FIXED_TIME_STEP" unfolding ac using res(2) by simp
    have three: "0 \<le> accumulator (frame_loop r)" if "0 \<le> accumulator this" "lastTime this \<le> t"
      unfolding ac using res(3) frame_accumulator_nonneg [OF that] by simp
    from one two three show ?thesis by blast
  qed
  show ?thesis
  proof (intro exI [of _ r] conjI impI)
    show "loop t this w = Some r" by (rule lr)
    show "lastTime (frame_loop r) = t" by (rule lt)
    show "int (length (update_args (frame_trace r))) \<le> \<lfloor>MAX_FRAME_TIME / FIXED_TIME_STEP\<rfloor> + 2"
      by (rule cnt)
  next
    assume "frame_error r = None"
    from rest [OF this]
    show "accumulator (frame_loop r) =
        acc_after (length (update_args (frame_trace r)))
          (fl_add (accumulator this) (min (fl_sub t (lastTime this)) MAX_FRAME_TIME))"
      by blast
  next
    assume "frame_error r = None"
    from rest [OF this] show "accumulator (frame_loop r) < FIXED_TIME_STEP" by blast
  next
    assume "frame_error r = None" and p: "0 \<le> accumulator this \<and> lastTime this \<le> t"
    from rest [OF this(1)] p show "0 \<le> accumulator (frame_loop r)" by blast
  qed
qed

theorem frame_time_clamped_witness:
  "running (fixture_loop tick_update True (4691249611844265 / 281474976710656) 50) \<and>
   accumulator (fixture_loop tick_update True (4691249611844265 / 281474976710656) 50)
     < FIXED_TIME_STEP \<and>
   0 \<le> accumulator (fixture_loop tick_update True (4691249611844265 / 281474976710656) 50) \<and>
   lastTime (fixture_loop tick_update True (4691249611844265 / 281474976710656) 50) \<le> 550 \<and>
   (\<exists>r. loop 550 (fixture_loop tick_update True (4691249611844265 / 281474976710656) 50) 2 = Some r \<and>
        lastTime (frame_loop r) = 550 \<and>
        length (update_args (frame_trace r)) = 16 \<and>
        int (length (update_args (frame_trace r))) \<le> \<lfloor>MAX_FRAME_TIME / FIXED_TIME_STEP\<rfloor> + 2 \<and>
        frame_error r = None \<and>
        accumulator (frame_loop r) =
          acc_after (length (update_args (frame_trace r)))
            (fl_add (accumulator (fixture_loop tick_update True (4691249611844265 / 281474976710656) 50))
               (min (fl_sub 550 (lastTime (fixture_loop tick_update True (4691249611844265 / 281474976710656) 50)))
                  MAX_FRAME_TIME)) \<and>
        accumulator (frame_loop r) = 9 / 140737488355328 \<and>
        accumulator (frame_loop r) < FIXED_TIME_STEP \<and>
        0 \<le> accumulator (frame_loop r))"
proof -
  let ?h = "fixture_loop tick_update True (4691249611844265 / 281474976710656) 50"
  have r: "running ?h" by (simp add: fixture_loop_def)
  have ac: "accumulator ?h = 4691249611844265 / 281474976710656" by (simp add: fixture_loop_def)
  have lt: "lastTime ?h = 50" by (simp add: fixture_loop_def)
  have up: "update ?h = tick_update" by (simp add: fixture_loop_def)
  have s: "accumulator ?h < FIXED_TIME_STEP" by (simp add: fixture_loop_def FIXED_TIME_STEP_val)
  have p: "0 \<le> accumulator ?h" by (simp add: fixture_loop_def)
  have l: "lastTime ?h \<le> 550" by (simp add: fixture_loop_def)
  from frame_550 [OF r up ac lt, of 2] obtain res where
    f: "loop 550 ?h 2 = Some res"
      "update_args (frame_trace res) = replicate 16 (fl_div FIXED_TIME_STEP 1000)"
      "frame_error res = fst (render ?h (fl_div (9 / 140737488355328) FIXED_TIME_STEP)
                                (world_after tick_update 16 2))"
      "accumulator (frame_loop res) = 9 / 140737488355328"
    by (elim exE conjE) (rule that)
  from f(2) have n16: "length (update_args (frame_trace res)) = 16" by simp
  from f(3) have e: "frame_error res = None" by (simp add: fixture_loop_def draw_render_def)
  from frame_time_clamped [OF r s, of 550 2] f(1) e p l
  have t: "lastTime (frame_loop res) = 550"
    "int (length (update_args (frame_trace res))) \<le> \<lfloor>MAX_FRAME_TIME / FIXED_TIME_STEP\<rfloor> + 2"
    "accumulator (frame_loop res) =
       acc_after (length (update_args (frame_trace res)))
         (fl_add (accumulator ?h) (min (fl_sub 550 (lastTime ?h)) MAX_FRAME_TIME))"
    "accumulator (frame_loop res) < FIXED_TIME_STEP"
    "0 \<le> accumulator (frame_loop res)"
    by auto
  have "\<exists>r. loop 550 ?h 2 = Some r \<and>
        lastTime (frame_loop r) = 550 \<and>
        length (update_args (frame_trace r)) = 16 \<and>
        int (length (update_args (frame_trace r))) \<le> \<lfloor>MAX_FRAME_TIME / FIXED_TIME_STEP\<rfloor> + 2 \<and>
        frame_error r = None \<and>
        accumulator (frame_loop r) =
          acc_after (length (update_args (frame_trace r)))
            (fl_add (accumulator ?h) (min (fl_sub 550 (lastTime ?h)) MAX_FRAME_TIME)) \<and>
        accumulator (frame_loop r) = 9 / 140737488355328 \<and>
        accumulator (frame_loop r) < FIXED_TIME_STEP \<and>
        0 \<le> accumulator (frame_loop r)"
    by (rule exI [of _ res]) (intro conjI f(1) t(1) n16 t(2) e t(3) f(4) t(4) t(5))
  with r s p l show ?thesis by (intro conjI)
qed

text \<open>
  Claim C5 (spiral-of-death clamp), refuted as stated. The floor of
  \<open>MAX_FRAME_TIME / FIXED_TIME_STEP\<close> is 14 (it is 15 for the exact step \<open>1000 / 60\<close>). A
  frame that delivers 500 ms to a loop with an empty accumulator runs 15 update calls.
  And after a first frame of 50 ms, which ends without an error and leaves less than one
  step in the accumulator, a frame that delivers 500 ms runs 16 update calls.
\<close>

theorem frame_clamp_bound_counterexample:
  "running (fixture_loop tick_update True 0 0) \<and>
   \<lfloor>MAX_FRAME_TIME / FIXED_TIME_STEP\<rfloor> = 14 \<and>
   \<lfloor>(250 :: real) / (1000 / 60)\<rfloor> = 15 \<and>
   (\<exists>r. loop 500 (fixture_loop tick_update True 0 0) 0 = Some r \<and>
        length (update_args (frame_trace r)) = 15) \<and>
   (\<exists>r1 r2. loop 50 (fixture_loop tick_update True 0 0) 0 = Some r1 \<and>
        frame_error r1 = None \<and>
        running (frame_loop r1) \<and>
        accumulator (frame_loop r1) < FIXED_TIME_STEP \<and>
        lastTime (frame_loop r1) = 50 \<and>
        loop 550 (frame_loop r1) (frame_world r1) = Some r2 \<and>
        length (update_args (frame_trace r2)) = 16)"
proof -
  let ?g = "fixture_loop tick_update True 0 0"
  let ?c = "fl_div FIXED_TIME_STEP 1000"
  have r: "running ?g" by (simp add: fixture_loop_def)
  have f15: "\<lfloor>(250 :: real) / (1000 / 60)\<rfloor> = 15" by simp
  from frame_500 [of 0] obtain r0 where "loop 500 ?g 0 = Some r0"
    and "update_args (frame_trace r0) = replicate 15 ?c"
    by (elim exE conjE) (rule that)
  then have b: "\<exists>r. loop 500 ?g 0 = Some r \<and> length (update_args (frame_trace r)) = 15"
    by auto
  from frame_50 [of 0] obtain r1 where
    f: "loop 50 ?g 0 = Some r1" "frame_error r1 = None" "running (frame_loop r1)"
      "accumulator (frame_loop r1) = 4691249611844265 / 281474976710656"
      "lastTime (frame_loop r1) = 50" "update (frame_loop r1) = tick_update"
    by (elim exE conjE) (rule that)
  from f(4) have small: "accumulator (frame_loop r1) < FIXED_TIME_STEP"
    by (simp add: FIXED_TIME_STEP_val)
  from frame_550 [OF f(3) f(6) f(4) f(5), of "frame_world r1"] obtain r2 where
    g: "loop 550 (frame_loop r1) (frame_world r1) = Some r2"
      "update_args (frame_trace r2) = replicate 16 ?c"
    by (elim exE conjE) (rule that)
  from g(2) have n16: "length (update_args (frame_trace r2)) = 16" by simp
  have c: "\<exists>r1 r2. loop 50 ?g 0 = Some r1 \<and> frame_error r1 = None \<and>
        running (frame_loop r1) \<and> accumulator (frame_loop r1) < FIXED_TIME_STEP \<and>
        lastTime (frame_loop r1) = 50 \<and>
        loop 550 (frame_loop r1) (frame_world r1) = Some r2 \<and>
        length (update_args (frame_trace r2)) = 16"
    by (rule exI [of _ r1], rule exI [of _ r2]) (intro conjI f(1) f(2) f(3) small f(5) g(1) n16)
  show ?thesis by (intro conjI r max_frame_steps f15 b c)
qed




section \<open>Theorems about the particles\<close>

lemma createExplosion_loop_size:
  assumes "createExplosion_loop i count x y color psize velocity this e = (this', e')"
    and "i \<le> count" and "int (length (particles this)) \<le> MAX_PARTICLES (ps_config this)"
  shows "int (length (particles this')) =
           min (MAX_PARTICLES (ps_config this)) (int (length (particles this)) + (count - i)) \<and>
         ps_config this' = ps_config this"
  using assms
proof (induction i count x y color psize velocity this e rule: createExplosion_loop.induct)
  case (1 i count x y color psize velocity this e)
  show ?case
  proof (cases "i < count")
    case False
    with "1.prems" show ?thesis by (simp add: createExplosion_loop.simps)
  next
    case True
    show ?thesis
    proof (cases "int (length (particles this)) \<ge> MAX_PARTICLES (ps_config this)")
      case full: True
      with True "1.prems" show ?thesis by (simp add: createExplosion_loop.simps)
    next
      case room: False
      obtain r1 e1 where a: "Math_random e = (r1, e1)" by (cases "Math_random e")
      obtain r2 e2 where b: "Math_random e1 = (r2, e2)" by (cases "Math_random e1")
      obtain now e3 where c: "performance_now e2 = (now, e3)" by (cases "performance_now e2")
      let ?p = "\<lparr>sp_x = x, sp_y = y, sp_velocity = velocity * (0.5 + r1 * 0.5),
                 sp_angle = (pi * 2 * of_int i) / of_int count,
                 sp_color = color, sp_size = psize,
                 sp_lifetime = PARTICLE_LIFETIME (ps_config this) * (0.8 + r2 * 0.4),
                 sp_birth = now, sp_dead = False\<rparr>"
      let ?nxt = "this\<lparr>particles := particles this @ [?p]\<rparr>"
      have step: "createExplosion_loop i count x y color psize velocity this e =
          createExplosion_loop (i + 1) count x y color psize velocity ?nxt e3"
        using True room a b c
        by (subst createExplosion_loop.simps) (simp add: Let_def)
      with "1.prems"(1) have rec:
        "createExplosion_loop (i + 1) count x y color psize velocity ?nxt e3 = (this', e')"
        by simp
      have le: "i + 1 \<le> count" using True by simp
      have cap: "int (length (particles ?nxt)) \<le> MAX_PARTICLES (ps_config ?nxt)"
        using room by simp
      from "1.IH" [OF True room refl refl a [symmetric] refl refl b [symmetric] refl
          c [symmetric] refl rec le cap]
      show ?thesis using room by auto
    qed
  qed
qed

text \<open>
  Claim C6 (emission cap). \<open>createExplosion\<close> is the emission request of the particle
  system, \<open>MAX_PARTICLES\<close> its cap \<open>M\<close>, and the requested number \<open>N\<close> is \<open>options.count\<close> or,
  by default, \<open>BATCH_SIZE\<close>. For \<open>N \<ge> 0\<close> and a system holding \<open>k \<le> M\<close> particles, the
  number of particles afterwards is \<open>min(M, k + N)\<close>, never more than \<open>M\<close>. The function
  has no error outcome and the system has no queue: the requests beyond the cap are
  dropped, with one \<open>console.warn\<close> line exactly when \<open>k + N > M\<close>. (The other emitter,
  \<open>ParticleEmitter.emit\<close>, has no cap at all and is not a system of this kind; see the
  last section.)
\<close>

theorem emission_cap:
  assumes "0 \<le> or_default (opt_count options) (BATCH_SIZE (ps_config this))"
    and "int (length (particles this)) \<le> MAX_PARTICLES (ps_config this)"
  shows "int (length (particles (fst (createExplosion x y options this e)))) =
           min (MAX_PARTICLES (ps_config this))
               (int (length (particles this)) +
                or_default (opt_count options) (BATCH_SIZE (ps_config this))) \<and>
         int (length (particles (fst (createExplosion x y options this e))))
           \<le> MAX_PARTICLES (ps_config this) \<and>
         ps_config (fst (createExplosion x y options this e)) = ps_config this \<and>
         snd (snd (createExplosion x y options this e)) =
           (if int (length (particles this)) +
               or_default (opt_count options) (BATCH_SIZE (ps_config this))
               > MAX_PARTICLES (ps_config this)
            then [''Particle limit reached, some particles may be skipped''] else [])"
proof -
  let ?n = "or_default (opt_count options) (BATCH_SIZE (ps_config this))"
  let ?color = "or_default (opt_color options) ''#FF5733''"
  let ?psize = "or_default (opt_size options) 2"
  let ?velocity = "or_default (opt_velocity options) 200"
  obtain this' e' where l:
    "createExplosion_loop 0 ?n x y ?color ?psize ?velocity this e = (this', e')"
    by (cases "createExplosion_loop 0 ?n x y ?color ?psize ?velocity this e")
  from createExplosion_loop_size [OF l assms]
  have sz: "int (length (particles this')) =
      min (MAX_PARTICLES (ps_config this)) (int (length (particles this)) + ?n)"
    and cf: "ps_config this' = ps_config this"
    by simp_all
  have res: "createExplosion x y options this e =
      (this', e',
       if int (length (particles this)) + ?n > MAX_PARTICLES (ps_config this)
       then [''Particle limit reached, some particles may be skipped''] else [])"
    using l by (simp add: createExplosion_def Let_def)
  from sz cf show ?thesis unfolding res by simp
qed

theorem emission_cap_witness:
  "(0::int) \<le> or_default (opt_count \<lparr>opt_count = Some 4, opt_color = None, opt_size = None,
       opt_velocity = None\<rparr>) (BATCH_SIZE (ps_config (fixture_system 5 3))) \<and>
   int (length (particles (fixture_system 5 3))) \<le> MAX_PARTICLES (ps_config (fixture_system 5 3)) \<and>
   length (particles (fst (createExplosion 10 20
       \<lparr>opt_count = Some 4, opt_color = None, opt_size = None, opt_velocity = None\<rparr>
       (fixture_system 5 3) fixture_env))) = 5 \<and>
   snd (snd (createExplosion 10 20
       \<lparr>opt_count = Some 4, opt_color = None, opt_size = None, opt_velocity = None\<rparr>
       (fixture_system 5 3) fixture_env)) =
     [''Particle limit reached, some particles may be skipped'']"
proof -
  let ?o = "\<lparr>opt_count = Some 4, opt_color = None, opt_size = None, opt_velocity = None\<rparr>"
  have a: "(0::int) \<le> or_default (opt_count ?o) (BATCH_SIZE (ps_config (fixture_system 5 3)))"
    by (simp add: or_default_def)
  have b: "int (length (particles (fixture_system 5 3))) \<le> MAX_PARTICLES (ps_config (fixture_system 5 3))"
    by (simp add: fixture_system_def)
  have n: "or_default (opt_count ?o) (BATCH_SIZE (ps_config (fixture_system 5 3))) = 4"
    by (simp add: or_default_def)
  have k: "int (length (particles (fixture_system 5 3))) = 3" "MAX_PARTICLES (ps_config (fixture_system 5 3)) = 5"
    by (simp_all add: fixture_system_def)
  from emission_cap [OF a b, of 10 20 fixture_env]
  have "int (length (particles (fst (createExplosion 10 20 ?o (fixture_system 5 3) fixture_env)))) = 5"
    "snd (snd (createExplosion 10 20 ?o (fixture_system 5 3) fixture_env)) =
       [''Particle limit reached, some particles may be skipped'']"
    unfolding n k by simp_all
  with a b show ?thesis by simp
qed

lemma createExplosion_evaluates:
  "length (particles (fst (createExplosion 10 20
       \<lparr>opt_count = Some 4, opt_color = None, opt_size = None, opt_velocity = None\<rparr>
       (fixture_system 5 3) fixture_env))) = 5"
  by (simp add: createExplosion_def createExplosion_loop.simps or_default_def fixture_system_def
      fixture_env_def Math_random_def performance_now_def Let_def)

lemma fixture_pooled_is_init:
  "init (Some \<lparr>cfg_x = Some 0, cfg_y = Some 0, cfg_size = None, cfg_lifetime = None,
       cfg_color = None, cfg_speed = None, cfg_angle = None, cfg_gravity = None,
       cfg_alpha = None\<rparr>) Particle_new = Inr fixture_pooled"
  by (simp add: init_def Particle_new_def fixture_pooled_def or_default_def)




text \<open>
  Claim C8 (alpha bound), refuted as stated: \<open>update\<close> accepts a negative \<open>deltaTime\<close>. An
  active particle with lifetime 1000 and \<open>elapsed = 0\<close> updated by -500 ms stays active
  with \<open>alpha = 1.5\<close>. Likewise an explosion particle whose \<open>birth\<close> is 500 ms ahead of the
  clock (\<open>Date.now()\<close> is not monotonic) is reported alive with \<open>alpha = 1.5\<close>.
\<close>

theorem alpha_bound_counterexample:
  "pt_active fixture_pooled \<and>
   fst (Particle_update 7 (- 500) fixture_pooled []) \<and>
   pt_active (fst (snd (Particle_update 7 (- 500) fixture_pooled []))) \<and>
   pt_alpha (fst (snd (Particle_update 7 (- 500) fixture_pooled []))) = 3 / 2 \<and>
   \<not> pt_alpha (fst (snd (Particle_update 7 (- 500) fixture_pooled []))) \<le> 1 \<and>
   fst (EParticle_update 16 (fixture_explosion_particle\<lparr>ep_birth := 500\<rparr>) (clock_at 0)) \<and>
   ep_alpha (fst (snd (EParticle_update 16 (fixture_explosion_particle\<lparr>ep_birth := 500\<rparr>)
       (clock_at 0)))) = 3 / 2"
  by (simp add: Particle_update_def fixture_pooled_def EParticle_update_def Date_now_def
      fixture_explosion_particle_def clock_at_def)

text \<open>
  Claim C8 as amended. For the pooled particle: if \<open>elapsed \<ge> 0\<close> and \<open>deltaTime \<ge> 0\<close>, then
  after every \<open>update\<close> that leaves the particle active, \<open>elapsed\<close> is still non-negative,
  \<open>alpha = 1 - elapsed / lifetime\<close> equals \<open>max(0, 1 - elapsed / lifetime)\<close>, and
  \<open>0 \<le> alpha \<le> 1\<close>. For the explosion particle: if the clock has not gone back behind
  \<open>birth\<close>, then after every \<open>update\<close> that reports it alive,
  \<open>alpha = max(0, 1 - age / lifetime)\<close> and \<open>0 \<le> alpha \<le> 1\<close>. A particle starts at
  \<open>elapsed = 0\<close> with the configured initial alpha (1 by default), and an explosion
  particle with \<open>alpha = 1\<close>.
\<close>

theorem alpha_bound:
  "(pt_active p \<and> 0 \<le> pt_elapsed p \<and> 0 \<le> deltaTime \<and>
    fst (Particle_update this deltaTime p pool) \<longrightarrow>
      pt_active (fst (snd (Particle_update this deltaTime p pool))) \<and>
      0 \<le> pt_elapsed (fst (snd (Particle_update this deltaTime p pool))) \<and>
      pt_alpha (fst (snd (Particle_update this deltaTime p pool))) =
        max 0 (1 - pt_elapsed (fst (snd (Particle_update this deltaTime p pool))) /
                   pt_lifetime (fst (snd (Particle_update this deltaTime p pool)))) \<and>
      0 \<le> pt_alpha (fst (snd (Particle_update this deltaTime p pool))) \<and>
      pt_alpha (fst (snd (Particle_update this deltaTime p pool))) \<le> 1) \<and>
   (ep_birth q \<le> clocks e 0 \<and> fst (EParticle_update dt q e) \<longrightarrow>
      ep_alpha (fst (snd (EParticle_update dt q e))) =
        max 0 (1 - (clocks e 0 - ep_birth q) / ep_lifetime q) \<and>
      0 \<le> ep_alpha (fst (snd (EParticle_update dt q e))) \<and>
      ep_alpha (fst (snd (EParticle_update dt q e))) \<le> 1) \<and>
   (init (Some c) p0 = Inr p1 \<longrightarrow>
      pt_active p1 \<and> pt_elapsed p1 = 0 \<and> pt_alpha p1 = or_default (cfg_alpha c) 1) \<and>
   ep_alpha (fst (EParticle_new x y options e)) = 1"
proof (intro conjI impI)
  assume h: "pt_active p \<and> 0 \<le> pt_elapsed p \<and> 0 \<le> deltaTime \<and>
    fst (Particle_update this deltaTime p pool)"
  then have lt: "pt_elapsed p + deltaTime < pt_lifetime p"
    by (auto simp: Particle_update_def Let_def split: if_splits)
  let ?p' = "fst (snd (Particle_update this deltaTime p pool))"
  from h lt have f: "pt_active ?p'" "pt_elapsed ?p' = pt_elapsed p + deltaTime"
    "pt_lifetime ?p' = pt_lifetime p"
    "pt_alpha ?p' = 1 - (pt_elapsed p + deltaTime) / pt_lifetime p"
    by (simp_all add: Particle_update_def Let_def)
  from h lt have pos: "0 < pt_lifetime p" "0 \<le> pt_elapsed p + deltaTime" by auto
  then have q: "0 \<le> (pt_elapsed p + deltaTime) / pt_lifetime p"
    "(pt_elapsed p + deltaTime) / pt_lifetime p < 1"
    using lt by simp_all
  show "pt_active ?p'" by (rule f(1))
  show "0 \<le> pt_elapsed ?p'" using f(2) pos(2) by simp
  show "pt_alpha ?p' = max 0 (1 - pt_elapsed ?p' / pt_lifetime ?p')"
    using f q by simp
  show "0 \<le> pt_alpha ?p'" using f(4) q by simp
  show "pt_alpha ?p' \<le> 1" using f(4) q by simp
next
  assume h: "ep_birth q \<le> clocks e 0 \<and> fst (EParticle_update dt q e)"
  let ?q' = "fst (snd (EParticle_update dt q e))"
  let ?age = "clocks e 0 - ep_birth q"
  have f: "ep_alpha ?q' = max 0 (1 - ?age / ep_lifetime q)"
    "fst (EParticle_update dt q e) \<longleftrightarrow> ?age < ep_lifetime q"
    by (simp_all add: EParticle_update_def Date_now_def Let_def)
  from h f(2) have pos: "0 \<le> ?age" "0 < ep_lifetime q" by auto
  then have "0 \<le> ?age / ep_lifetime q" by simp
  then show "ep_alpha ?q' = max 0 (1 - ?age / ep_lifetime q)"
    "0 \<le> ep_alpha ?q'" "ep_alpha ?q' \<le> 1"
    using f(1) by simp_all
next
  assume "init (Some c) p0 = Inr p1"
  then show "pt_active p1" "pt_elapsed p1 = 0" "pt_alpha p1 = or_default (cfg_alpha c) 1"
    by (auto simp: init_def Let_def split: option.splits)
next
  show "ep_alpha (fst (EParticle_new x y options e)) = 1"
    by (simp add: EParticle_new_def Let_def split: prod.splits)
qed

theorem alpha_bound_witness:
  "pt_active fixture_pooled \<and> 0 \<le> pt_elapsed fixture_pooled \<and> (0::real) \<le> 400 \<and>
   fst (Particle_update 7 400 fixture_pooled []) \<and>
   pt_alpha (fst (snd (Particle_update 7 400 fixture_pooled []))) = 3 / 5 \<and>
   0 \<le> pt_alpha (fst (snd (Particle_update 7 400 fixture_pooled []))) \<and>
   pt_alpha (fst (snd (Particle_update 7 400 fixture_pooled []))) \<le> 1 \<and>
   ep_birth fixture_explosion_particle \<le> clocks (clock_at 250) 0 \<and>
   fst (EParticle_update 16 fixture_explosion_particle (clock_at 250)) \<and>
   ep_alpha (fst (snd (EParticle_update 16 fixture_explosion_particle (clock_at 250)))) = 3 / 4 \<and>
   0 \<le> ep_alpha (fst (snd (EParticle_update 16 fixture_explosion_particle (clock_at 250)))) \<and>
   ep_alpha (fst (snd (EParticle_update 16 fixture_explosion_particle (clock_at 250)))) \<le> 1 \<and>
   init (Some \<lparr>cfg_x = Some 0, cfg_y = Some 0, cfg_size = None, cfg_lifetime = None,
       cfg_color = None, cfg_speed = None, cfg_angle = None, cfg_gravity = None,
       cfg_alpha = None\<rparr>) Particle_new = Inr fixture_pooled \<and>
   pt_alpha fixture_pooled = 1"
proof -
  let ?c = "\<lparr>cfg_x = Some 0, cfg_y = Some 0, cfg_size = None, cfg_lifetime = None,
       cfg_color = None, cfg_speed = None, cfg_angle = None, cfg_gravity = None,
       cfg_alpha = None\<rparr>"
  note t = alpha_bound [where p = fixture_pooled and deltaTime = 400 and this = 7 and pool = "[]"
      and q = fixture_explosion_particle and e = "clock_at 250" and dt = 16
      and c = ?c and ?p0.0 = Particle_new and ?p1.0 = fixture_pooled
      and x = 0 and y = 0
      and options = "\<lparr>spreadFactor = 0.8, eo_size = Some 3, eo_lifetime = Some 1000, colors = []\<rparr>"]
  have a: "pt_active fixture_pooled" "0 \<le> pt_elapsed fixture_pooled"
    "pt_elapsed fixture_pooled = 0" "pt_lifetime fixture_pooled = 1000"
    by (simp_all add: fixture_pooled_def)
  have b: "fst (Particle_update 7 400 fixture_pooled [])"
    by (simp add: Particle_update_def fixture_pooled_def)
  have v: "pt_alpha (fst (snd (Particle_update 7 400 fixture_pooled []))) = 3 / 5"
    by (simp add: Particle_update_def fixture_pooled_def)
  have c: "ep_birth fixture_explosion_particle \<le> clocks (clock_at 250) 0"
    by (simp add: fixture_explosion_particle_def clock_at_def)
  have d: "fst (EParticle_update 16 fixture_explosion_particle (clock_at 250))"
    by (simp add: EParticle_update_def Date_now_def fixture_explosion_particle_def
        clock_at_def)
  have w: "ep_alpha (fst (snd (EParticle_update 16 fixture_explosion_particle (clock_at 250)))) = 3 / 4"
    by (simp add: EParticle_update_def Date_now_def fixture_explosion_particle_def
        clock_at_def)
  have i: "init (Some ?c) Particle_new = Inr fixture_pooled" by (rule fixture_pooled_is_init)
  have z: "(0::real) \<le> 400" by simp
  from t a(1,2) z b
  have r1: "0 \<le> pt_alpha (fst (snd (Particle_update 7 400 fixture_pooled [])))"
    "pt_alpha (fst (snd (Particle_update 7 400 fixture_pooled []))) \<le> 1"
    by blast+
  from t c d
  have r2: "0 \<le> ep_alpha (fst (snd (EParticle_update 16 fixture_explosion_particle (clock_at 250))))"
    "ep_alpha (fst (snd (EParticle_update 16 fixture_explosion_particle (clock_at 250)))) \<le> 1"
    by blast+
  from t i have "pt_alpha fixture_pooled = or_default (cfg_alpha ?c) 1" by blast
  then have r3: "pt_alpha fixture_pooled = 1" by (simp add: or_default_def)
  from a(1,2) b v c d w i r1 r2 r3 show ?thesis by simp
qed

section \<open>Theorems about ParticleEmitter\<close>

lemma createParticles_length:
  "length (em_particles (fst (createParticles n this e))) = length (em_particles this) + n \<and>
   isActive (fst (createParticles n this e)) = isActive this"
proof (induction n arbitrary: this e)
  case 0
  then show ?case by simp
next
  case (Suc n)
  obtain this' e' where c: "createParticle this e = (this', e')" by (cases "createParticle this e")
  then have "length (em_particles this') = length (em_particles this) + 1" "isActive this' = isActive this"
    by (auto simp: createParticle_def Let_def split: prod.splits)
  with Suc.IH [of this' e'] c show ?case by simp
qed

text \<open>
  For comparison with the capped system: an active emitter asked for \<open>count \<ge> 1\<close> particles
  holds \<open>count\<close> more afterwards, whatever it held before.
\<close>

lemma emitter_emit_has_no_cap:
  "isActive this \<Longrightarrow> 1 \<le> count \<Longrightarrow>
   int (length (em_particles (fst (emit count this e)))) = int (length (em_particles this)) + count"
  using createParticles_length [of "nat count" this e]
  by (auto simp: emit_def split: prod.splits)

end
